(* ===== verification/RV_Prelude.thy ===== *)
theory RV_Prelude
  imports Main "HOL-Library.Word" "HOL-Library.Signed_Division"
begin

text \<open>
  Shared vocabulary of the development: the machine integers of the C++ sources, the C++
  operators on them that differ from their HOL namesakes, the outcome of running guest code,
  and the two interfaces every execution engine of the program is used through (a step function
  with an invariant, and two step functions that run in lock step).
\<close>

unbundle bit_operations_syntax

section \<open>Machine integers\<close>

type_synonym u8 = "8 word"
type_synonym u16 = "16 word"
type_synonym u32 = "32 word"
type_synonym u64 = "64 word"

text \<open>
  An \<^verbatim>\<open>int32_t\<close> is a \<open>u32\<close> read by \<open>sint\<close>: C++20 signed integers are two's complement
  and every conversion between the two types is the identity on the bits.
\<close>

type_synonym i32 = "32 word"

section \<open>C++ operators\<close>

text \<open>\<^verbatim>\<open>static_cast<uint32_t>(static_cast<int32_t>(a) >> s)\<close>: arithmetic right shift.\<close>

definition cpp_sra :: "u32 \<Rightarrow> nat \<Rightarrow> u32" where
  "cpp_sra a s = signed_drop_bit s a"

text \<open>\<^verbatim>\<open>static_cast<int32_t>(a) < static_cast<int32_t>(b)\<close>, as the integer 0 or 1.\<close>

definition cpp_slt :: "u32 \<Rightarrow> u32 \<Rightarrow> bool" where
  "cpp_slt a b \<longleftrightarrow> sint a < sint b"

text \<open>The products of the M extension, at the widths the casts give them.\<close>

definition cpp_mul :: "u32 \<Rightarrow> u32 \<Rightarrow> u32" where
  "cpp_mul a b = ucast (((ucast a :: u64) * ucast b) AND 0xFFFFFFFF)"

definition cpp_mulh :: "u32 \<Rightarrow> u32 \<Rightarrow> u32" where
  "cpp_mulh a b = ucast (signed_drop_bit 32 ((scast a :: u64) * scast b))"

definition cpp_mulhsu :: "u32 \<Rightarrow> u32 \<Rightarrow> u32" where
  "cpp_mulhsu a b = ucast (drop_bit 32 ((scast a :: u64) * ucast b))"

definition cpp_mulhu :: "u32 \<Rightarrow> u32 \<Rightarrow> u32" where
  "cpp_mulhu a b = ucast (drop_bit 32 ((ucast a :: u64) * ucast b))"

text \<open>
  \<^verbatim>\<open>/\<close> and \<^verbatim>\<open>%\<close> on \<^verbatim>\<open>int32_t\<close> operands, converted to \<^verbatim>\<open>uint32_t\<close>: C++ rounds towards zero.
  The source never evaluates them with a zero divisor or at \<open>-2^31 / -1\<close>.
\<close>

definition cpp_sdiv :: "u32 \<Rightarrow> u32 \<Rightarrow> u32" where
  "cpp_sdiv a b = word_of_int (sint a sdiv sint b)"

definition cpp_srem :: "u32 \<Rightarrow> u32 \<Rightarrow> u32" where
  "cpp_srem a b = word_of_int (sint a smod sint b)"

definition bool_u32 :: "bool \<Rightarrow> u32" where
  "bool_u32 b = (if b then 1 else 0)"

section \<open>Outcomes of running guest code\<close>

text \<open>
  \<open>Running s\<close>: execution goes on in state \<open>s\<close>.  \<open>Exited c s\<close>: the process called
  \<^verbatim>\<open>exit(c)\<close>.  \<open>Execed s\<close>: \<^verbatim>\<open>execve\<close> replaced the process image.  \<open>Aborted\<close>: a failed
  \<^verbatim>\<open>assert\<close>.  \<open>OutOfBounds a\<close>: the program accessed host memory outside the array it owns
  (undefined behaviour in C++), at guest address or index \<open>a\<close>.  \<open>Undefined\<close>: any other
  undefined behaviour, such as signed overflow in generated code.
\<close>

datatype 'a outcome =
    Running 'a
  | Exited int 'a
  | Execed 'a
  | Aborted
  | OutOfBounds u32
  | Undefined

fun obind :: "'a outcome \<Rightarrow> ('a \<Rightarrow> 'a outcome) \<Rightarrow> 'a outcome" where
  "obind (Running a) f = f a"
| "obind (Exited c a) f = Exited c a"
| "obind (Execed a) f = Execed a"
| "obind Aborted f = Aborted"
| "obind (OutOfBounds x) f = OutOfBounds x"
| "obind Undefined f = Undefined"

fun omap :: "('a \<Rightarrow> 'b) \<Rightarrow> 'a outcome \<Rightarrow> 'b outcome" where
  "omap g (Running a) = Running (g a)"
| "omap g (Exited c a) = Exited c (g a)"
| "omap g (Execed a) = Execed (g a)"
| "omap g Aborted = Aborted"
| "omap g (OutOfBounds x) = OutOfBounds x"
| "omap g Undefined = Undefined"

text \<open>All states an outcome mentions satisfy \<open>P\<close>.\<close>

fun oall :: "('a \<Rightarrow> bool) \<Rightarrow> 'a outcome \<Rightarrow> bool" where
  "oall P (Running a) = P a"
| "oall P (Exited c a) = P a"
| "oall P (Execed a) = P a"
| "oall P Aborted = True"
| "oall P (OutOfBounds x) = True"
| "oall P Undefined = True"

text \<open>The state that execution goes on in, if it goes on, satisfies \<open>P\<close>.\<close>

fun orunning :: "('a \<Rightarrow> bool) \<Rightarrow> 'a outcome \<Rightarrow> bool" where
  "orunning P (Running a) = P a"
| "orunning P _ = True"

text \<open>\<open>n\<close> steps, stopping early when execution stops.\<close>

fun iterate :: "('s \<Rightarrow> 's outcome) \<Rightarrow> nat \<Rightarrow> 's \<Rightarrow> 's outcome" where
  "iterate step 0 s = Running s"
| "iterate step (Suc n) s = obind (step s) (iterate step n)"

text \<open>The states that can be reached; with \<open>iterate\<close> as its executable counterpart.\<close>

inductive reaches :: "('s \<Rightarrow> 's outcome) \<Rightarrow> 's \<Rightarrow> 's \<Rightarrow> bool" for step where
  reaches_start: "reaches step s s"
| reaches_step: "reaches step s t \<Longrightarrow> step t = Running u \<Longrightarrow> reaches step s u"

section \<open>Collections of facts\<close>

named_theorems cpp_defs "C++ operators unfolded to word operations"
named_theorems outcome_simps "laws of outcomes"

declare cpp_sra_def [cpp_defs] cpp_slt_def [cpp_defs] cpp_mul_def [cpp_defs]
  cpp_mulh_def [cpp_defs] cpp_mulhsu_def [cpp_defs] cpp_mulhu_def [cpp_defs]
  cpp_sdiv_def [cpp_defs] cpp_srem_def [cpp_defs] bool_u32_def [cpp_defs]

section \<open>Laws of outcomes\<close>

lemma obind_Running [simp, outcome_simps]: "obind x Running = x"
  by (cases x) simp_all

lemma obind_assoc [outcome_simps]: "obind (obind x f) g = obind x (\<lambda>a. obind (f a) g)"
  by (cases x) simp_all

lemma obind_cong [fundef_cong]:
  "x = y \<Longrightarrow> (\<And>a. y = Running a \<Longrightarrow> f a = g a) \<Longrightarrow> obind x f = obind y g"
  by (cases y) simp_all

lemma obind_if [outcome_simps]: "obind (if c then x else y) f = (if c then obind x f else obind y f)"
  by simp

lemma orunning_obind [outcome_simps]:
  "orunning P (obind x f) \<longleftrightarrow> orunning (\<lambda>a. orunning P (f a)) x"
  by (cases x) simp_all

lemma orunning_if:
  "orunning P (if c then x else y) \<longleftrightarrow> (c \<longrightarrow> orunning P x) \<and> (\<not> c \<longrightarrow> orunning P y)"
  by simp

lemma orunning_mono: "orunning P x \<Longrightarrow> (\<And>a. P a \<Longrightarrow> Q a) \<Longrightarrow> orunning Q x"
  by (cases x) simp_all

lemma orunning_True [simp]: "orunning (\<lambda>_. True) x"
  by (cases x) simp_all

lemma oall_orunning: "oall P x \<Longrightarrow> orunning P x"
  by (cases x) simp_all

lemma oall_obind: "oall P (obind x f)" if "oall P x" and "\<And>a. P a \<Longrightarrow> oall P (f a)"
  using that by (cases x) simp_all

lemma oall_if: "(c \<Longrightarrow> oall P x) \<Longrightarrow> (\<not> c \<Longrightarrow> oall P y) \<Longrightarrow> oall P (if c then x else y)"
  by simp

lemma iterate_add: "iterate step (m + n) s = obind (iterate step m s) (iterate step n)"
  by (induction m arbitrary: s) (auto simp: obind_assoc intro!: obind_cong)

lemma obind_eq_Running: "obind x f = Running b \<longleftrightarrow> (\<exists>a. x = Running a \<and> f a = Running b)"
  by (cases x) simp_all

lemma iterate_last: "iterate step (Suc n) s = obind (iterate step n s) step"
proof -
  have "iterate step 1 = step" by (simp add: fun_eq_iff cong: obind_cong)
  then show ?thesis using iterate_add [of step n 1 s] by simp
qed

lemma reaches_iterate: "reaches step s t \<longleftrightarrow> (\<exists>n. iterate step n s = Running t)"
proof
  assume "reaches step s t"
  then show "\<exists>n. iterate step n s = Running t"
  proof (induction rule: reaches.induct)
    case (reaches_start s)
    show ?case by (rule exI [of _ 0]) simp
  next
    case (reaches_step s t u)
    then obtain n where "iterate step n s = Running t" by blast
    then have "iterate step (Suc n) s = Running u" using reaches_step(2) unfolding iterate_last by simp
    then show ?case by blast
  qed
next
  have "iterate step n s = Running t \<Longrightarrow> reaches step s t" for n
  proof (induction n arbitrary: t)
    case 0
    then show ?case by (simp add: reaches.intros)
  next
    case (Suc n)
    then show ?case unfolding iterate_last obind_eq_Running by (blast intro: reaches.intros)
  qed
  then show "\<exists>n. iterate step n s = Running t \<Longrightarrow> reaches step s t" by blast
qed

section \<open>Interface: a step function that keeps an invariant\<close>

text \<open>
  Every execution engine of the program is a step function on its state.  What a client needs
  of it is that a step keeps the engine's invariant whenever execution goes on; then every run
  of any length keeps it.
\<close>

locale stepper =
  fixes step :: "'s \<Rightarrow> 's outcome"
    and inv :: "'s \<Rightarrow> bool"
  assumes step_inv: "inv s \<Longrightarrow> orunning inv (step s)"
begin

lemma iterate_inv: "inv s \<Longrightarrow> orunning inv (iterate step n s)"
proof (induction n arbitrary: s)
  case 0
  then show ?case by simp
next
  case (Suc n)
  from step_inv [OF Suc.prems] show ?case
    using Suc.IH by (cases "step s") simp_all
qed

lemma iterate_inv_Running: "inv s \<Longrightarrow> iterate step n s = Running t \<Longrightarrow> inv t"
  using iterate_inv [of s n] by simp

lemma reaches_inv: "reaches step s t \<Longrightarrow> inv s \<Longrightarrow> inv t"
proof (induction rule: reaches.induct)
  case (reaches_step s t u)
  then show ?case using step_inv [of t] by simp
qed

end

section \<open>Interface: two engines in lock step\<close>

text \<open>
  Two engines agree on every state that satisfies \<open>ok\<close>.  Runs of the two then agree as long
  as every state on the way satisfies \<open>ok\<close>; in particular for ever when \<open>ok\<close> is an invariant.
\<close>

locale lockstep =
  fixes step1 step2 :: "'s \<Rightarrow> 's outcome"
    and ok :: "'s \<Rightarrow> bool"
  assumes agree: "ok s \<Longrightarrow> step1 s = step2 s"
begin

lemma iterate_agree:
  assumes "\<And>k t. k < n \<Longrightarrow> iterate step1 k s = Running t \<Longrightarrow> ok t"
  shows "iterate step1 n s = iterate step2 n s"
  using assms
proof (induction n arbitrary: s)
  case 0
  then show ?case by simp
next
  case (Suc n)
  have "ok s" using Suc.prems [of 0 s] by simp
  then have eq: "step1 s = step2 s" by (rule agree)
  have "iterate step1 n t = iterate step2 n t" if "step1 s = Running t" for t
  proof (rule Suc.IH)
    fix k u assume "k < n" and "iterate step1 k t = Running u"
    with that show "ok u" using Suc.prems [of "Suc k" u] by simp
  qed
  with eq show ?case by (cases "step2 s") simp_all
qed

end

section \<open>Interface: an engine that does not see a part of its state\<close>

text \<open>
  A change of the state that commutes with a step commutes with runs of any length.
\<close>

locale unseen_by_step =
  fixes step :: "'s \<Rightarrow> 's outcome"
    and f :: "'s \<Rightarrow> 's"
  assumes step_unseen: "step (f s) = omap f (step s)"
begin

lemma iterate_unseen: "iterate step n (f s) = omap f (iterate step n s)"
proof (induction n arbitrary: s)
  case (Suc n)
  then show ?case by (cases "step s") (simp_all add: step_unseen)
qed simp

end

section \<open>Interface: a component driven by requests\<close>

text \<open>
  A component that serves requests one after the other.  Admissible requests keep its invariant,
  so every sequence of them does.
\<close>

locale op_system =
  fixes apply_op :: "'op \<Rightarrow> 's \<Rightarrow> 's"
    and inv :: "'s \<Rightarrow> bool"
    and admissible :: "'op \<Rightarrow> bool"
  assumes op_inv: "inv s \<Longrightarrow> admissible request \<Longrightarrow> inv (apply_op request s)"
begin

lemma fold_inv: "inv s \<Longrightarrow> list_all admissible requests \<Longrightarrow> inv (fold apply_op requests s)"
  by (induction requests arbitrary: s) (simp_all add: op_inv)

end

end
