(* ===== verification/Memory.thy ===== *)
theory Memory
  imports RV_Prelude "HOL-Library.Sublist"
begin

text \<open>
  Guest memory, \<^verbatim>\<open>lib/runtime/Memory.h\<close> and \<^verbatim>\<open>lib/runtime/Memory.cpp\<close>: the byte array with its
  typed reads and writes, the initial stack image (\<^verbatim>\<open>loadAux\<close>), the heap break and the allocator
  of the mmap arena.  The host is little-endian (the translator requires x86-64), so a typed
  access is the little-endian reading of its bytes.  An access that leaves the array is undefined
  behaviour in C++; it is \<open>None\<close> here.
\<close>

unbundle bit_operations_syntax

section \<open>Little-endian values\<close>

fun le_word :: "u8 list \<Rightarrow> 'a::len word" where
  "le_word [] = 0"
| "le_word (b # bs) = ucast b OR push_bit 8 (le_word bs)"

fun le_bytes :: "nat \<Rightarrow> 'a::len word \<Rightarrow> u8 list" where
  "le_bytes 0 w = []"
| "le_bytes (Suc n) w = ucast w # le_bytes n (drop_bit 8 w)"

section \<open>The memory object\<close>

definition DATA_SIZE :: u32 where "DATA_SIZE = 0x80000"
definition MMAP_SIZE :: u32 where "MMAP_SIZE = 0x80000"

text \<open>The number of bytes of the array \<^verbatim>\<open>data\<close>.\<close>

definition data_length :: nat where
  "data_length = unat (DATA_SIZE + MMAP_SIZE)"

record MappedArea =
  area_base :: u32
  area_size :: u32

record Memory =
  mem_data :: "u32 \<Rightarrow> u8"
  initialSP :: u32
  heapEnd :: u32
  heapBase :: u32
  pageSize :: u64
  mappedAreas :: "MappedArea list"

text \<open>The constructor; \<^verbatim>\<open>data\<close> is a static array and starts zeroed.\<close>

definition new_Memory :: Memory where
  "new_Memory = \<lparr>mem_data = (\<lambda>_. 0), initialSP = DATA_SIZE - 1, heapEnd = DATA_SIZE div 2,
     heapBase = DATA_SIZE div 2, pageSize = 4096, mappedAreas = []\<rparr>"

definition getSize :: u32 where "getSize = DATA_SIZE"

definition in_bounds :: "u32 \<Rightarrow> nat \<Rightarrow> bool" where
  "in_bounds a n \<longleftrightarrow> unat a + n \<le> data_length"

section \<open>Reads and writes\<close>

text \<open>The two \<^verbatim>\<open>memcpy\<close> calls of \<^verbatim>\<open>read<T>\<close> and \<^verbatim>\<open>write<T>\<close>, on bytes.\<close>

definition mem_read :: "Memory \<Rightarrow> u32 \<Rightarrow> nat \<Rightarrow> u8 list option" where
  "mem_read m a n =
     (if in_bounds a n then Some (map (\<lambda>i. mem_data m (a + of_nat i)) [0..<n]) else None)"

definition mem_write :: "Memory \<Rightarrow> u32 \<Rightarrow> u8 list \<Rightarrow> Memory option" where
  "mem_write m a bs =
     (if in_bounds a (length bs)
      then Some (m\<lparr>mem_data := (\<lambda>x. if unat a \<le> unat x \<and> unat x < unat a + length bs
                                    then bs ! (unat x - unat a) else mem_data m x)\<rparr>)
      else None)"

definition read_u8 :: "Memory \<Rightarrow> u32 \<Rightarrow> u8 option" where
  "read_u8 m a = map_option le_word (mem_read m a 1)"

definition read_u16 :: "Memory \<Rightarrow> u32 \<Rightarrow> u16 option" where
  "read_u16 m a = map_option le_word (mem_read m a 2)"

definition read_u32 :: "Memory \<Rightarrow> u32 \<Rightarrow> u32 option" where
  "read_u32 m a = map_option le_word (mem_read m a 4)"

text \<open>\<^verbatim>\<open>write<T>(address, value)\<close> converts \<^verbatim>\<open>value\<close> to \<^verbatim>\<open>T\<close> first.\<close>

definition write_u8 :: "Memory \<Rightarrow> u32 \<Rightarrow> u32 \<Rightarrow> Memory option" where
  "write_u8 m a v = mem_write m a (le_bytes 1 (ucast v :: u8))"

definition write_u16 :: "Memory \<Rightarrow> u32 \<Rightarrow> u32 \<Rightarrow> Memory option" where
  "write_u16 m a v = mem_write m a (le_bytes 2 (ucast v :: u16))"

definition write_u32 :: "Memory \<Rightarrow> u32 \<Rightarrow> u32 \<Rightarrow> Memory option" where
  "write_u32 m a v = mem_write m a (le_bytes 4 v)"

definition write_u64 :: "Memory \<Rightarrow> u32 \<Rightarrow> u64 \<Rightarrow> Memory option" where
  "write_u64 m a v = mem_write m a (le_bytes 8 v)"

text \<open>
  \<^verbatim>\<open>getGuestAddress(getHostAddress(a))\<close>: host addresses are offsets into \<^verbatim>\<open>data\<close>, truncated to
  32 bits on the way back.
\<close>

definition getHostAddress :: "u32 \<Rightarrow> int" where
  "getHostAddress guestAddress = uint guestAddress"

definition getGuestAddress :: "int \<Rightarrow> u32" where
  "getGuestAddress hostOffset = word_of_int hostOffset"

section \<open>Heap\<close>

definition pageAlignAddress :: "Memory \<Rightarrow> u64 \<Rightarrow> u64" where
  "pageAlignAddress m addr = (addr + (pageSize m - 1)) AND NOT (pageSize m - 1)"

definition initializeHeap :: "Memory \<Rightarrow> u32 \<Rightarrow> Memory" where
  "initializeHeap m base =
     (let base' = ucast (pageAlignAddress m (ucast base)) in m\<lparr>heapBase := base', heapEnd := base'\<rparr>)"

definition setHeapEnd :: "Memory \<Rightarrow> u32 \<Rightarrow> Memory" where
  "setHeapEnd m end_addr = m\<lparr>heapEnd := end_addr\<rparr>"

section \<open>The mmap arena\<close>

definition previousEnd :: "Memory \<Rightarrow> MappedArea \<Rightarrow> u32" where
  "previousEnd m area = ucast (pageAlignAddress m (ucast (area_base area + area_size area)))"

fun mmap_scan :: "Memory \<Rightarrow> u32 \<Rightarrow> MappedArea list \<Rightarrow> u32" where
  "mmap_scan m sz [] = ucast (pageAlignAddress m (ucast DATA_SIZE))"
| "mmap_scan m sz [area] = previousEnd m area"
| "mmap_scan m sz (area # area' # areas) =
     (if sz \<le> area_base area' - previousEnd m area then previousEnd m area
      else mmap_scan m sz (area' # areas))"

definition getMmapAddress :: "Memory \<Rightarrow> u32 \<Rightarrow> u32" where
  "getMmapAddress m sz = mmap_scan m sz (mappedAreas m)"

text \<open>
  The order in which \<^verbatim>\<open>std::ranges::sort\<close> leaves areas with equal bases is unspecified; here it is stable.  Under
  the arena invariant the bases are distinct.
\<close>

definition reserveMmapSpace :: "Memory \<Rightarrow> u32 \<Rightarrow> bool \<times> Memory" where
  "reserveMmapSpace m sz =
     (let addr = getMmapAddress m sz in
      if DATA_SIZE + MMAP_SIZE < addr + sz then (False, m)
      else (True, m\<lparr>mappedAreas :=
        sort_key area_base (mappedAreas m @ [\<lparr>area_base = addr, area_size = sz\<rparr>])\<rparr>))"

definition freeMmapSpace :: "Memory \<Rightarrow> u32 \<Rightarrow> u32 \<Rightarrow> bool \<times> Memory" where
  "freeMmapSpace m addr sz =
     (case find (\<lambda>area. area_base area = addr) (mappedAreas m) of
        None \<Rightarrow> (False, m)
      | Some area \<Rightarrow>
          if area_size area \<noteq> sz then (False, m)
          else (True, m\<lparr>mappedAreas := remove1 area (mappedAreas m)\<rparr>))"

section \<open>The initial stack\<close>

text \<open>A C string is the list of its characters before the terminating zero.\<close>

record Auxiliary =
  argc :: nat
  argv :: "u8 list list"
  envp :: "u8 list list"
  auxv :: "(u64 \<times> u64) list"

definition ptrStringSize :: "u8 list \<Rightarrow> u32" where
  "ptrStringSize s = of_nat (length s) + 1"

text \<open>The vector behind \<open>envp\<close> in the order the kernel laid it out, up to a pair of type 0.\<close>

fun getAuxValue :: "(u64 \<times> u64) list \<Rightarrow> u32 \<Rightarrow> u64" where
  "getAuxValue [] t = 0"
| "getAuxValue ((k, v) # rest) t =
     (if k = 0 then 0 else if k = ucast t then v else getAuxValue rest t)"

definition AT_NULL :: u32 where "AT_NULL = 0"
definition AT_PAGESZ :: u32 where "AT_PAGESZ = 6"

text \<open>The arguments that the loops over \<^verbatim>\<open>i < argc\<close> do not skip.\<close>

fun visible_args :: "bool \<Rightarrow> nat \<Rightarrow> u8 list list \<Rightarrow> u8 list list" where
  "visible_args skip i [] = []"
| "visible_args skip i (s # ss) =
     (if i = 1 \<and> skip then visible_args skip (Suc i) ss else s # visible_args skip (Suc i) ss)"

text \<open>One loop: a pointer at \<open>dataPtr\<close>, the string with its terminator at \<open>strPtr\<close>.\<close>

fun write_strings :: "Memory \<Rightarrow> u32 \<Rightarrow> u32 \<Rightarrow> u8 list list \<Rightarrow> (Memory \<times> u32 \<times> u32) option" where
  "write_strings m dataPtr strPtr [] = Some (m, dataPtr, strPtr)"
| "write_strings m dataPtr strPtr (s # ss) =
     (case write_u32 m dataPtr strPtr of
        None \<Rightarrow> None
      | Some m1 \<Rightarrow>
          (case mem_write m1 strPtr (s @ [0]) of
             None \<Rightarrow> None
           | Some m2 \<Rightarrow> write_strings m2 (dataPtr + 4) (strPtr + ptrStringSize s) ss))"

definition writeAuxValue :: "Memory \<Rightarrow> u32 \<Rightarrow> u32 \<Rightarrow> u32 \<Rightarrow> (Memory \<times> u32) option" where
  "writeAuxValue m t value addr =
     (case write_u32 m addr t of
        None \<Rightarrow> None
      | Some m1 \<Rightarrow> map_option (\<lambda>m2. (m2, 8)) (write_u32 m1 (addr + 4) value))"

definition aux_argsSize :: "u32 \<Rightarrow> nat \<Rightarrow> u32" where
  "aux_argsSize argc' envc =
     2 * 4 + argc' * 4 + of_nat envc * 4 + 4 + 8 + 8"

definition loadAux :: "Memory \<Rightarrow> Auxiliary \<Rightarrow> bool \<Rightarrow> Memory option" where
  "loadAux m aux skipSecondArg =
     (let argc' = of_nat (argc aux) - (if skipSecondArg then 1 else 0) :: u32;
          args = visible_args skipSecondArg 0 (take (argc aux) (argv aux));
          strSize = sum_list (map ptrStringSize args) + sum_list (map ptrStringSize (envp aux));
          argsSize = aux_argsSize argc' (length (envp aux));
          sp0 = getSize - argsSize - strSize;
          sp = sp0 - sp0 mod 2;
          m0 = m\<lparr>initialSP := sp\<rparr>
      in case write_u32 m0 sp argc' of None \<Rightarrow> None | Some m1 \<Rightarrow>
        (case write_strings m1 (sp + 4) (sp + argsSize) args of None \<Rightarrow> None | Some (m2, d2, p2) \<Rightarrow>
          (case write_strings m2 (d2 + 4) p2 (envp aux) of None \<Rightarrow> None | Some (m3, d3, p3) \<Rightarrow>
            (let m4 = m3\<lparr>pageSize := getAuxValue (auxv aux) AT_PAGESZ\<rparr>
             in case writeAuxValue m4 AT_PAGESZ (ucast (pageSize m4)) (d3 + 4) of None \<Rightarrow> None
              | Some (m5, n) \<Rightarrow>
                  map_option fst (writeAuxValue m5 AT_NULL (ucast (getAuxValue (auxv aux) AT_NULL)) (d3 + 4 + n))))))"

section \<open>Vocabulary of the properties\<close>

text \<open>Two address ranges share no byte.\<close>

definition disjoint_ranges :: "u32 \<Rightarrow> nat \<Rightarrow> u32 \<Rightarrow> nat \<Rightarrow> bool" where
  "disjoint_ranges a n b k \<longleftrightarrow> unat a + n \<le> unat b \<or> unat b + k \<le> unat a"

text \<open>The page size is a power of two that divides the arena, as on every Linux host.\<close>

definition page_ok :: "Memory \<Rightarrow> bool" where
  "page_ok m \<longleftrightarrow> pageSize m \<in> set (map (\<lambda>p. 2 ^ p) [0..<20])"

definition round_up :: "nat \<Rightarrow> nat \<Rightarrow> nat" where
  "round_up p x = (x + p - 1) div p * p"

text \<open>
  The arena invariant: every area is a non-empty, page-aligned block of the arena, and the list
  is ordered so that each area ends before the next begins.
\<close>

definition area_end :: "MappedArea \<Rightarrow> nat" where
  "area_end a = unat (area_base a) + unat (area_size a)"

definition area_ok :: "Memory \<Rightarrow> MappedArea \<Rightarrow> bool" where
  "area_ok m a \<longleftrightarrow> DATA_SIZE \<le> area_base a \<and> unat (pageSize m) dvd unat (area_base a)
     \<and> 0 < area_size a \<and> area_end a \<le> data_length"

definition area_before :: "MappedArea \<Rightarrow> MappedArea \<Rightarrow> bool" where
  "area_before a b \<longleftrightarrow> area_end a \<le> unat (area_base b)"

definition arena_ok :: "Memory \<Rightarrow> MappedArea list \<Rightarrow> bool" where
  "arena_ok m areas \<longleftrightarrow> page_ok m \<and> list_all (area_ok m) areas \<and> sorted_wrt area_before areas"

text \<open>The requests clients make of the arena, in any order.\<close>

datatype arena_op = Reserve u32 | Free u32 u32

fun arena_step :: "arena_op \<Rightarrow> Memory \<Rightarrow> Memory" where
  "arena_step (Reserve sz) m = snd (reserveMmapSpace m sz)"
| "arena_step (Free addr sz) m = snd (freeMmapSpace m addr sz)"

text \<open>
  Requests for at least one byte, for which \<^verbatim>\<open>address + size\<close> cannot wrap around 32 bits: no address the
  allocator picks is above \<^verbatim>\<open>0x100000\<close>.
\<close>

fun arena_request_ok :: "arena_op \<Rightarrow> bool" where
  "arena_request_ok (Reserve sz) \<longleftrightarrow> 0 < sz \<and> sz < 0xFFF00000"
| "arena_request_ok (Free addr sz) \<longleftrightarrow> True"

section \<open>Little-endian round trips\<close>

lemma length_le_bytes [simp]: "length (le_bytes n w) = n"
  by (induction n arbitrary: w) simp_all

lemma le_word_le_bytes: "le_word (le_bytes n w) = take_bit (8 * n) (w :: 'a::len word)" 
proof (induction n arbitrary: w)
  case (Suc n)
  show ?case
    by (rule bit_word_eqI) (auto simp: Suc bit_simps  not_less le_diff_conv2 less_diff_conv)
qed simp

lemma le_bytes_take_bit: "8 * n \<le> k \<Longrightarrow> le_bytes n (take_bit k w) = le_bytes n w"
proof (induction n arbitrary: w k)
  case (Suc n)
  have "ucast (take_bit k w) = (ucast w :: u8)"
    using Suc.prems by (intro bit_word_eqI) (auto simp: bit_simps)
  with Suc show ?case by (simp add: drop_bit_take_bit)
qed simp

lemma le_bytes_le_word:
  "length bs = n \<Longrightarrow> 8 * n \<le> LENGTH('a) \<Longrightarrow> le_bytes n (le_word bs :: 'a::len word) = bs"
proof (induction n arbitrary: bs)
  case (Suc n)
  then obtain b bs' where bs: "bs = b # bs'" "length bs' = n" by (cases bs) auto
  have "ucast (ucast b OR push_bit 8 (le_word bs') :: 'a word) = b"
    using Suc.prems(2) by (intro bit_word_eqI) (auto simp: bit_simps dest: bit_imp_le_length)
  moreover have "drop_bit 8 (ucast b OR push_bit 8 (le_word bs') :: 'a word) = take_bit (LENGTH('a) - 8) (le_word bs')"
    using Suc.prems(2) by (intro bit_word_eqI) (auto simp: bit_simps dest: bit_imp_le_length)
  moreover have "le_bytes n (take_bit (LENGTH('a) - 8) (le_word bs' :: 'a word)) = le_bytes n (le_word bs' :: 'a word)"
    using Suc.prems(2) by (intro le_bytes_take_bit) simp
  ultimately show ?case using Suc bs by simp
qed simp

section \<open>Interface: byte-addressed memory\<close>

text \<open>
  What the typed accessors need of the array: an access succeeds exactly on valid ranges, a read
  returns what was last written there, and a write elsewhere is not seen.  The typed laws follow
  once for every width.
\<close>

locale byte_memory =
  fixes fetch :: "'m \<Rightarrow> u32 \<Rightarrow> nat \<Rightarrow> u8 list option"
    and store :: "'m \<Rightarrow> u32 \<Rightarrow> u8 list \<Rightarrow> 'm option"
    and valid :: "u32 \<Rightarrow> nat \<Rightarrow> bool"
  assumes fetch_None: "fetch m a n = None \<longleftrightarrow> \<not> valid a n"
    and store_None: "store m a bs = None \<longleftrightarrow> \<not> valid a (length bs)"
    and fetch_store_same: "store m a bs = Some m' \<Longrightarrow> fetch m' a (length bs) = Some bs"
    and fetch_store_other: "store m a bs = Some m' \<Longrightarrow> disjoint_ranges a (length bs) b k \<Longrightarrow>
      fetch m' b k = fetch m b k"
begin

lemma typed_store_total: "valid a n \<longleftrightarrow> (\<exists>m'. store m a (le_bytes n w) = Some m')"
  using store_None [of m a "le_bytes n w"] by (auto simp: length_le_bytes)

lemma typed_load_store_same:
  assumes "store m a (le_bytes n (w :: 'a::len word)) = Some m'" and "8 * n = LENGTH('a)"
  shows "map_option le_word (fetch m' a n) = Some w"
  using fetch_store_same [OF assms(1)] assms(2) by (simp add: length_le_bytes le_word_le_bytes)

lemma typed_load_store_other:
  assumes "store m a (le_bytes n w) = Some m'" and "disjoint_ranges a n b k"
  shows "map_option le_word (fetch m' b k) = map_option le_word (fetch m b k)"
  using fetch_store_other [OF assms(1)] assms(2) by (simp add: length_le_bytes)

end

section \<open>Accesses\<close>

lemma data_length_eq: "data_length = 0x100000"
  by (simp add: data_length_def DATA_SIZE_def MMAP_SIZE_def)

lemma unat_add_in_bounds: "in_bounds a n \<Longrightarrow> i < n \<Longrightarrow> unat (a + of_nat i) = unat a + i"
  by (simp add: in_bounds_def data_length_eq unat_word_ariths unat_of_nat)

lemma length_mem_read: "mem_read m a n = Some bs \<Longrightarrow> length bs = n"
  by (auto simp: mem_read_def split: if_splits)

lemma mem_read_eq_None: "mem_read m a n = None \<longleftrightarrow> \<not> in_bounds a n"
  by (simp add: mem_read_def)

lemma mem_write_eq_None: "mem_write m a bs = None \<longleftrightarrow> \<not> in_bounds a (length bs)"
  by (simp add: mem_write_def)

lemma mem_read_write_same: "mem_write m a bs = Some m' \<Longrightarrow> mem_read m' a (length bs) = Some bs"
  by (auto simp: mem_write_def mem_read_def unat_add_in_bounds split: if_splits intro!: nth_equalityI)

lemma mem_read_write_other:
  "mem_write m a bs = Some m' \<Longrightarrow> disjoint_ranges a (length bs) b k \<Longrightarrow> mem_read m' b k = mem_read m b k"
  by (auto simp: mem_write_def mem_read_def unat_add_in_bounds disjoint_ranges_def split: if_splits)

lemma mem_write_frame:
  assumes "mem_write m a bs = Some m'"
  shows "initialSP m' = initialSP m" "heapEnd m' = heapEnd m" "heapBase m' = heapBase m"
    "pageSize m' = pageSize m" "mappedAreas m' = mappedAreas m"
  using assms by (auto simp: mem_write_def split: if_splits)

interpretation guest: byte_memory mem_read mem_write in_bounds
  by unfold_locales
    (auto simp: mem_read_eq_None mem_write_eq_None mem_read_write_same mem_read_write_other)

lemmas read_defs = read_u8_def read_u16_def read_u32_def
lemmas write_defs = write_u8_def write_u16_def write_u32_def write_u64_def

lemma write_frame:
  assumes "write_u8 m a v = Some m' \<or> write_u16 m a v = Some m' \<or> write_u32 m a v = Some m'"
  shows "initialSP m' = initialSP m" "heapEnd m' = heapEnd m" "heapBase m' = heapBase m"
    "pageSize m' = pageSize m" "mappedAreas m' = mappedAreas m"
  using assms by (auto simp: write_defs dest: mem_write_frame)

section \<open>Page alignment\<close>

lemma page_okE:
  assumes "page_ok m"
  obtains p where "p < 20" and "pageSize m = 2 ^ p" and "unat (pageSize m) = 2 ^ p"
proof -
  from assms obtain p where p: "p < 20" "pageSize m = 2 ^ p" by (auto simp: page_ok_def)
  moreover have "unat (pageSize m) = 2 ^ p"
  proof -
    have "(2::nat) ^ p < 2 ^ 64" using p(1) by (intro power_strict_increasing) simp_all
    moreover have "pageSize m = of_nat (2 ^ p)" using p by simp
    ultimately show ?thesis by (simp only: unat_of_nat) (simp add: take_bit_nat_eq_self_iff)
  qed
  ultimately show thesis by (rule that)
qed

lemma round_up_ge: "0 < p \<Longrightarrow> x \<le> round_up p x"
  unfolding round_up_def using div_mult_mod_eq[of "x+p-1" p] mod_less_divisor[of p "x+p-1"] by linarith

lemma round_up_dvd: "p dvd round_up p x"
  by (simp add: round_up_def)

lemma round_up_le: "0 < p \<Longrightarrow> p dvd y \<Longrightarrow> x \<le> y \<Longrightarrow> round_up p x \<le> y"
proof -
  assume p: "0 < p" and "p dvd y" and "x \<le> y"
  then obtain k where y: "y = p * k" by blast
  have "(x + p - 1) div p < k + 1"
    using p \<open>x \<le> y\<close> y by (simp add: div_less_iff_less_mult algebra_simps)
  then have "(x + p - 1) div p \<le> k" by simp
  then have "(x + p - 1) div p * p \<le> k * p" by (rule mult_le_mono1)
  then show ?thesis by (simp add: round_up_def y mult.commute)
qed

lemma u64_clear_low_bits: "y AND NOT (2 ^ p - 1) = push_bit p (drop_bit p (y :: u64))"
  by (rule bit_word_eqI) (auto simp: bit_simps simp flip: mask_eq_exp_minus_1)

lemma unat_pageAlign:
  assumes "page_ok m" and "unat x \<le> 2 ^ 32"
  shows "unat (pageAlignAddress m x) = round_up (unat (pageSize m)) (unat x)"
proof -
  from assms(1) obtain p where p: "p < 20" "pageSize m = 2 ^ p" "unat (pageSize m) = 2 ^ p"
    by (rule page_okE)
  have pl: "(2::nat) ^ p \<le> 2 ^ 20" using p(1) by (intro power_increasing) simp_all
  let ?y = "x + (2 ^ p - 1)"
  have "unat (2 ^ p - 1 :: u64) = 2 ^ p - 1"
    using p by (simp add: unat_sub word_le_nat_alt)
  then have y: "unat ?y = unat x + 2 ^ p - 1"
    using assms(2) pl by (simp add: unat_word_ariths)
  have t: "take_bit 64 (unat ?y) = unat ?y"
    using unsigned_less [of ?y] by (simp add: take_bit_nat_eq_self_iff)
  have "unat (push_bit p (drop_bit p ?y)) = take_bit 64 (unat ?y div 2 ^ p * 2 ^ p)"
    by (simp only: unsigned_push_bit_eq unsigned_drop_bit_eq)
      (simp add: push_bit_eq_mult drop_bit_eq_div t)
  also have "\<dots> = unat ?y div 2 ^ p * 2 ^ p"
  proof (rule take_bit_nat_eq_self)
    have "unat ?y div 2 ^ p * 2 ^ p \<le> unat ?y" by (rule div_times_less_eq_dividend)
    also have "\<dots> < 2 ^ 64" using y assms(2) pl by simp
    finally show "unat ?y div 2 ^ p * 2 ^ p < 2 ^ 64" .
  qed
  finally show ?thesis
    unfolding pageAlignAddress_def p(3) round_up_def unfolding p(2) u64_clear_low_bits
    by (simp add: y)
qed


section \<open>The mmap arena\<close>

lemma pageSize_pos: "page_ok m \<Longrightarrow> 0 < unat (pageSize m)"
  by (erule page_okE) simp

lemma pageSize_dvd: "page_ok m \<Longrightarrow> unat (pageSize m) dvd 0x80000" "page_ok m \<Longrightarrow> unat (pageSize m) dvd data_length"
proof -
  assume "page_ok m"
  then obtain p where p: "p < 20" "unat (pageSize m) = 2 ^ p" by (auto elim: page_okE)
  have "(2::nat) ^ p dvd 2 ^ 19" by (rule le_imp_power_dvd) (use p in simp)
  moreover have "(2::nat) ^ p dvd 2 ^ 20" by (rule le_imp_power_dvd) (use p in simp)
  ultimately show "unat (pageSize m) dvd 0x80000" "unat (pageSize m) dvd data_length" using p by (simp_all add: data_length_eq)
qed

lemma unat_previousEnd:
  assumes "page_ok m" "area_ok m a"
  shows "unat (previousEnd m a) = round_up (unat (pageSize m)) (area_end a)"
    and "area_end a \<le> unat (previousEnd m a)"
    and "unat (previousEnd m a) \<le> data_length"
    and "unat (pageSize m) dvd unat (previousEnd m a)"
proof -
  have e: "area_end a \<le> data_length" using assms(2) by (simp add: area_ok_def)
  have s: "unat (area_base a + area_size a) = area_end a"
    using e by (simp add: area_end_def data_length_eq unat_word_ariths)
  then have u: "unat (ucast (area_base a + area_size a) :: u64) = area_end a"
    using e by (simp add: unsigned_ucast_eq unsigned_take_bit_eq take_bit_nat_eq_self_iff data_length_eq)
  let ?r = "round_up (unat (pageSize m)) (area_end a)"
  have r: "?r \<le> data_length" using round_up_le [OF pageSize_pos [OF assms(1)] pageSize_dvd(2) [OF assms(1)] e] .
  have "unat (pageAlignAddress m (ucast (area_base a + area_size a))) = ?r"
    using unat_pageAlign [OF assms(1)] u e by (simp add: data_length_eq)
  then show *: "unat (previousEnd m a) = ?r"
    using r by (simp add: previousEnd_def unsigned_ucast_eq unsigned_take_bit_eq take_bit_nat_eq_self_iff data_length_eq)
  show "area_end a \<le> unat (previousEnd m a)" "unat (previousEnd m a) \<le> data_length" "unat (pageSize m) dvd unat (previousEnd m a)"
    unfolding * using r by (simp_all add: round_up_ge round_up_dvd pageSize_pos [OF assms(1)])
qed

lemma mmap_scan_Nil: "page_ok m \<Longrightarrow> mmap_scan m sz [] = DATA_SIZE"
proof -
  assume p: "page_ok m"
  have "round_up (unat (pageSize m)) 0x80000 = 0x80000"
    using round_up_le [OF pageSize_pos [OF p] pageSize_dvd(1) [OF p] order_refl]
      round_up_ge [OF pageSize_pos [OF p], of "0x80000"] by simp
  then have "unat (pageAlignAddress m (ucast DATA_SIZE)) = 0x80000"
    using unat_pageAlign [OF p, of "ucast DATA_SIZE"] by (simp add: DATA_SIZE_def)
  then have "unat (mmap_scan m sz []) = unat DATA_SIZE"
    by (simp add: unsigned_ucast_eq unsigned_take_bit_eq take_bit_nat_eq_self_iff DATA_SIZE_def)
  then show ?thesis by (simp only: word_unat_eq_iff)
qed

lemma mmap_scan_fresh:
  assumes "arena_ok m areas"
  shows "unat (pageSize m) dvd unat (mmap_scan m sz areas) \<and> DATA_SIZE \<le> mmap_scan m sz areas
    \<and> unat (mmap_scan m sz areas) \<le> data_length
    \<and> (areas \<noteq> [] \<longrightarrow> area_end (hd areas) \<le> unat (mmap_scan m sz areas))
    \<and> (\<forall>a\<in>set areas. area_end a \<le> unat (mmap_scan m sz areas)
          \<or> unat (mmap_scan m sz areas) + unat sz \<le> unat (area_base a))"
  using assms
proof (induction m sz areas rule: mmap_scan.induct)
  case (1 m sz)
  then show ?case
    using pageSize_dvd(1) [of m] by (simp add: arena_ok_def mmap_scan_Nil data_length_eq DATA_SIZE_def del: mmap_scan.simps)
next
  case (2 m sz a)
  then have ok: "page_ok m" "area_ok m a" by (simp_all add: arena_ok_def)
  have "unat DATA_SIZE \<le> area_end a" using ok(2) by (simp add: area_ok_def area_end_def word_le_nat_alt)
  with unat_previousEnd [OF ok] show ?case by (simp add: word_le_nat_alt)
next
  case (3 m sz a b areas)
  then have ok: "page_ok m" "area_ok m a" "area_ok m b" and tl: "arena_ok m (b # areas)"
    and ab: "\<forall>c\<in>set (b # areas). area_before a c"
    and bc: "\<forall>c\<in>set areas. area_before b c" by (auto simp: arena_ok_def)
  note pe = unat_previousEnd [OF ok(1,2)]
  have le: "unat (previousEnd m a) \<le> unat (area_base b)"
    using pe(1) round_up_le [OF pageSize_pos [OF ok(1)], of "unat (area_base b)" "area_end a"] ok(3) ab
    by (simp add: area_before_def area_ok_def)
  have base: "unat DATA_SIZE \<le> area_end a" using ok(2) by (simp add: area_ok_def area_end_def word_le_nat_alt)
  show ?case
  proof (cases "sz \<le> area_base b - previousEnd m a")
    case True
    then have fit: "unat (previousEnd m a) + unat sz \<le> unat (area_base b)"
      using le by (simp add: word_le_nat_alt unat_sub)
    have "unat (previousEnd m a) + unat sz \<le> unat (area_base c)" if "c \<in> set (b # areas)" for c
      using that bc fit by (auto simp: area_before_def area_end_def)
    with True pe base show ?thesis by (auto simp: word_le_nat_alt)
  next
    case False
    with 3(1) tl have IH: "unat (pageSize m) dvd unat (mmap_scan m sz (b # areas)) \<and> DATA_SIZE \<le> mmap_scan m sz (b # areas)
      \<and> unat (mmap_scan m sz (b # areas)) \<le> data_length
      \<and> area_end b \<le> unat (mmap_scan m sz (b # areas))
      \<and> (\<forall>a\<in>set (b # areas). area_end a \<le> unat (mmap_scan m sz (b # areas))
          \<or> unat (mmap_scan m sz (b # areas)) + unat sz \<le> unat (area_base a))" by simp
    moreover have "area_end a \<le> area_end b" using ab by (auto simp: area_before_def area_end_def)
    ultimately show ?thesis using False by (auto simp del: mmap_scan.simps simp: mmap_scan.simps(3))
  qed
qed


lemma area_ok_mappedAreas [simp]: "area_ok (m\<lparr>mappedAreas := as\<rparr>) = area_ok m" "page_ok (m\<lparr>mappedAreas := as\<rparr>) = page_ok m"
  by (simp_all add: area_ok_def page_ok_def fun_eq_iff)

lemma arena_ok_mappedAreas [simp]: "arena_ok (m\<lparr>mappedAreas := as\<rparr>) xs = arena_ok m xs"
  by (simp add: arena_ok_def)

lemma sorted_key_area_before:
  assumes "sorted (map area_base areas)" "distinct areas"
    and "\<And>a b. a \<in> set areas \<Longrightarrow> b \<in> set areas \<Longrightarrow> a \<noteq> b \<Longrightarrow> area_before a b \<or> area_before b a"
    and "\<And>a. a \<in> set areas \<Longrightarrow> 0 < area_size a"
  shows "sorted_wrt area_before areas"
  unfolding sorted_wrt_iff_nth_less
proof (intro allI impI)
  fix i j assume ij: "i < j" "j < length areas"
  let ?a = "areas ! i" and ?b = "areas ! j"
  have mem: "?a \<in> set areas" "?b \<in> set areas" using ij by auto
  have "?a \<noteq> ?b" using assms(2) ij by (simp add: nth_eq_iff_index_eq)
  moreover have "unat (area_base ?a) \<le> unat (area_base ?b)"
    using assms(1) ij by (simp add: sorted_iff_nth_mono_less word_le_nat_alt)
  moreover have "0 < unat (area_size ?b)" using assms(4) [OF mem(2)] by (simp add: word_less_nat_alt)
  ultimately show "area_before ?a ?b" using assms(3) [OF mem] by (auto simp: area_before_def area_end_def)
qed

lemma area_before_irrefl: "area_ok m a \<Longrightarrow> \<not> area_before a a"
  by (simp add: area_ok_def area_before_def area_end_def word_less_nat_alt)

lemma arena_ok_distinct: "arena_ok m areas \<Longrightarrow> distinct areas"
proof (induction areas)
  case (Cons a areas)
  then show ?case using area_before_irrefl [of m a] by (auto simp: arena_ok_def)
qed simp

lemma arena_ok_pairwise:
  "arena_ok m areas \<Longrightarrow> a \<in> set areas \<Longrightarrow> b \<in> set areas \<Longrightarrow> a \<noteq> b \<Longrightarrow> area_before a b \<or> area_before b a"
  by (induction areas) (auto simp: arena_ok_def)

lemma reserve_arena_ok:
  assumes ok: "arena_ok m (mappedAreas m)" and sz: "0 < sz"
    and fits: "unat (getMmapAddress m sz) + unat sz \<le> data_length"
  shows "fst (reserveMmapSpace m sz)"
    and "arena_ok m (mappedAreas (snd (reserveMmapSpace m sz)))"
proof -
  let ?addr = "getMmapAddress m sz" and ?new = "\<lparr>area_base = getMmapAddress m sz, area_size = sz\<rparr>"
  let ?as = "mappedAreas m @ [?new]"
  note fresh = mmap_scan_fresh [OF ok, of sz, folded getMmapAddress_def]
  have "unat (?addr + sz) = unat ?addr + unat sz"
    using fits by (simp add: data_length_eq unat_word_ariths)
  then have c: "\<not> DATA_SIZE + MMAP_SIZE < ?addr + sz"
    using fits by (simp add: word_less_nat_alt data_length_def)
  then show "fst (reserveMmapSpace m sz)" by (simp add: reserveMmapSpace_def Let_def)
  have new_ok: "area_ok m ?new"
    using fresh fits sz by (simp add: area_ok_def area_end_def)
  have disj: "area_before a ?new \<or> area_before ?new a" if "a \<in> set (mappedAreas m)" for a
    using fresh that by (auto simp: area_before_def area_end_def)
  have all_ok: "\<forall>a\<in>set ?as. area_ok m a" using ok new_ok by (auto simp: arena_ok_def list_all_iff)
  have "?new \<notin> set (mappedAreas m)" using disj [of ?new] area_before_irrefl [OF new_ok] by blast
  then have "sorted_wrt area_before (sort_key area_base ?as)"
    using arena_ok_distinct [OF ok] arena_ok_pairwise [OF ok] disj all_ok
    by (intro sorted_key_area_before) (auto simp: area_ok_def)
  then show "arena_ok m (mappedAreas (snd (reserveMmapSpace m sz)))"
    using ok all_ok c by (simp add: reserveMmapSpace_def Let_def arena_ok_def list_all_iff)
qed

lemma sorted_wrt_remove1: "sorted_wrt P xs \<Longrightarrow> sorted_wrt P (remove1 x xs)"
  by (induction xs) (auto dest: notin_set_remove1)

lemma free_arena_ok:
  assumes "arena_ok m (mappedAreas m)"
  shows "arena_ok m (mappedAreas (snd (freeMmapSpace m addr sz)))"
proof -
  have "sorted_wrt area_before (remove1 a (mappedAreas m))" for a
    using assms by (auto simp: arena_ok_def intro: sorted_wrt_remove1)
  then show ?thesis
    using assms notin_set_remove1
    by (auto simp: freeMmapSpace_def arena_ok_def list_all_iff split: option.splits)
qed

lemma arena_base_inj:
  assumes "arena_ok m areas" "a \<in> set areas" "b \<in> set areas" "area_base a = area_base b"
  shows "a = b"
proof (rule ccontr)
  assume "a \<noteq> b"
  with arena_ok_pairwise [OF assms(1-3)] have "area_before a b \<or> area_before b a" by blast
  moreover have "0 < unat (area_size a)" "0 < unat (area_size b)"
    using assms(1-3) by (auto simp: arena_ok_def list_all_iff area_ok_def word_less_nat_alt)
  ultimately show False using assms(4) by (auto simp: area_before_def area_end_def)
qed

lemma find_base:
  assumes "arena_ok m areas" "a \<in> set areas"
  shows "find (\<lambda>x. area_base x = area_base a) areas = Some a"
proof -
  obtain b where b: "find (\<lambda>x. area_base x = area_base a) areas = Some b"
    using assms(2) by (fastforce simp: find_None_iff)
  then have "b \<in> set areas" "area_base b = area_base a" by (auto simp: find_Some_iff)
  then have "b = a" using arena_base_inj [OF assms(1)] assms(2) by blast
  with b show ?thesis by simp
qed

lemma arena_sorted_bases:
  "arena_ok m areas \<Longrightarrow> sorted (map area_base areas) \<and> distinct (map area_base areas)"
proof (induction areas)
  case (Cons a areas)
  then have "area_base a < area_base b" if "b \<in> set areas" for b
    using that by (auto simp: arena_ok_def area_ok_def area_before_def area_end_def word_less_nat_alt list_all_iff)
  with Cons show ?case by (fastforce simp: arena_ok_def)
qed simp

lemma arena_same_set: "arena_ok m xs \<Longrightarrow> arena_ok m ys \<Longrightarrow> set xs = set ys \<Longrightarrow> xs = ys"
  by (rule map_sorted_distinct_set_unique [where f = area_base])
    (auto simp: arena_sorted_bases inj_on_def intro: arena_base_inj)

lemma free_reserve:
  assumes ok: "arena_ok m (mappedAreas m)" and sz: "0 < sz"
    and fits: "unat (getMmapAddress m sz) + unat sz \<le> data_length"
  shows "freeMmapSpace (snd (reserveMmapSpace m sz)) (getMmapAddress m sz) sz = (True, m)"
proof -
  let ?new = "\<lparr>area_base = getMmapAddress m sz, area_size = sz\<rparr>" and ?m = "snd (reserveMmapSpace m sz)"
  note r = reserve_arena_ok [OF assms]
  have areas: "?m = m\<lparr>mappedAreas := sort_key area_base (mappedAreas m @ [?new])\<rparr>"
    using r(1) by (auto simp: reserveMmapSpace_def Let_def split: if_splits)
  have set: "set (mappedAreas ?m) = insert ?new (set (mappedAreas m))" by (simp add: areas)
  have find: "find (\<lambda>x. area_base x = getMmapAddress m sz) (mappedAreas ?m) = Some ?new"
    using find_base [OF r(2), of ?new] set by simp
  have new: "?new \<notin> set (mappedAreas m)"
    using arena_ok_distinct [OF r(2)] by (simp add: areas)
  have "remove1 ?new (mappedAreas ?m) = mappedAreas m"
  proof (rule arena_same_set [of m])
    show "arena_ok m (remove1 ?new (mappedAreas ?m))"
      using r(2) notin_set_remove1 by (auto simp: arena_ok_def list_all_iff intro: sorted_wrt_remove1)
    show "set (remove1 ?new (mappedAreas ?m)) = set (mappedAreas m)"
      using arena_ok_distinct [OF r(2)] set new by (simp add: set_remove1_eq)
  qed (rule ok)
  with find show ?thesis by (simp add: freeMmapSpace_def areas)
qed

lemma reserve_accepts_iff:
  assumes "arena_ok m (mappedAreas m)" and "sz < 0xFFF00000"
  shows "fst (reserveMmapSpace m sz) \<longleftrightarrow> unat (getMmapAddress m sz) + unat sz \<le> data_length"
proof -
  have "unat (getMmapAddress m sz) \<le> data_length"
    using mmap_scan_fresh [OF assms(1), of sz] by (simp add: getMmapAddress_def)
  moreover have "unat sz < 0xFFF00000" using assms(2) by (simp add: word_less_nat_alt)
  ultimately have "unat (getMmapAddress m sz + sz) = unat (getMmapAddress m sz) + unat sz"
    by (simp add: data_length_eq unat_word_ariths)
  then show ?thesis
    by (auto simp: reserveMmapSpace_def Let_def word_less_nat_alt data_length_def)
qed

lemma arena_step_ok:
  assumes "arena_ok m (mappedAreas m)" and "arena_request_ok request"
  shows "arena_ok (arena_step request m) (mappedAreas (arena_step request m))"
proof (cases request)
  case (Reserve sz)
  let ?m = "snd (reserveMmapSpace m sz)"
  have same: "arena_ok ?m = arena_ok m" by (auto simp: reserveMmapSpace_def Let_def fun_eq_iff)
  show ?thesis
  proof (cases "fst (reserveMmapSpace m sz)")
    case True
    with assms Reserve have "unat (getMmapAddress m sz) + unat sz \<le> data_length"
      by (simp add: reserve_accepts_iff)
    then show ?thesis using reserve_arena_ok [OF assms(1)] assms(2) Reserve same by simp
  next
    case False
    then have "?m = m" by (simp add: reserveMmapSpace_def Let_def split: if_splits)
    with assms Reserve show ?thesis by simp
  qed
next
  case (Free addr sz)
  have "arena_ok (snd (freeMmapSpace m addr sz)) = arena_ok m"
    by (auto simp: freeMmapSpace_def fun_eq_iff split: option.splits)
  then show ?thesis using free_arena_ok [OF assms(1)] Free by simp
qed

interpretation arena: op_system arena_step "\<lambda>m. arena_ok m (mappedAreas m)" arena_request_ok
  by unfold_locales (rule arena_step_ok)

section \<open>Properties\<close>

text \<open>C21: A typed write followed by a read of the same width at the same address returns the
  value written, truncated to the width, whatever the width; and a read of any of the three widths from bytes
  that were not written is not affected.\<close>

theorem typed_read_write:
  "(write_u32 m a v = Some m' \<longrightarrow> read_u32 m' a = Some v \<and>
      (disjoint_ranges a 4 b 4 \<longrightarrow> read_u32 m' b = read_u32 m b) \<and>
      (disjoint_ranges a 4 b 2 \<longrightarrow> read_u16 m' b = read_u16 m b) \<and>
      (disjoint_ranges a 4 b 1 \<longrightarrow> read_u8 m' b = read_u8 m b)) \<and>
   (write_u16 m a v = Some m' \<longrightarrow> read_u16 m' a = Some (ucast v) \<and>
      (disjoint_ranges a 2 b 4 \<longrightarrow> read_u32 m' b = read_u32 m b) \<and>
      (disjoint_ranges a 2 b 2 \<longrightarrow> read_u16 m' b = read_u16 m b) \<and>
      (disjoint_ranges a 2 b 1 \<longrightarrow> read_u8 m' b = read_u8 m b)) \<and>
   (write_u8 m a v = Some m' \<longrightarrow> read_u8 m' a = Some (ucast v) \<and>
      (disjoint_ranges a 1 b 4 \<longrightarrow> read_u32 m' b = read_u32 m b) \<and>
      (disjoint_ranges a 1 b 2 \<longrightarrow> read_u16 m' b = read_u16 m b) \<and>
      (disjoint_ranges a 1 b 1 \<longrightarrow> read_u8 m' b = read_u8 m b))"
  unfolding write_defs read_defs
  by (intro conjI impI; (erule guest.typed_load_store_same, simp | erule (1) guest.typed_load_store_other))

theorem typed_read_write_witness:
  "read_u32 (the (write_u32 new_Memory 0x100 0xCAFEBABE)) 0x100 = Some 0xCAFEBABE"
proof -
  have "in_bounds 0x100 4" by (simp add: in_bounds_def data_length_eq)
  then obtain m' where m': "write_u32 new_Memory 0x100 0xCAFEBABE = Some m'"
    using mem_write_eq_None [of new_Memory "0x100" "le_bytes 4 (0xCAFEBABE :: u32)"]
    by (auto simp: write_u32_def)
  then show ?thesis using typed_read_write [of new_Memory "0x100" "0xCAFEBABE" m' 0] by simp
qed



text \<open>C20: Whatever requests clients make, in any order, the areas stay non-empty page-aligned blocks of the
  arena that do not overlap, as long as every requested size is at least 1 and below \<^verbatim>\<open>0xFFF00000\<close> (so that
  \<^verbatim>\<open>address + size\<close> does not wrap around); and unmapping what was just mapped restores the allocator exactly.\<close>

theorem arena_invariant:
  assumes "arena_ok m (mappedAreas m)" and "list_all arena_request_ok requests"
  shows "arena_ok (fold arena_step requests m) (mappedAreas (fold arena_step requests m))
    \<and> (0 < sz \<and> sz < 0xFFF00000 \<and> fst (reserveMmapSpace m sz) \<longrightarrow>
         freeMmapSpace (snd (reserveMmapSpace m sz)) (getMmapAddress m sz) sz = (True, m))"
  using arena.fold_inv [OF assms] free_reserve [OF assms(1), of sz]
    reserve_accepts_iff [OF assms(1), of sz] by blast

theorem arena_invariant_witness:
  "arena_ok (fold arena_step [Reserve 0x1800, Reserve 0x10, Free 0x80000 0x1800] new_Memory)
     (mappedAreas (fold arena_step [Reserve 0x1800, Reserve 0x10, Free 0x80000 0x1800] new_Memory))
   \<and> freeMmapSpace (snd (reserveMmapSpace new_Memory 0x2000)) 0x80000 0x2000 = (True, new_Memory)"
proof -
  have ok: "arena_ok new_Memory (mappedAreas new_Memory)" by code_simp
  have "getMmapAddress new_Memory 0x2000 = 0x80000" and "fst (reserveMmapSpace new_Memory 0x2000)"
    by code_simp+
  then show ?thesis
    using arena_invariant [OF ok, of "[Reserve 0x1800, Reserve 0x10, Free 0x80000 0x1800]" "0x2000"]
    by simp
qed

text \<open>The bounds check of the allocator is computed in 32 bits and wraps around: a request
  for nearly the whole address space is accepted and recorded, although it does not fit.\<close>

theorem reserveMmapSpace_wraps:
  "fst (reserveMmapSpace new_Memory 0xFFFFF000) \<and>
   \<not> arena_ok new_Memory (mappedAreas (snd (reserveMmapSpace new_Memory 0xFFFFF000)))"
proof -
  have "getMmapAddress new_Memory 0xFFFFF000 = 0x80000" by code_simp
  then have "reserveMmapSpace new_Memory 0xFFFFF000 =
      (True, new_Memory\<lparr>mappedAreas := [\<lparr>area_base = 0x80000, area_size = 0xFFFFF000\<rparr>]\<rparr>)"
    by (simp add: reserveMmapSpace_def DATA_SIZE_def MMAP_SIZE_def new_Memory_def)
  then show ?thesis by (simp add: arena_ok_def area_ok_def area_end_def data_length_eq)
qed

text \<open>Empty areas, which a host that rejects empty mappings never lets the allocator reserve, would break it: the gap
  between two areas with the same base is computed in 32 bits and wraps around, and the block after them is handed
  out twice.\<close>

theorem empty_areas_overlap:
  "drop 3 (mappedAreas (fold arena_step [Reserve 0, Reserve 0x1000, Reserve 0, Reserve 0x1000, Reserve 0x1000] new_Memory))
    = [\<lparr>area_base = 0x81000, area_size = 0x1000\<rparr>, \<lparr>area_base = 0x81000, area_size = 0x1000\<rparr>]"
  by code_simp

end
