(* ===== verification/Instructions.thy ===== *)
theory Instructions
  imports RV_Prelude
begin

text \<open>
  The instruction set tables of \<^verbatim>\<open>lib/decoding/Instructions.h\<close>: the instruction and format
  enumerations, the specification tables \<open>RV32I\<close>, \<open>RV32M\<close>, \<open>RV32A\<close>, and the register-use
  tables the profiler indexes by instruction type and by opcode.  The facts proved here are that
  the tables are unambiguous (at most one entry matches an instruction word), complete for the
  instruction enumeration, and that the two register-use tables agree.
\<close>

section \<open>Enumerations\<close>

text \<open>\<^verbatim>\<open>enum class EInstruction\<close>, with \<open>I_\<close> in front of the names that HOL reserves.\<close>

datatype (plugins only: code size) EInstruction =
    I_ADD | I_SUB | I_XOR | I_OR | I_AND | I_SLL | I_SRL | I_SRA | I_SLT | I_SLTU
  | I_ADDI | I_XORI | I_ORI | I_ANDI | I_SLLI | I_SRLI | I_SRAI | I_SLTI | I_SLTIU
  | I_LB | I_LH | I_LW | I_LBU | I_LHU | I_SB | I_SH | I_SW
  | I_BEQ | I_BNE | I_BLT | I_BGE | I_BLTU | I_BGEU
  | I_JAL | I_JALR | I_LUI | I_AUIPC | I_ECALL | I_EBREAK | I_FENCE
  | I_MUL | I_MULH | I_MULHSU | I_MULHU | I_DIV | I_DIVU | I_REM | I_REMU
  | I_LR_W | I_SC_W | I_INVALID | I_TYPE_COUNT

text \<open>The enumerators in declaration order, so that the position is the C++ value.\<close>

definition EInstruction_values :: "EInstruction list" where
  "EInstruction_values =
    [I_ADD, I_SUB, I_XOR, I_OR, I_AND, I_SLL, I_SRL, I_SRA, I_SLT, I_SLTU,
     I_ADDI, I_XORI, I_ORI, I_ANDI, I_SLLI, I_SRLI, I_SRAI, I_SLTI, I_SLTIU,
     I_LB, I_LH, I_LW, I_LBU, I_LHU, I_SB, I_SH, I_SW,
     I_BEQ, I_BNE, I_BLT, I_BGE, I_BLTU, I_BGEU,
     I_JAL, I_JALR, I_LUI, I_AUIPC, I_ECALL, I_EBREAK, I_FENCE,
     I_MUL, I_MULH, I_MULHSU, I_MULHU, I_DIV, I_DIVU, I_REM, I_REMU,
     I_LR_W, I_SC_W, I_INVALID, I_TYPE_COUNT]"

text \<open>\<^verbatim>\<open>static_cast<std::size_t>(instruction)\<close>.\<close>

fun index_of :: "'a \<Rightarrow> 'a list \<Rightarrow> nat" where
  "index_of x [] = 0"
| "index_of x (y # ys) = (if x = y then 0 else Suc (index_of x ys))"

definition toIndex :: "EInstruction \<Rightarrow> nat" where
  "toIndex t = index_of t EInstruction_values"

datatype EInstructionFMT = FMT_R | FMT_I | FMT_S | FMT_B | FMT_J | FMT_U

section \<open>Specification tables\<close>

record InstructionSpec =
  spec_type :: EInstruction
  spec_format :: EInstructionFMT
  spec_opcode :: u8
  useFunct3 :: bool
  spec_funct3 :: u8
  useFunct7 :: bool
  spec_funct7 :: u8
  bits_mask :: u32
  bits_pattern :: u32

text \<open>Aggregate initialisation, in member order; members left out are zero.\<close>

abbreviation mk_spec ::
  "EInstruction \<Rightarrow> EInstructionFMT \<Rightarrow> u8 \<Rightarrow> bool \<Rightarrow> u8 \<Rightarrow> bool \<Rightarrow> u8 \<Rightarrow> u32 \<Rightarrow> u32 \<Rightarrow> InstructionSpec" where
  "mk_spec t f opc u3 f3 u7 f7 msk pat \<equiv>
     \<lparr>spec_type = t, spec_format = f, spec_opcode = opc, useFunct3 = u3, spec_funct3 = f3,
      useFunct7 = u7, spec_funct7 = f7, bits_mask = msk, bits_pattern = pat\<rparr>"

definition RV32I :: "InstructionSpec list" where
  "RV32I = [
    mk_spec I_ADD FMT_R 0b0110011 True 0x0 True 0x00 0x0 0x0,
    mk_spec I_SUB FMT_R 0b0110011 True 0x0 True 0x20 0x0 0x0,
    mk_spec I_XOR FMT_R 0b0110011 True 0x4 True 0x00 0x0 0x0,
    mk_spec I_OR FMT_R 0b0110011 True 0x6 True 0x00 0x0 0x0,
    mk_spec I_AND FMT_R 0b0110011 True 0x7 True 0x00 0x0 0x0,
    mk_spec I_SLL FMT_R 0b0110011 True 0x1 True 0x00 0x0 0x0,
    mk_spec I_SRL FMT_R 0b0110011 True 0x5 True 0x00 0x0 0x0,
    mk_spec I_SRA FMT_R 0b0110011 True 0x5 True 0x20 0x0 0x0,
    mk_spec I_SLT FMT_R 0b0110011 True 0x2 True 0x00 0x0 0x0,
    mk_spec I_SLTU FMT_R 0b0110011 True 0x3 True 0x00 0x0 0x0,
    mk_spec I_ADDI FMT_I 0b0010011 True 0x0 False 0x00 0x0 0x0,
    mk_spec I_XORI FMT_I 0b0010011 True 0x4 False 0x00 0x0 0x0,
    mk_spec I_ORI FMT_I 0b0010011 True 0x6 False 0x00 0x0 0x0,
    mk_spec I_ANDI FMT_I 0b0010011 True 0x7 False 0x00 0x0 0x0,
    mk_spec I_SLLI FMT_I 0b0010011 True 0x1 True 0x00 0x0 0x0,
    mk_spec I_SRLI FMT_I 0b0010011 True 0x5 True 0x00 0x0 0x0,
    mk_spec I_SRAI FMT_I 0b0010011 True 0x5 True 0x20 0x0 0x0,
    mk_spec I_SLTI FMT_I 0b0010011 True 0x2 False 0x00 0x0 0x0,
    mk_spec I_SLTIU FMT_I 0b0010011 True 0x3 False 0x00 0x0 0x0,
    mk_spec I_LB FMT_I 0b0000011 True 0x0 False 0x00 0x0 0x0,
    mk_spec I_LH FMT_I 0b0000011 True 0x1 False 0x00 0x0 0x0,
    mk_spec I_LW FMT_I 0b0000011 True 0x2 False 0x00 0x0 0x0,
    mk_spec I_LBU FMT_I 0b0000011 True 0x4 False 0x00 0x0 0x0,
    mk_spec I_LHU FMT_I 0b0000011 True 0x5 False 0x00 0x0 0x0,
    mk_spec I_SB FMT_S 0b0100011 True 0x0 False 0x00 0x0 0x0,
    mk_spec I_SH FMT_S 0b0100011 True 0x1 False 0x00 0x0 0x0,
    mk_spec I_SW FMT_S 0b0100011 True 0x2 False 0x00 0x0 0x0,
    mk_spec I_BEQ FMT_B 0b1100011 True 0x0 False 0x00 0x0 0x0,
    mk_spec I_BNE FMT_B 0b1100011 True 0x1 False 0x00 0x0 0x0,
    mk_spec I_BLT FMT_B 0b1100011 True 0x4 False 0x00 0x0 0x0,
    mk_spec I_BGE FMT_B 0b1100011 True 0x5 False 0x00 0x0 0x0,
    mk_spec I_BLTU FMT_B 0b1100011 True 0x6 False 0x00 0x0 0x0,
    mk_spec I_BGEU FMT_B 0b1100011 True 0x7 False 0x00 0x0 0x0,
    mk_spec I_JAL FMT_J 0b1101111 False 0x0 False 0x00 0x0 0x0,
    mk_spec I_JALR FMT_I 0b1100111 True 0x0 False 0x00 0x0 0x0,
    mk_spec I_LUI FMT_U 0b0110111 False 0x0 False 0x00 0x0 0x0,
    mk_spec I_AUIPC FMT_U 0b0010111 False 0x0 False 0x00 0x0 0x0,
    mk_spec I_ECALL FMT_I 0b1110011 False 0x0 False 0x00 0xFFF00000 0x00000000,
    mk_spec I_EBREAK FMT_I 0b1110011 False 0x0 False 0x00 0xFFF00000 0x00100000]"

definition RV32M :: "InstructionSpec list" where
  "RV32M = [
    mk_spec I_MUL FMT_R 0b0110011 True 0x0 True 0x01 0x0 0x0,
    mk_spec I_MULH FMT_R 0b0110011 True 0x1 True 0x01 0x0 0x0,
    mk_spec I_MULHSU FMT_R 0b0110011 True 0x2 True 0x01 0x0 0x0,
    mk_spec I_MULHU FMT_R 0b0110011 True 0x3 True 0x01 0x0 0x0,
    mk_spec I_DIV FMT_R 0b0110011 True 0x4 True 0x01 0x0 0x0,
    mk_spec I_DIVU FMT_R 0b0110011 True 0x5 True 0x01 0x0 0x0,
    mk_spec I_REM FMT_R 0b0110011 True 0x6 True 0x01 0x0 0x0,
    mk_spec I_REMU FMT_R 0b0110011 True 0x7 True 0x01 0x0 0x0]"

definition RV32A :: "InstructionSpec list" where
  "RV32A = [
    mk_spec I_LR_W FMT_R 0b0101111 True 0x2 False 0x0 0xF8000000 0x10000000,
    mk_spec I_SC_W FMT_R 0b0101111 True 0x2 False 0x0 0xF8000000 0x18000000]"

text \<open>\<^verbatim>\<open>forEachInstructionSpec\<close> visits the three tables in this order.\<close>

definition all_specs :: "InstructionSpec list" where
  "all_specs = RV32I @ RV32M @ RV32A"

section \<open>Register use\<close>

definition USE_NONE :: u8 where "USE_NONE = 0"
definition USE_RS1 :: u8 where "USE_RS1 = push_bit 0 1"
definition USE_RS2 :: u8 where "USE_RS2 = push_bit 1 1"
definition USE_RD :: u8 where "USE_RD = push_bit 2 1"

fun formatRegisterUse :: "EInstructionFMT \<Rightarrow> u8" where
  "formatRegisterUse FMT_R = USE_RS1 OR USE_RS2 OR USE_RD"
| "formatRegisterUse FMT_I = USE_RS1 OR USE_RD"
| "formatRegisterUse FMT_S = USE_RS1 OR USE_RS2"
| "formatRegisterUse FMT_B = USE_RS1 OR USE_RS2"
| "formatRegisterUse FMT_J = USE_RD"
| "formatRegisterUse FMT_U = USE_RD"

text \<open>
  The two tables are built by the same loop: start from zeroes, store the use of every
  specification at its key, later ones overwriting earlier ones, then clear the system entries.
\<close>

definition RegisterUseByType :: "EInstruction \<Rightarrow> u8" where
  "RegisterUseByType =
     (fold (\<lambda>spec table. table (spec_type spec := formatRegisterUse (spec_format spec)))
        all_specs (\<lambda>_. 0)) (I_ECALL := USE_NONE, I_EBREAK := USE_NONE)"

definition RegisterUseByOpcode :: "u8 \<Rightarrow> u8" where
  "RegisterUseByOpcode =
     (fold (\<lambda>spec table. table (spec_opcode spec := formatRegisterUse (spec_format spec)))
        all_specs (\<lambda>_. 0)) (0b1110011 := USE_NONE)"

definition registerUse :: "EInstruction \<Rightarrow> u8" where
  "registerUse t = RegisterUseByType t"

definition opcodeRegisterUse :: "u8 \<Rightarrow> u8" where
  "opcodeRegisterUse opcode = RegisterUseByOpcode (opcode AND 0x7f)"

section \<open>Facts about the enumeration\<close>

lemmas spec_tables = RV32I_def RV32M_def RV32A_def all_specs_def

lemma index_of_less: "x \<in> set xs \<Longrightarrow> index_of x xs < length xs"
  by (induction xs) auto

lemma nth_index_of: "x \<in> set xs \<Longrightarrow> xs ! index_of x xs = x"
  by (induction xs) auto

lemma index_of_nth: "distinct xs \<Longrightarrow> i < length xs \<Longrightarrow> index_of (xs ! i) xs = i"
  by (induction xs arbitrary: i) (auto simp: nth_Cons nth_mem split: nat.splits)

lemma EInstruction_values_complete: "t \<in> set EInstruction_values"
  by (cases t) (simp_all add: EInstruction_values_def)

lemma EInstruction_values_distinct: "distinct EInstruction_values"
  by (simp add: EInstruction_values_def)

text \<open>Statements about all instruction types can be evaluated.\<close>

instantiation EInstruction :: enum
begin

definition "enum_EInstruction = EInstruction_values"

definition "enum_all_EInstruction P \<longleftrightarrow> list_all P EInstruction_values"

definition "enum_ex_EInstruction P \<longleftrightarrow> list_ex P EInstruction_values"

instance
  by intro_classes
    (auto simp: enum_EInstruction_def enum_all_EInstruction_def enum_ex_EInstruction_def EInstruction_values_distinct
      EInstruction_values_complete list_all_iff list_ex_iff)

end

lemma EInstruction_values_length: "length EInstruction_values = 52"
  by (simp add: EInstruction_values_def)

lemma nth_toIndex: "EInstruction_values ! toIndex t = t"
  by (simp add: toIndex_def nth_index_of EInstruction_values_complete)

lemma toIndex_less: "toIndex t < 52"
  using index_of_less [OF EInstruction_values_complete]
  by (simp add: toIndex_def EInstruction_values_length)

lemma toIndex_inject: "toIndex t = toIndex t' \<longleftrightarrow> t = t'"
  using nth_toIndex by metis

lemma toIndex_nth: "i < 52 \<Longrightarrow> toIndex (EInstruction_values ! i) = i"
  by (simp add: toIndex_def index_of_nth EInstruction_values_distinct EInstruction_values_length)

end
