(* ===== verification/Decoder.thy ===== *)
theory Decoder
  imports Instructions
begin

text \<open>
  The instruction decoder, \<^verbatim>\<open>lib/decoding/Decoder.h\<close> and \<^verbatim>\<open>lib/decoding/Decoder.cpp\<close>: field
  extraction, the immediates of the five formats, and \<open>decode\<close>, a linear search through the
  specification tables.  Proved here: the value of every field and immediate as an arithmetic
  function of the word, that the search order does not matter because the tables are unambiguous,
  that decoding inverts the encodings of the RISC-V manual, stated independently of the tables, and what is left over
  is invalid.
\<close>

section \<open>Decoded instructions\<close>

text \<open>
  The code addresses that the threaded interpreter stores in \<^verbatim>\<open>Instruction::handler\<close>; each is a
  label of \<^verbatim>\<open>runInstructionsThreaded\<close>.
\<close>

datatype (plugins only: code size) label =
    L_ADD | L_SUB | L_XOR | L_OR | L_AND | L_SLL | L_SRL | L_SRA | L_SLT | L_SLTU
  | L_ADDI | L_XORI | L_ORI | L_ANDI | L_SLLI | L_SRLI | L_SRAI | L_SLTI | L_SLTIU
  | L_LB | L_LH | L_LW | L_LBU | L_LHU | L_SB | L_SH | L_SW
  | L_BEQ | L_BNE | L_BLT | L_BGE | L_BLTU | L_BGEU
  | L_JAL | L_JALR | L_LUI | L_AUIPC | L_ECALL
  | L_MUL | L_MULH | L_MULHSU | L_MULHU | L_DIV | L_DIVU | L_REM | L_REMU
  | L_LR_W | L_SC_W | L_INVALID

record Instruction =
  itype :: EInstruction
  instruction :: u32
  immediate :: i32
  address :: u32
  rs1 :: u8
  rs2 :: u8
  rd :: u8
  handler :: "label option"

text \<open>\<^verbatim>\<open>Instruction{}\<close> with only the type set, the rest zero.\<close>

definition blank_instruction :: "EInstruction \<Rightarrow> Instruction" where
  "blank_instruction t = \<lparr>itype = t, instruction = 0, immediate = 0, address = 0,
     rs1 = 0, rs2 = 0, rd = 0, handler = None\<rparr>"

section \<open>Fields\<close>

definition getFunct3 :: "u32 \<Rightarrow> u8" where
  "getFunct3 i = ucast (drop_bit 12 i AND 0x7)"

definition getFunct5 :: "u32 \<Rightarrow> u8" where
  "getFunct5 i = ucast (drop_bit 27 i AND 0x1f)"

definition getFunct7 :: "u32 \<Rightarrow> u8" where
  "getFunct7 i = ucast (drop_bit 25 i AND 0x7f)"

definition getOpcode :: "u32 \<Rightarrow> u8" where
  "getOpcode i = ucast (i AND 0x7f)"

definition getRS1 :: "u32 \<Rightarrow> u8" where
  "getRS1 i = ucast (drop_bit 15 i AND 0x1f)"

definition getRS2 :: "u32 \<Rightarrow> u8" where
  "getRS2 i = ucast (drop_bit 20 i AND 0x1f)"

definition getRD :: "u32 \<Rightarrow> u8" where
  "getRD i = ucast (drop_bit 7 i AND 0x1f)"

section \<open>Immediates\<close>

definition I_FMT_imm :: "u32 \<Rightarrow> i32" where
  "I_FMT_imm i = signed_drop_bit 20 (i AND 0xFFF00000)"

definition S_FMT_imm :: "u32 \<Rightarrow> i32" where
  "S_FMT_imm i =
     (let imm = (drop_bit 7 i AND 0x1f) OR push_bit 5 (drop_bit 25 i AND 0x7f)
      in if imm AND 0x800 \<noteq> 0 then imm OR 0xfffff000 else imm)"

definition B_FMT_imm :: "u32 \<Rightarrow> i32" where
  "B_FMT_imm i =
     (let imm = push_bit 12 (drop_bit 31 i AND 0x1)
             OR push_bit 11 (drop_bit 7 i AND 0x1)
             OR push_bit 5 (drop_bit 25 i AND 0x3F)
             OR push_bit 1 (drop_bit 8 i AND 0xF)
      in signed_drop_bit 19 (push_bit 19 imm))"

definition J_FMT_imm :: "u32 \<Rightarrow> i32" where
  "J_FMT_imm i =
     (let imm = push_bit 20 (drop_bit 31 i AND 0x1)
             OR push_bit 12 (drop_bit 12 i AND 0xFF)
             OR push_bit 11 (drop_bit 20 i AND 0x1)
             OR push_bit 1 (drop_bit 21 i AND 0x3FF)
      in signed_drop_bit 11 (push_bit 11 imm))"

definition U_FMT_imm :: "u32 \<Rightarrow> i32" where
  "U_FMT_imm i = signed_drop_bit 12 (i AND 0xFFFFF000)"

definition getShift :: "u32 \<Rightarrow> u8" where
  "getShift i = ucast (drop_bit 20 i AND 0x1f)"

definition getSHType :: "u32 \<Rightarrow> u8" where
  "getSHType i = getFunct7 i"

section \<open>Decoding\<close>

definition spec_matches :: "u32 \<Rightarrow> InstructionSpec \<Rightarrow> bool" where
  "spec_matches data spec \<longleftrightarrow>
     getOpcode data = spec_opcode spec \<and>
     (if useFunct3 spec then getFunct3 data = spec_funct3 spec else True) \<and>
     (if useFunct7 spec then getFunct7 data = spec_funct7 spec else True) \<and>
     (bits_mask spec = 0 \<or> data AND bits_mask spec = bits_pattern spec)"

fun format_immediate :: "EInstructionFMT \<Rightarrow> u32 \<Rightarrow> i32" where
  "format_immediate FMT_R data = 0"
| "format_immediate FMT_I data = I_FMT_imm data"
| "format_immediate FMT_S data = S_FMT_imm data"
| "format_immediate FMT_B data = B_FMT_imm data"
| "format_immediate FMT_J data = J_FMT_imm data"
| "format_immediate FMT_U data = U_FMT_imm data"

definition decode_spec :: "u32 \<Rightarrow> u32 \<Rightarrow> InstructionSpec \<Rightarrow> Instruction" where
  "decode_spec data addr spec =
     \<lparr>itype = spec_type spec, instruction = data,
      immediate = format_immediate (spec_format spec) data, address = addr,
      rs1 = getRS1 data, rs2 = getRS2 data, rd = getRD data, handler = None\<rparr>"

fun decode_list :: "u32 \<Rightarrow> u32 \<Rightarrow> InstructionSpec list \<Rightarrow> Instruction option" where
  "decode_list data addr [] = None"
| "decode_list data addr (spec # specs) =
     (if spec_matches data spec then Some (decode_spec data addr spec)
      else decode_list data addr specs)"

fun decode_lists :: "u32 \<Rightarrow> u32 \<Rightarrow> InstructionSpec list list \<Rightarrow> Instruction option" where
  "decode_lists data addr [] = None"
| "decode_lists data addr (specs # rest) =
     (case decode_list data addr specs of
        Some instr \<Rightarrow> Some instr
      | None \<Rightarrow> decode_lists data addr rest)"

definition decode :: "u32 \<Rightarrow> u32 \<Rightarrow> Instruction" where
  "decode data addr =
     (case decode_lists data addr [RV32I, RV32M, RV32A] of
        Some instr \<Rightarrow> instr
      | None \<Rightarrow> (blank_instruction I_INVALID)\<lparr>address := addr\<rparr>)"

section \<open>Encoding\<close>

text \<open>Each immediate bit and each register is put where the manual's format diagrams put it.\<close>

definition imm_bits :: "nat \<Rightarrow> nat \<Rightarrow> nat \<Rightarrow> i32 \<Rightarrow> u32" where
  "imm_bits lo len to imm = push_bit to (take_bit len (drop_bit lo imm))"

fun encode_immediate :: "EInstructionFMT \<Rightarrow> i32 \<Rightarrow> u32" where
  "encode_immediate FMT_R imm = 0"
| "encode_immediate FMT_I imm = imm_bits 0 12 20 imm"
| "encode_immediate FMT_S imm = imm_bits 5 7 25 imm OR imm_bits 0 5 7 imm"
| "encode_immediate FMT_B imm =
     imm_bits 12 1 31 imm OR imm_bits 5 6 25 imm OR imm_bits 1 4 8 imm OR imm_bits 11 1 7 imm"
| "encode_immediate FMT_J imm =
     imm_bits 20 1 31 imm OR imm_bits 1 10 21 imm OR imm_bits 11 1 20 imm OR imm_bits 12 8 12 imm"
| "encode_immediate FMT_U imm = imm_bits 0 20 12 imm"

fun encode_registers :: "EInstructionFMT \<Rightarrow> u8 \<Rightarrow> u8 \<Rightarrow> u8 \<Rightarrow> u32" where
  "encode_registers FMT_R d s1 s2 =
     push_bit 7 (take_bit 5 (ucast d)) OR push_bit 15 (take_bit 5 (ucast s1)) OR push_bit 20 (take_bit 5 (ucast s2))"
| "encode_registers FMT_I d s1 s2 =
     push_bit 7 (take_bit 5 (ucast d)) OR push_bit 15 (take_bit 5 (ucast s1))"
| "encode_registers FMT_S d s1 s2 =
     push_bit 15 (take_bit 5 (ucast s1)) OR push_bit 20 (take_bit 5 (ucast s2))"
| "encode_registers FMT_B d s1 s2 =
     push_bit 15 (take_bit 5 (ucast s1)) OR push_bit 20 (take_bit 5 (ucast s2))"
| "encode_registers FMT_J d s1 s2 = push_bit 7 (take_bit 5 (ucast d))"
| "encode_registers FMT_U d s1 s2 = push_bit 7 (take_bit 5 (ucast d))"

text \<open>
  The word for an entry of the tables.  The ordering bits of the atomic instructions are zero.
\<close>

definition encode :: "InstructionSpec \<Rightarrow> u8 \<Rightarrow> u8 \<Rightarrow> u8 \<Rightarrow> i32 \<Rightarrow> u32" where
  "encode spec d s1 s2 imm =
     take_bit 7 (ucast (spec_opcode spec))
     OR (if useFunct3 spec then push_bit 12 (take_bit 3 (ucast (spec_funct3 spec))) else 0)
     OR (if spec_format spec = FMT_R \<and> useFunct7 spec
         then push_bit 25 (take_bit 7 (ucast (spec_funct7 spec))) else 0)
     OR (if spec_format spec = FMT_R then bits_pattern spec AND 0xF8000000 else 0)
     OR encode_registers (spec_format spec) d s1 s2
     OR encode_immediate (spec_format spec) imm"

text \<open>The immediates a format can express.\<close>

fun immediate_fits :: "EInstructionFMT \<Rightarrow> i32 \<Rightarrow> bool" where
  "immediate_fits FMT_R imm \<longleftrightarrow> imm = 0"
| "immediate_fits FMT_I imm \<longleftrightarrow> - 2048 \<le> sint imm \<and> sint imm < 2048"
| "immediate_fits FMT_S imm \<longleftrightarrow> - 2048 \<le> sint imm \<and> sint imm < 2048"
| "immediate_fits FMT_B imm \<longleftrightarrow> - 4096 \<le> sint imm \<and> sint imm < 4096 \<and> even (sint imm)"
| "immediate_fits FMT_J imm \<longleftrightarrow> - 1048576 \<le> sint imm \<and> sint imm < 1048576 \<and> even (sint imm)"
| "immediate_fits FMT_U imm \<longleftrightarrow> - 524288 \<le> sint imm \<and> sint imm < 524288"

text \<open>Shift and system instructions fix part of their I-format immediate.\<close>

definition operand_fits :: "InstructionSpec \<Rightarrow> i32 \<Rightarrow> bool" where
  "operand_fits spec imm \<longleftrightarrow>
     immediate_fits (spec_format spec) imm \<and>
     (spec_format spec = FMT_I \<and> useFunct7 spec \<longrightarrow> ucast (drop_bit 5 imm AND 0x7f) = spec_funct7 spec) \<and>
     (spec_format spec = FMT_I \<and> bits_mask spec \<noteq> 0 \<longrightarrow> push_bit 20 imm AND bits_mask spec = bits_pattern spec)"

section \<open>The encodings of the RISC-V manual\<close>

text \<open>
  Independently of the tables: the format of every instruction, the bits that its encoding fixes (opcode, funct3,
  funct7 or funct5, and what a shift or a system instruction fixes of its immediate), as in the instruction listings
  of the manual, and the word for given operands.  The ordering bits of the atomic instructions are zero.
\<close>

definition manual_format :: "EInstruction \<Rightarrow> EInstructionFMT" where
  "manual_format t =
     (if t \<in> {I_ADD, I_SUB, I_XOR, I_OR, I_AND, I_SLL, I_SRL, I_SRA, I_SLT, I_SLTU,
             I_MUL, I_MULH, I_MULHSU, I_MULHU, I_DIV, I_DIVU, I_REM, I_REMU, I_LR_W, I_SC_W} then FMT_R
      else if t \<in> {I_SB, I_SH, I_SW} then FMT_S
      else if t \<in> {I_BEQ, I_BNE, I_BLT, I_BGE, I_BLTU, I_BGEU} then FMT_B
      else if t = I_JAL then FMT_J
      else if t \<in> {I_LUI, I_AUIPC} then FMT_U
      else FMT_I)"

fun manual_bits :: "EInstruction \<Rightarrow> u32" where
  "manual_bits I_ADD = 0x00000033" | "manual_bits I_SUB = 0x40000033" | "manual_bits I_SLL = 0x00001033"
| "manual_bits I_SLT = 0x00002033" | "manual_bits I_SLTU = 0x00003033" | "manual_bits I_XOR = 0x00004033"
| "manual_bits I_SRL = 0x00005033" | "manual_bits I_SRA = 0x40005033" | "manual_bits I_OR = 0x00006033"
| "manual_bits I_AND = 0x00007033"
| "manual_bits I_ADDI = 0x00000013" | "manual_bits I_SLLI = 0x00001013" | "manual_bits I_SLTI = 0x00002013"
| "manual_bits I_SLTIU = 0x00003013" | "manual_bits I_XORI = 0x00004013" | "manual_bits I_SRLI = 0x00005013"
| "manual_bits I_SRAI = 0x40005013" | "manual_bits I_ORI = 0x00006013" | "manual_bits I_ANDI = 0x00007013"
| "manual_bits I_LB = 0x00000003" | "manual_bits I_LH = 0x00001003" | "manual_bits I_LW = 0x00002003"
| "manual_bits I_LBU = 0x00004003" | "manual_bits I_LHU = 0x00005003"
| "manual_bits I_SB = 0x00000023" | "manual_bits I_SH = 0x00001023" | "manual_bits I_SW = 0x00002023"
| "manual_bits I_BEQ = 0x00000063" | "manual_bits I_BNE = 0x00001063" | "manual_bits I_BLT = 0x00004063"
| "manual_bits I_BGE = 0x00005063" | "manual_bits I_BLTU = 0x00006063" | "manual_bits I_BGEU = 0x00007063"
| "manual_bits I_JAL = 0x0000006F" | "manual_bits I_JALR = 0x00000067"
| "manual_bits I_LUI = 0x00000037" | "manual_bits I_AUIPC = 0x00000017"
| "manual_bits I_ECALL = 0x00000073" | "manual_bits I_EBREAK = 0x00100073"
| "manual_bits I_MUL = 0x02000033" | "manual_bits I_MULH = 0x02001033" | "manual_bits I_MULHSU = 0x02002033"
| "manual_bits I_MULHU = 0x02003033" | "manual_bits I_DIV = 0x02004033" | "manual_bits I_DIVU = 0x02005033"
| "manual_bits I_REM = 0x02006033" | "manual_bits I_REMU = 0x02007033"
| "manual_bits I_LR_W = 0x1000202F" | "manual_bits I_SC_W = 0x1800202F"
| "manual_bits t = 0"

definition manual_word :: "EInstruction \<Rightarrow> u8 \<Rightarrow> u8 \<Rightarrow> u8 \<Rightarrow> i32 \<Rightarrow> u32" where
  "manual_word t d s1 s2 imm =
     manual_bits t OR encode_registers (manual_format t) d s1 s2 OR encode_immediate (manual_format t) imm"

text \<open>
  The operands the manual allows: registers, an immediate of the format, five bits for a shift, none for the system
  instructions, and no second source for \<^verbatim>\<open>lr.w\<close>.
\<close>

definition manual_operands :: "EInstruction \<Rightarrow> u8 \<Rightarrow> u8 \<Rightarrow> u8 \<Rightarrow> i32 \<Rightarrow> bool" where
  "manual_operands t d s1 s2 imm \<longleftrightarrow> d < 32 \<and> s1 < 32 \<and> s2 < 32 \<and> immediate_fits (manual_format t) imm
     \<and> (t \<in> {I_SLLI, I_SRLI, I_SRAI} \<longrightarrow> imm < 32)
     \<and> (t \<in> {I_ECALL, I_EBREAK} \<longrightarrow> d = 0 \<and> s1 = 0 \<and> imm = 0)
     \<and> (t = I_LR_W \<longrightarrow> s2 = 0)"

text \<open>What the I format reads as the immediate: of \<^verbatim>\<open>srai\<close> and \<^verbatim>\<open>ebreak\<close> it includes fixed bits.\<close>

definition manual_immediate :: "EInstruction \<Rightarrow> i32 \<Rightarrow> i32" where
  "manual_immediate t imm = (if t = I_SRAI then 0x400 + imm else if t = I_EBREAK then 1 else imm)"

definition manual_fixed :: "EInstruction \<Rightarrow> i32" where
  "manual_fixed t = (if t = I_SRAI then 0x400 else if t = I_EBREAK then 1 else 0)"

definition fixed_operands :: "InstructionSpec \<Rightarrow> bool" where
  "fixed_operands spec \<longleftrightarrow>
     (spec_format spec = FMT_I \<and> useFunct7 spec \<longrightarrow>
        spec_type spec \<in> {I_SLLI, I_SRLI} \<and> spec_funct7 spec = 0 \<or> spec_type spec = I_SRAI \<and> spec_funct7 spec = 0x20)
     \<and> (spec_format spec = FMT_I \<and> bits_mask spec \<noteq> 0 \<longrightarrow>
        spec_type spec \<in> {I_ECALL, I_EBREAK} \<and> push_bit 20 (manual_fixed (spec_type spec)) AND bits_mask spec = bits_pattern spec)"

text \<open>Two entries that no word matches both of, and the shape every entry has.\<close>

definition spec_disjoint :: "InstructionSpec \<Rightarrow> InstructionSpec \<Rightarrow> bool" where
  "spec_disjoint s t \<longleftrightarrow> spec_opcode s \<noteq> spec_opcode t
    \<or> useFunct3 s \<and> useFunct3 t \<and> spec_funct3 s \<noteq> spec_funct3 t
    \<or> useFunct7 s \<and> useFunct7 t \<and> spec_funct7 s \<noteq> spec_funct7 t
    \<or> bits_mask s \<noteq> 0 \<and> bits_mask s = bits_mask t \<and> bits_pattern s \<noteq> bits_pattern t"

definition spec_wf :: "InstructionSpec \<Rightarrow> bool" where
  "spec_wf s \<longleftrightarrow> spec_opcode s < 128 \<and> spec_funct3 s < 8 \<and> spec_funct7 s < 128 \<and>
     (case spec_format s of
        FMT_R \<Rightarrow> (if useFunct7 s then bits_mask s = 0 \<and> bits_pattern s = 0
                  else bits_mask s = 0xF8000000 \<and> bits_pattern s AND 0xF8000000 = bits_pattern s)
      | FMT_I \<Rightarrow> (bits_mask s = 0 \<or> bits_mask s = 0xFFF00000)
      | FMT_S \<Rightarrow> \<not> useFunct7 s \<and> bits_mask s = 0
      | FMT_B \<Rightarrow> \<not> useFunct7 s \<and> bits_mask s = 0
      | FMT_J \<Rightarrow> \<not> useFunct3 s \<and> \<not> useFunct7 s \<and> bits_mask s = 0
      | FMT_U \<Rightarrow> \<not> useFunct3 s \<and> \<not> useFunct7 s \<and> bits_mask s = 0)"

section \<open>Bit-level reasoning on 32-bit words\<close>

lemma all_less_32:
  "(\<forall>n<32::nat. P n) \<longleftrightarrow>
     P 0 \<and> P 1 \<and> P 2 \<and> P 3 \<and> P 4 \<and> P 5 \<and> P 6 \<and> P 7 \<and> P 8 \<and> P 9 \<and> P 10 \<and> P 11 \<and> P 12 \<and>
     P 13 \<and> P 14 \<and> P 15 \<and> P 16 \<and> P 17 \<and> P 18 \<and> P 19 \<and> P 20 \<and> P 21 \<and> P 22 \<and> P 23 \<and> P 24 \<and>
     P 25 \<and> P 26 \<and> P 27 \<and> P 28 \<and> P 29 \<and> P 30 \<and> P 31"
  by (simp add: numeral_eq_Suc All_less_Suc) blast

lemma u32_bit_eqI: "(\<forall>n<32. bit a n = bit b n) \<Longrightarrow> a = (b :: u32)"
  by (auto intro: bit_word_eqI)

section \<open>Fields and immediates\<close>

lemma unat_ucast_and_le: "unat (ucast (x AND m :: u32) :: u8) \<le> unat m"
proof -
  have "unat (ucast (x AND m :: u32) :: u8) \<le> unat (x AND m)"
    by (simp add: unsigned_ucast_eq take_bit_nat_eq_self_iff unsigned_take_bit_eq take_bit_nat_less_eq_self)
  also have "\<dots> \<le> unat m"
    using word_and_le1 [of x m] by (simp add: word_le_nat_alt)
  finally show ?thesis .
qed

lemma field_less:
  "unat (getRD i) < 32" "unat (getRS1 i) < 32" "unat (getRS2 i) < 32"
  "unat (getFunct3 i) < 8" "unat (getFunct7 i) < 128" "unat (getFunct5 i) < 32"
  "unat (getOpcode i) < 128" "unat (getShift i) < 32"
  unfolding getRD_def getRS1_def getRS2_def getFunct3_def getFunct7_def getFunct5_def
      getOpcode_def getShift_def
  by (rule le_less_trans [OF unat_ucast_and_le], simp)+

lemma u32_and_0x800: "(w AND 0x800 \<noteq> 0) \<longleftrightarrow> bit (w :: u32) 11"
  using and_exp_eq_0_iff_not_bit [of w 11] by simp

lemma S_FMT_imm_bits:
  "S_FMT_imm i = signed_drop_bit 20 (push_bit 20
     ((drop_bit 7 i AND 0x1f) OR push_bit 5 (drop_bit 25 i AND 0x7f)))"
  unfolding S_FMT_imm_def Let_def u32_and_0x800
  by (rule u32_bit_eqI) (simp add: all_less_32 bit_simps)

lemma sint_signed_drop_bit_range:
  "- (2 ^ (31 - n)) \<le> sint (signed_drop_bit n (w :: u32))" "sint (signed_drop_bit n (w :: u32)) < 2 ^ (31 - n)" if "n < 32"
proof -
  have *: "2 ^ 31 = (2::int) ^ (31 - n) * 2 ^ n" using that by (simp flip: power_add)
  have "- (2 ^ 31) \<le> sint w" "sint w < 2 ^ 31"
    using sint_greater_eq [of w] sint_less [of w] by simp_all
  then have lo: "- (2 ^ (31 - n)) * 2 ^ n \<le> sint w" and hi: "sint w < 2 ^ (31 - n) * 2 ^ n"
    unfolding * by simp_all
  have "- (2 ^ (31 - n)) = - (2 ^ (31 - n)) * 2 ^ n div (2 ^ n :: int)"
    by (rule nonzero_mult_div_cancel_right [symmetric]) simp
  also have "\<dots> \<le> sint w div 2 ^ n"
    by (rule zdiv_mono1 [OF lo]) simp
  finally show "- (2 ^ (31 - n)) \<le> sint (signed_drop_bit n w)"
    by (simp add: sint_signed_drop_bit_eq drop_bit_eq_div)
  have "sint w div 2 ^ n * 2 ^ n \<le> sint w"
    by (simp flip: minus_mod_eq_div_mult)
  with hi have "sint w div 2 ^ n * 2 ^ n < 2 ^ (31 - n) * 2 ^ n" by linarith
  then show "sint (signed_drop_bit n w) < 2 ^ (31 - n)"
    by (simp add: sint_signed_drop_bit_eq drop_bit_eq_div)
qed

lemma sign_extend_id:
  assumes "- (2 ^ (31 - n)) \<le> sint w" "sint w < 2 ^ (31 - n)" "n < 32"
  shows "signed_drop_bit n (push_bit n w) = (w :: u32)"
proof -
  have st: "signed_take_bit (31 - n) (sint w) = sint w" using assms(1,2) by (simp add: signed_take_bit_int_eq_self_iff)
  have "bit w k = bit w (31 - n)" if "32 - n \<le> k" "k < 32" for k
    using arg_cong [OF st, of "\<lambda>x. bit x k"] that
    by (cases "k = 31") (simp_all add: bit_simps min_def split: if_splits)
  with assms(3) show ?thesis by (intro bit_word_eqI) (auto simp: bit_simps)
qed
lemma even_sint: "even (sint w) \<longleftrightarrow> \<not> bit (w :: u32) 0"
  using bit_sint_iff [of w 0] by (simp add: bit_0)

lemmas encode_bits = encode_def imm_bits_def bit_simps Let_def

lemma decode_encode_I:
  "spec_format spec = FMT_I \<Longrightarrow>
   I_FMT_imm (encode spec d s1 s2 imm) = signed_drop_bit 20 (push_bit 20 imm)"
  by (rule u32_bit_eqI) (simp add: all_less_32 I_FMT_imm_def encode_bits)

lemma decode_encode_S:
  "spec_format spec = FMT_S \<Longrightarrow>
   S_FMT_imm (encode spec d s1 s2 imm) = signed_drop_bit 20 (push_bit 20 imm)"
  by (rule u32_bit_eqI) (simp add: all_less_32 S_FMT_imm_bits encode_bits)

lemma decode_encode_B:
  "spec_format spec = FMT_B \<Longrightarrow> \<not> bit imm 0 \<Longrightarrow>
   B_FMT_imm (encode spec d s1 s2 imm) = signed_drop_bit 19 (push_bit 19 imm)"
  by (rule u32_bit_eqI)
    (simp add: all_less_32 B_FMT_imm_def encode_bits del: push_bit_Suc take_bit_Suc_0 One_nat_def, simp)

lemma decode_encode_J:
  "spec_format spec = FMT_J \<Longrightarrow> \<not> useFunct3 spec \<Longrightarrow> \<not> bit imm 0 \<Longrightarrow>
   J_FMT_imm (encode spec d s1 s2 imm) = signed_drop_bit 11 (push_bit 11 imm)"
  by (rule u32_bit_eqI)
    (simp add: all_less_32 J_FMT_imm_def encode_bits del: push_bit_Suc take_bit_Suc_0 One_nat_def, simp)

lemma decode_encode_U:
  "spec_format spec = FMT_U \<Longrightarrow> \<not> useFunct3 spec \<Longrightarrow>
   U_FMT_imm (encode spec d s1 s2 imm) = signed_drop_bit 12 (push_bit 12 imm)"
  by (rule u32_bit_eqI) (simp add: all_less_32 U_FMT_imm_def encode_bits)

lemma immediate_fits_decode: "immediate_fits f (format_immediate f i)"
proof (cases f)
  case FMT_B
  have "\<not> bit (B_FMT_imm i) 0"
    by (simp add: B_FMT_imm_def Let_def bit_simps del: push_bit_Suc)
  with FMT_B show ?thesis
    using sint_signed_drop_bit_range [of 19] by (simp add: even_sint B_FMT_imm_def Let_def)
next
  case FMT_J
  have "\<not> bit (J_FMT_imm i) 0"
    by (simp add: J_FMT_imm_def Let_def bit_simps del: push_bit_Suc)
  with FMT_J show ?thesis
    using sint_signed_drop_bit_range [of 11] by (simp add: even_sint J_FMT_imm_def Let_def)
next
  case FMT_S
  then show ?thesis using sint_signed_drop_bit_range [of 20] by (simp add: S_FMT_imm_bits)
next
  case FMT_I
  then show ?thesis using sint_signed_drop_bit_range [of 20] by (simp add: I_FMT_imm_def)
next
  case FMT_U
  then show ?thesis using sint_signed_drop_bit_range [of 12] by (simp add: U_FMT_imm_def)
qed simp

section \<open>The tables\<close>

lemma spec_disjoint_matches: "spec_disjoint s t \<Longrightarrow> spec_matches d s \<Longrightarrow> \<not> spec_matches d t"
  by (auto simp: spec_disjoint_def spec_matches_def)

lemma specs_disjoint:
  "list_all (\<lambda>s. list_all (\<lambda>t. s = t \<or> spec_disjoint s t) all_specs) all_specs"
  by code_simp

lemma specs_wf: "list_all spec_wf all_specs"
  by code_simp

lemma decode_list_None: "decode_list d a specs = None \<longleftrightarrow> (\<forall>s\<in>set specs. \<not> spec_matches d s)"
  by (induction specs) auto

lemma decode_lists_concat: "decode_lists d a ls = decode_list d a (concat ls)"
proof (induction ls)
  case (Cons l ls)
  have "decode_list d a (l @ concat ls) = (case decode_list d a l of None \<Rightarrow> decode_list d a (concat ls) | Some i \<Rightarrow> Some i)"
    by (induction l) auto
  with Cons show ?case by (simp split: option.splits)
qed simp

lemma decode_all_specs:
  "decode d a = (case decode_list d a all_specs of Some i \<Rightarrow> i
                 | None \<Rightarrow> (blank_instruction I_INVALID)\<lparr>address := a\<rparr>)"
  by (simp add: decode_def decode_lists_concat all_specs_def del: decode_lists.simps)

lemma decode_list_Some:
  "decode_list d a specs = Some i \<Longrightarrow> \<exists>s\<in>set specs. spec_matches d s \<and> i = decode_spec d a s"
  by (induction specs) (auto split: if_splits)

lemma specs_unique:
  "s \<in> set all_specs \<Longrightarrow> t \<in> set all_specs \<Longrightarrow> spec_matches d s \<Longrightarrow> spec_matches d t \<Longrightarrow> s = t"
  using specs_disjoint spec_disjoint_matches unfolding list_all_iff by blast

lemma decode_eq_spec:
  assumes "s \<in> set all_specs" and "spec_matches d s"
  shows "decode d a = decode_spec d a s"
proof -
  from assms obtain i where i: "decode_list d a all_specs = Some i"
    using decode_list_None [of d a all_specs] by fastforce
  then obtain t where "t \<in> set all_specs" "spec_matches d t" "i = decode_spec d a t"
    using decode_list_Some by blast
  with i specs_unique [OF assms(1) _ assms(2)] show ?thesis
    by (simp add: decode_all_specs)
qed

lemma decode_eq_invalid:
  "\<forall>s\<in>set all_specs. \<not> spec_matches d s \<Longrightarrow> decode d a = (blank_instruction I_INVALID)\<lparr>address := a\<rparr>"
  by (simp add: decode_all_specs decode_list_None [THEN iffD2])

lemma all_less_8:
  "(\<forall>n<8::nat. P n) \<longleftrightarrow> P 0 \<and> P 1 \<and> P 2 \<and> P 3 \<and> P 4 \<and> P 5 \<and> P 6 \<and> P 7"
  by (simp add: numeral_eq_Suc All_less_Suc) blast

lemma u8_bit_eqI: "(\<forall>n<8. bit a n = bit b n) \<Longrightarrow> a = (b :: u8)"
  by (auto intro: bit_word_eqI)

lemma u8_take_bit: "x < 32 \<Longrightarrow> take_bit 5 x = (x :: u8)" "y < 128 \<Longrightarrow> take_bit 7 y = (y :: u8)" "z < 8 \<Longrightarrow> take_bit 3 z = (z :: u8)"
  by (simp_all add: word_unat_eq_iff unsigned_take_bit_eq take_bit_nat_eq_self_iff word_less_nat_alt)

section \<open>Decoding inverts encoding\<close>

lemma encode_opcode:
  "getOpcode (encode spec d s1 s2 imm) = take_bit 7 (spec_opcode spec)"
  by (cases "spec_format spec"; rule u8_bit_eqI) (simp_all add: all_less_8 getOpcode_def encode_bits)

lemma encode_rd:
  "spec_format spec \<notin> {FMT_S, FMT_B} \<Longrightarrow>
   getRD (encode spec d s1 s2 imm) = take_bit 5 d"
  by (cases "spec_format spec"; rule u8_bit_eqI) (simp_all add: all_less_8 getRD_def encode_bits)

lemma encode_rs1:
  "spec_format spec \<notin> {FMT_J, FMT_U} \<Longrightarrow>
   getRS1 (encode spec d s1 s2 imm) = take_bit 5 s1"
  by (cases "spec_format spec"; rule u8_bit_eqI) (simp_all add: all_less_8 getRS1_def encode_bits)

lemma encode_rs2:
  "spec_format spec \<notin> {FMT_J, FMT_U, FMT_I} \<Longrightarrow>
   getRS2 (encode spec d s1 s2 imm) = take_bit 5 s2"
  by (cases "spec_format spec"; rule u8_bit_eqI) (simp_all add: all_less_8 getRS2_def encode_bits)

lemma encode_funct3:
  "spec_format spec \<notin> {FMT_J, FMT_U} \<Longrightarrow> useFunct3 spec \<Longrightarrow>
   getFunct3 (encode spec d s1 s2 imm) = take_bit 3 (spec_funct3 spec)"
  by (cases "spec_format spec"; rule u8_bit_eqI) (simp_all add: all_less_8 getFunct3_def encode_bits)

lemma encode_funct7_R:
  "spec_format spec = FMT_R \<Longrightarrow> useFunct7 spec \<Longrightarrow> bits_pattern spec = 0 \<Longrightarrow>
   getFunct7 (encode spec d s1 s2 imm) = take_bit 7 (spec_funct7 spec)"
  by (rule u8_bit_eqI) (simp_all add: all_less_8 getFunct7_def encode_bits)

lemma encode_funct7_I:
  "spec_format spec = FMT_I \<Longrightarrow>
   getFunct7 (encode spec d s1 s2 imm) = ucast (drop_bit 5 imm AND 0x7f)"
  by (rule u8_bit_eqI) (simp_all add: all_less_8 getFunct7_def encode_bits)

lemma encode_mask_R:
  "spec_format spec = FMT_R \<Longrightarrow> \<not> useFunct7 spec \<Longrightarrow>
   encode spec d s1 s2 imm AND 0xF8000000 = bits_pattern spec AND 0xF8000000"
  by (rule u32_bit_eqI) (simp_all add: all_less_32 encode_bits)

lemma encode_mask_I:
  "spec_format spec = FMT_I \<Longrightarrow>
   encode spec d s1 s2 imm AND 0xFFF00000 = push_bit 20 imm AND 0xFFF00000"
  by (rule u32_bit_eqI) (simp_all add: all_less_32 encode_bits)

lemma encode_matches:
  assumes "spec_wf spec" "operand_fits spec imm"
  shows "spec_matches (encode spec d s1 s2 imm) spec"
  using assms
  by (cases "spec_format spec")
   (auto simp: spec_wf_def operand_fits_def spec_matches_def encode_opcode encode_funct3 encode_funct7_R encode_funct7_I encode_mask_R encode_mask_I u8_take_bit split: if_splits)

lemma encode_immediate_roundtrip:
  assumes "spec_wf spec" "operand_fits spec imm"
  shows "format_immediate (spec_format spec) (encode spec d s1 s2 imm) = imm"
  using assms
  by (cases "spec_format spec")
   (simp_all add: spec_wf_def operand_fits_def sign_extend_id decode_encode_I decode_encode_S decode_encode_B decode_encode_J decode_encode_U even_sint split: if_splits)

section \<open>The tables against the manual\<close>

lemma spec_is_manual:
  "list_all (\<lambda>spec. spec_format spec = manual_format (spec_type spec)
     \<and> encode spec 0 0 0 (manual_fixed (spec_type spec)) = manual_bits (spec_type spec)) all_specs"
  by code_simp

lemma manual_spec_exists:
  "list_all (\<lambda>t. t \<in> {I_FENCE, I_INVALID, I_TYPE_COUNT} \<or> t \<in> set (map spec_type all_specs)) EInstruction_values"
  by code_simp

lemma imm_bits_OR: "imm_bits lo len to (x OR y) = imm_bits lo len to x OR imm_bits lo len to y"
  by (simp add: imm_bits_def drop_bit_or take_bit_or push_bit_or)

lemma encode_immediate_OR: "encode_immediate f (x OR y) = encode_immediate f x OR encode_immediate f y"
  by (cases f) (simp_all add: imm_bits_OR or.left_commute or.commute or.assoc)

lemma encode_registers_0: "encode_registers f 0 0 0 = 0"
  by (cases f) simp_all

lemma encode_split:
  "encode spec d s1 s2 (x OR y) = encode spec 0 0 0 y OR encode_registers (spec_format spec) d s1 s2 OR encode_immediate (spec_format spec) x"
  by (simp add: encode_def encode_immediate_OR encode_registers_0 or.assoc or.left_commute or.commute)

lemma manual_word_encode:
  assumes "spec \<in> set all_specs"
  shows "manual_word (spec_type spec) d s1 s2 imm = encode spec d s1 s2 (imm OR manual_fixed (spec_type spec))"
  using spec_is_manual assms by (simp add: list_all_iff manual_word_def encode_split)

lemma less_32: "(imm :: u32) < 32 \<Longrightarrow> bit imm n \<Longrightarrow> n < 5"
proof -
  assume "imm < 32" "bit imm n"
  have "take_bit 5 imm = imm" using \<open>imm < 32\<close> by (simp add: word_unat_eq_iff unsigned_take_bit_eq take_bit_nat_eq_self_iff word_less_nat_alt)
  then show "n < 5" using \<open>bit imm n\<close> bit_take_bit_iff [of 5 imm n] by simp
qed

lemma shift_operand_OR:
  assumes "(imm :: i32) < 32"
  shows "imm OR 0x400 = 0x400 + imm" "drop_bit 5 imm AND 0x7f = 0" "drop_bit 5 (imm OR 0x400) AND 0x7f = 0x20"
proof -
  have b: "\<not> bit imm n" if "5 \<le> n" for n using less_32 [OF assms] that not_le by blast
  then have "imm AND 0x400 = 0" using and_exp_eq_0_iff_not_bit [of imm 10] by simp
  then show "imm OR 0x400 = 0x400 + imm" using disjunctive_add [of imm "0x400"] 
    by (metis add.commute word_plus_and_or add.left_neutral)
  show "drop_bit 5 imm AND 0x7f = 0" "drop_bit 5 (imm OR 0x400) AND 0x7f = 0x20"
    by (rule u32_bit_eqI, simp add: all_less_32 bit_simps b)+
qed

lemma manual_immediate_OR:
  "manual_operands t d s1 s2 imm \<Longrightarrow> imm OR manual_fixed t = manual_immediate t imm"
  using shift_operand_OR(1) [of imm] by (auto simp: manual_operands_def manual_fixed_def manual_immediate_def)

lemma specs_fixed_operands: "list_all fixed_operands all_specs"
  by code_simp

lemma manual_operand_fits:
  assumes "spec \<in> set all_specs" "manual_operands (spec_type spec) d s1 s2 imm"
  shows "operand_fits spec (imm OR manual_fixed (spec_type spec))"
proof -
  let ?t = "spec_type spec" and ?i = "imm OR manual_fixed (spec_type spec)"
  have fmt: "spec_format spec = manual_format ?t" using spec_is_manual assms(1) by (simp add: list_all_iff)
  have small: "- 2048 \<le> sint (0x400 + imm) \<and> sint (0x400 + imm) < 2048" if "imm < 32"
  proof -
    have "uint imm < 32" using that by (simp add: word_less_def)
    then have "sint (0x400 + imm) = 0x400 + uint imm"
      by (simp add: sint_uint uint_word_ariths signed_take_bit_int_eq_self)
    then show ?thesis using \<open>uint imm < 32\<close> by simp
  qed
  have "immediate_fits (spec_format spec) ?i"
  proof (cases "?t = I_SRAI \<or> ?t = I_EBREAK")
    case True
    then show ?thesis
      unfolding fmt manual_format_def manual_fixed_def
      using assms(2) small shift_operand_OR(1) [of imm] by (elim disjE) (simp_all add: manual_operands_def)
  next
    case False
    then show ?thesis using assms(2) by (simp add: fmt manual_operands_def manual_fixed_def)
  qed
  moreover have fixed: "fixed_operands spec" using specs_fixed_operands assms(1) by (simp add: list_all_iff)
  have "ucast (drop_bit 5 ?i AND 0x7f) = spec_funct7 spec" if i: "spec_format spec = FMT_I" "useFunct7 spec"
  proof -
    consider "?t \<in> {I_SLLI, I_SRLI}" "spec_funct7 spec = 0" | "?t = I_SRAI" "spec_funct7 spec = 0x20"
      using fixed i unfolding fixed_operands_def by blast
    then show ?thesis
    proof cases
      case 1
      then have "imm < 32" "manual_fixed ?t = 0" using assms(2) by (auto simp: manual_operands_def manual_fixed_def)
      then show ?thesis using shift_operand_OR(2) [of imm] 1(2) by simp
    next
      case 2
      then have "imm < 32" "manual_fixed ?t = 0x400" using assms(2) by (simp_all add: manual_operands_def manual_fixed_def)
      then show ?thesis using shift_operand_OR(3) [of imm] 2(2) by simp
    qed
  qed
  moreover have "push_bit 20 ?i AND bits_mask spec = bits_pattern spec" if "spec_format spec = FMT_I" "bits_mask spec \<noteq> 0"
  proof -
    have "?t \<in> {I_ECALL, I_EBREAK}" "push_bit 20 (manual_fixed ?t) AND bits_mask spec = bits_pattern spec"
      using fixed that unfolding fixed_operands_def by blast+
    moreover have "imm = 0" using calculation(1) assms(2) unfolding manual_operands_def by blast
    ultimately show ?thesis by simp
  qed
  ultimately show ?thesis by (simp add: operand_fits_def)
qed

lemma decode_regs_less: "unat (rd (decode w a)) < 32 \<and> unat (rs1 (decode w a)) < 32 \<and> unat (rs2 (decode w a)) < 32"
proof (cases "\<exists>s\<in>set all_specs. spec_matches w s")
  case True
  then obtain s where "decode w a = decode_spec w a s" using decode_eq_spec by blast
  then show ?thesis by (simp add: decode_spec_def field_less)
next
  case False
  then show ?thesis by (simp add: decode_eq_invalid blank_instruction_def)
qed

lemma fields_decode_spec [simp]:
  "itype (decode_spec w a s) = spec_type s" "rs1 (decode_spec w a s) = getRS1 w"
  "rs2 (decode_spec w a s) = getRS2 w" "rd (decode_spec w a s) = getRD w"
  "immediate (decode_spec w a s) = format_immediate (spec_format s) w"
  by (simp_all add: decode_spec_def)

lemma address_decode [simp]: "address (decode w a) = a"
proof (cases "\<exists>spec\<in>set all_specs. spec_matches w spec")
  case True
  then obtain spec where "decode w a = decode_spec w a spec" using decode_eq_spec by blast
  then show ?thesis by (simp add: decode_spec_def)
qed (simp add: decode_eq_invalid)

lemma decode_not_count: "itype (decode w a) \<noteq> I_TYPE_COUNT"
proof (cases "\<exists>spec\<in>set all_specs. spec_matches w spec")
  case True
  then obtain spec where spec: "spec \<in> set all_specs" "decode w a = decode_spec w a spec" using decode_eq_spec by blast
  have "list_all (\<lambda>spec. spec_type spec \<noteq> I_TYPE_COUNT) all_specs" by (simp add: spec_tables)
  then show ?thesis using spec by (auto simp: decode_spec_def list_all_iff)
qed (simp add: decode_eq_invalid blank_instruction_def)

text \<open>C11: The instruction tables are unambiguous and the decoder is their meaning: a word that
  matches an entry of the three tables, in whatever order they are searched, decodes to exactly
  that entry with its fields and immediate, and a word that matches no entry decodes to the
  invalid instruction at its address.\<close>

theorem decode_characterised:
  "(spec \<in> set all_specs \<and> spec_matches w spec \<longrightarrow> decode w a = decode_spec w a spec) \<and>
   ((\<forall>s\<in>set all_specs. \<not> spec_matches w s) \<longrightarrow>
      decode w a = (blank_instruction I_INVALID)\<lparr>address := a\<rparr>)"
  by (auto intro: decode_eq_spec decode_eq_invalid)

theorem decode_characterised_witness:
  "spec_matches 0x00A00893 (mk_spec I_ADDI FMT_I 0b0010011 True 0 False 0 0 0) \<and>
   decode 0x00A00893 0x1000 = \<lparr>itype = I_ADDI, instruction = 0x00A00893, immediate = 10,
     address = 0x1000, rs1 = 0, rs2 = 10, rd = 17, handler = None\<rparr>"
proof -
  let ?s = "mk_spec I_ADDI FMT_I 0b0010011 True 0 False 0 0 0"
  have "?s \<in> set all_specs" by (simp add: spec_tables)
  moreover have m: "spec_matches 0x00A00893 ?s"
    by (simp add: spec_matches_def getOpcode_def getFunct3_def)
  ultimately have "decode 0x00A00893 0x1000 = decode_spec 0x00A00893 0x1000 ?s"
    using decode_characterised [of ?s "0x00A00893" "0x1000"] by blast
  with m show ?thesis
    by (simp add: decode_spec_def I_FMT_imm_def getRS1_def getRS2_def getRD_def)
qed

text \<open>C10: Decoding inverts the encoding of the RISC-V manual.  For every instruction of RV32I, RV32M and the two of RV32A that the
  program knows, except \<^verbatim>\<open>fence\<close>, which no table has, every choice of registers and every immediate its format can express,
  the word that the manual assigns decodes to that instruction, with that immediate and with the registers its
  format has.\<close>

theorem decode_encode:
  assumes "t \<notin> {I_FENCE, I_INVALID, I_TYPE_COUNT}" and "manual_operands t d s1 s2 imm"
  shows "itype (decode (manual_word t d s1 s2 imm) a) = t
    \<and> immediate (decode (manual_word t d s1 s2 imm) a) = manual_immediate t imm
    \<and> address (decode (manual_word t d s1 s2 imm) a) = a
    \<and> (manual_format t \<notin> {FMT_S, FMT_B} \<longrightarrow> rd (decode (manual_word t d s1 s2 imm) a) = d)
    \<and> (manual_format t \<notin> {FMT_J, FMT_U} \<longrightarrow> rs1 (decode (manual_word t d s1 s2 imm) a) = s1)
    \<and> (manual_format t \<notin> {FMT_J, FMT_U, FMT_I} \<longrightarrow> rs2 (decode (manual_word t d s1 s2 imm) a) = s2)"
proof -
  obtain spec where spec: "spec \<in> set all_specs" "t = spec_type spec"
    using manual_spec_exists assms(1) EInstruction_values_complete [of t] by (auto simp: list_all_iff)
  let ?w = "manual_word t d s1 s2 imm"
  have w: "?w = encode spec d s1 s2 (manual_immediate t imm)"
    using manual_word_encode [OF spec(1)] manual_immediate_OR [OF assms(2)] spec(2) by simp
  have fits: "operand_fits spec (manual_immediate t imm)"
    using manual_operand_fits [OF spec(1), of d s1 s2 imm] manual_immediate_OR [OF assms(2)] assms(2) spec(2) by simp
  have wf: "spec_wf spec" using specs_wf spec(1) by (simp add: list_all_iff)
  have fmt: "spec_format spec = manual_format t" using spec_is_manual spec by (simp add: list_all_iff)
  have "decode ?w a = decode_spec ?w a spec"
    unfolding w by (rule decode_eq_spec [OF spec(1) encode_matches [OF wf fits]])
  then show ?thesis
    using assms(2) encode_immediate_roundtrip [OF wf fits, of d s1 s2] encode_rd [of spec d s1 s2] encode_rs1 [of spec d s1 s2]
      encode_rs2 [of spec d s1 s2]
    by (simp add: spec(2) decode_spec_def w [unfolded spec(2)] fmt [unfolded spec(2)] u8_take_bit manual_operands_def)
qed

theorem decode_encode_witness:
  "manual_word I_BGE 0 10 11 (- 8) = 0xFEB55CE3 \<and> itype (decode 0xFEB55CE3 0x40) = I_BGE \<and> immediate (decode 0xFEB55CE3 0x40) = - 8
   \<and> rs1 (decode 0xFEB55CE3 0x40) = 10 \<and> rs2 (decode 0xFEB55CE3 0x40) = 11"
proof -
  have w: "manual_word I_BGE 0 10 11 (- 8) = 0xFEB55CE3" by code_simp
  have "manual_operands I_BGE 0 10 11 (- 8)" by (simp add: manual_operands_def manual_format_def)
  then show ?thesis using decode_encode [of I_BGE 0 10 11 "- 8" "0x40"] by (simp add: w manual_format_def manual_immediate_def)
qed

text \<open>C12: Every immediate the decoder extracts lies in the range of its format: twelve signed bits
  for I and S, thirteen for B and twenty-one for J, both even, twenty for U; the register fields
  are below 32, so an index into the register file is always in range.\<close>

theorem decode_bounds:
  "immediate_fits f (format_immediate f w) \<and>
   unat (rd (decode w a)) < 32 \<and> unat (rs1 (decode w a)) < 32 \<and> unat (rs2 (decode w a)) < 32"
  using immediate_fits_decode decode_regs_less by blast

end
