(* ===== verification/Profiling.thy ===== *)
theory Profiling
  imports Instructions
begin

text \<open>
  The counters of \<^verbatim>\<open>lib/ProfilingInfo.h\<close> and \<^verbatim>\<open>lib/ProfilingInfo.cpp\<close>: how often each instruction
  and each register was used, and where each indirect branch went.  The arrays are functions of
  their index; the two levels of \<^verbatim>\<open>std::unordered_map\<close> are association lists with distinct keys,
  whose order stands for the unspecified iteration order of the hash maps.
\<close>

unbundle bit_operations_syntax

section \<open>State\<close>

type_synonym BranchDestinations = "(u32 \<times> u64) list"
type_synonym IndirectBranchTargets = "(u32 \<times> BranchDestinations) list"

definition RegisterCount :: u32 where "RegisterCount = 32"

record ProfilingInfo =
  appendMode :: bool
  hasLoadedExistingData :: bool
  instructionCounts :: "EInstruction \<Rightarrow> u64"
  registerAccessCounts :: "u32 \<Rightarrow> u64"
  indirectBranchTargets :: IndirectBranchTargets

definition new_ProfilingInfo :: "bool \<Rightarrow> ProfilingInfo" where
  "new_ProfilingInfo appendTo = \<lparr>appendMode = appendTo, hasLoadedExistingData = False,
     instructionCounts = (\<lambda>_. 0), registerAccessCounts = (\<lambda>_. 0), indirectBranchTargets = []\<rparr>"

section \<open>Recording\<close>

definition incrementInstructionCount :: "EInstruction \<Rightarrow> ProfilingInfo \<Rightarrow> ProfilingInfo" where
  "incrementInstructionCount t p =
     p\<lparr>instructionCounts := (instructionCounts p)(t := instructionCounts p t + 1)\<rparr>"

text \<open>\<^verbatim>\<open>map[key]\<close> followed by an update: the key is inserted with a default value if missing.\<close>

fun assoc_update :: "'k \<Rightarrow> 'v \<Rightarrow> ('v \<Rightarrow> 'v) \<Rightarrow> ('k \<times> 'v) list \<Rightarrow> ('k \<times> 'v) list" where
  "assoc_update k dflt f [] = [(k, f dflt)]"
| "assoc_update k dflt f ((k', v) # rest) =
     (if k' = k then (k', f v) # rest else (k', v) # assoc_update k dflt f rest)"

definition recordIndirectBranch :: "u32 \<Rightarrow> u32 \<Rightarrow> ProfilingInfo \<Rightarrow> ProfilingInfo" where
  "recordIndirectBranch branchAddress destinationAddress p =
     p\<lparr>indirectBranchTargets :=
        assoc_update branchAddress [] (assoc_update destinationAddress 0 (\<lambda>c. c + 1))
          (indirectBranchTargets p)\<rparr>"

definition count_register :: "bool \<Rightarrow> u32 \<Rightarrow> ProfilingInfo \<Rightarrow> ProfilingInfo" where
  "count_register used r p =
     (if used \<and> r < RegisterCount
      then p\<lparr>registerAccessCounts := (registerAccessCounts p)(r := registerAccessCounts p r + 1)\<rparr>
      else p)"

definition recordRegisterAccess :: "u8 \<Rightarrow> u32 \<Rightarrow> u32 \<Rightarrow> u32 \<Rightarrow> ProfilingInfo \<Rightarrow> ProfilingInfo" where
  "recordRegisterAccess use r1 r2 d p =
     count_register (use AND USE_RD \<noteq> 0) d
       (count_register (use AND USE_RS2 \<noteq> 0) r2
         (count_register (use AND USE_RS1 \<noteq> 0) r1 p))"

definition getIndirectBranchTargets :: "ProfilingInfo \<Rightarrow> u32 \<Rightarrow> BranchDestinations" where
  "getIndirectBranchTargets p branchAddress =
     (case map_of (indirectBranchTargets p) branchAddress of Some ds \<Rightarrow> ds | None \<Rightarrow> [])"

end
