(* ===== verification/Machine.thy ===== *)
theory Machine
  imports Memory Decoder Profiling
begin

text \<open>
  The state that guest code runs on: \<^verbatim>\<open>struct Context\<close> of \<^verbatim>\<open>lib/runtime/Context.h\<close> extended with
  what the handlers touch beside it (the host world, the exit callbacks, the diagnostics printed
  so far and the active profile), the register names of \<^verbatim>\<open>lib/runtime/registers.h\<close>, and the
  profiling hooks of \<^verbatim>\<open>emulator/Interpreter.h\<close>.
\<close>

section \<open>Context\<close>

text \<open>
  The register file is indexed by \<^verbatim>\<open>uint8_t\<close>; the decoder only produces indices below 32
  (lemma \<open>decode_regs_less\<close>), so the 32-element array and the function agree.
\<close>

record Context =
  reg :: "u8 \<Rightarrow> u32"
  pc :: u32
  memory :: Memory

text \<open>The diagnostics that engines and generated code print: what is reported and for which address or opcode.  Their wording and the format of the
  number, which differ between the interpreter and generated code, are not recorded.\<close>

datatype message =
    Unsupported_instruction u32
  | Unsupported_base_opcode u32

record 'w machine = Context +
  world :: 'w
  exitCallbacks :: "('w \<Rightarrow> 'w) list"
  messages :: "message list"
  profile :: "ProfilingInfo option"

section \<open>Registers\<close>

abbreviation (input) REG_x0 :: u8 where "REG_x0 \<equiv> 0"
abbreviation (input) REG_ra :: u8 where "REG_ra \<equiv> 1"
abbreviation (input) REG_sp :: u8 where "REG_sp \<equiv> 2"
abbreviation (input) REG_gp :: u8 where "REG_gp \<equiv> 3"
abbreviation (input) REG_s0 :: u8 where "REG_s0 \<equiv> 8"
abbreviation (input) REG_a0 :: u8 where "REG_a0 \<equiv> 10"
abbreviation (input) REG_a1 :: u8 where "REG_a1 \<equiv> 11"
abbreviation (input) REG_a2 :: u8 where "REG_a2 \<equiv> 12"
abbreviation (input) REG_a3 :: u8 where "REG_a3 \<equiv> 13"
abbreviation (input) REG_a4 :: u8 where "REG_a4 \<equiv> 14"
abbreviation (input) REG_a5 :: u8 where "REG_a5 \<equiv> 15"
abbreviation (input) REG_a7 :: u8 where "REG_a7 \<equiv> 17"

definition set_reg :: "u8 \<Rightarrow> u32 \<Rightarrow> 'w machine \<Rightarrow> 'w machine" where
  "set_reg r v m = m\<lparr>reg := (reg m)(r := v)\<rparr>"

definition print :: "message \<Rightarrow> 'w machine \<Rightarrow> 'w machine" where
  "print msg m = m\<lparr>messages := messages m @ [msg]\<rparr>"

section \<open>Profiling hooks\<close>

text \<open>
  \<open>profile m = None\<close> stands for a build without profiling or without an active profile; the
  hooks then do nothing.
\<close>

definition logInstruction :: "EInstruction \<Rightarrow> 'w machine \<Rightarrow> 'w machine" where
  "logInstruction t m = m\<lparr>profile := map_option (incrementInstructionCount t) (profile m)\<rparr>"

definition logJump :: "u32 \<Rightarrow> 'w machine \<Rightarrow> 'w machine" where
  "logJump target m = m\<lparr>profile := map_option (recordIndirectBranch (pc m) target) (profile m)\<rparr>"

definition logRegister :: "u8 \<Rightarrow> u8 \<Rightarrow> u8 \<Rightarrow> u8 \<Rightarrow> 'w machine \<Rightarrow> 'w machine" where
  "logRegister use r1 r2 d m =
     m\<lparr>profile := map_option (recordRegisterAccess use (ucast r1) (ucast r2) (ucast d)) (profile m)\<rparr>"

section \<open>Memory accesses from guest code\<close>

text \<open>Continue with the value read, or stop where the program leaves its memory.\<close>

definition load_then :: "u32 \<Rightarrow> 'v option \<Rightarrow> ('v \<Rightarrow> 'm outcome) \<Rightarrow> 'm outcome" where
  "load_then a v f = (case v of None \<Rightarrow> OutOfBounds a | Some x \<Rightarrow> f x)"

definition store_then :: "u32 \<Rightarrow> Memory option \<Rightarrow> 'w machine \<Rightarrow> 'w machine outcome" where
  "store_then a mm m = (case mm of None \<Rightarrow> OutOfBounds a | Some m' \<Rightarrow> Running (m\<lparr>memory := m'\<rparr>))"

section \<open>Elementary facts\<close>

named_theorems machine_simps "projections of updated machine states"

lemma set_reg_sel [machine_simps, simp]:
  "reg (set_reg r v m) = (reg m)(r := v)" "pc (set_reg r v m) = pc m"
  "memory (set_reg r v m) = memory m" "world (set_reg r v m) = world m"
  "exitCallbacks (set_reg r v m) = exitCallbacks m" "messages (set_reg r v m) = messages m"
  "profile (set_reg r v m) = profile m"
  by (simp_all add: set_reg_def)

lemma print_sel [machine_simps, simp]:
  "reg (print s m) = reg m" "pc (print s m) = pc m" "memory (print s m) = memory m"
  "world (print s m) = world m" "messages (print s m) = messages m @ [s]"
  "exitCallbacks (print s m) = exitCallbacks m" "profile (print s m) = profile m"
  by (simp_all add: print_def)

lemma log_sel [machine_simps, simp]:
  "reg (logInstruction t m) = reg m" "pc (logInstruction t m) = pc m"
  "memory (logInstruction t m) = memory m" "world (logInstruction t m) = world m"
  "messages (logInstruction t m) = messages m" "exitCallbacks (logInstruction t m) = exitCallbacks m"
  "reg (logJump a m) = reg m" "pc (logJump a m) = pc m"
  "memory (logJump a m) = memory m" "world (logJump a m) = world m"
  "messages (logJump a m) = messages m" "exitCallbacks (logJump a m) = exitCallbacks m"
  "reg (logRegister u r1 r2 d m) = reg m" "pc (logRegister u r1 r2 d m) = pc m"
  "memory (logRegister u r1 r2 d m) = memory m" "world (logRegister u r1 r2 d m) = world m"
  "messages (logRegister u r1 r2 d m) = messages m"
  "exitCallbacks (logRegister u r1 r2 d m) = exitCallbacks m"
  by (simp_all add: logInstruction_def logJump_def logRegister_def)

lemma obind_load_then [outcome_simps]:
  "obind (load_then a v f) g = load_then a v (\<lambda>x. obind (f x) g)"
  by (simp add: load_then_def split: option.splits)

lemma obind_store_then [outcome_simps]:
  "obind (store_then a mm m) g = load_then a mm (\<lambda>m'. g (m\<lparr>memory := m'\<rparr>))"
  by (simp add: store_then_def load_then_def split: option.splits)

lemma orunning_load_then [outcome_simps]:
  "orunning P (load_then a v f) \<longleftrightarrow> (\<forall>x. v = Some x \<longrightarrow> orunning P (f x))"
  by (simp add: load_then_def split: option.splits)

lemma orunning_store_then [outcome_simps]:
  "orunning P (store_then a mm m) \<longleftrightarrow> (\<forall>m'. mm = Some m' \<longrightarrow> P (m\<lparr>memory := m'\<rparr>))"
  by (simp add: store_then_def split: option.splits)

end
