(* ===== verification/Syscalls.thy ===== *)
theory Syscalls
  imports Machine
begin

text \<open>
  The system call layer, \<^verbatim>\<open>lib/runtime/syscall.h\<close> and \<^verbatim>\<open>lib/runtime/syscall.cpp\<close>: one definition per
  handler and the dispatcher.  The host kernel is a parameter: a record of the calls the handlers
  make, over an abstract host world.  A call returns its C result as an integer; \<open>errno\<close> is read
  from the world afterwards.  Guest ranges handed to the kernel must lie inside the guest array;
  a range that does not is \<open>OutOfBounds\<close>, because what the kernel then touches is not guest state.
  Proved here: the contract that every handler keeps (interpretation \<open>kernel\<close>), and what each of
  the calls that do more than forward their arguments computes.
\<close>

unbundle bit_operations_syntax

section \<open>The host kernel\<close>

record 'w host =
  h_errno :: "'w \<Rightarrow> int"
  h_write :: "int \<Rightarrow> u8 list \<Rightarrow> 'w \<Rightarrow> int \<times> 'w"
  h_read :: "int \<Rightarrow> nat \<Rightarrow> 'w \<Rightarrow> int \<times> u8 list \<times> 'w"
  h_openat :: "int \<Rightarrow> u8 list \<Rightarrow> u32 \<Rightarrow> 'w \<Rightarrow> int \<times> 'w"
  h_close :: "int \<Rightarrow> 'w \<Rightarrow> int \<times> 'w"
  h_statx :: "int \<Rightarrow> u8 list \<Rightarrow> int \<Rightarrow> u32 \<Rightarrow> 'w \<Rightarrow> int \<times> u8 list \<times> 'w"
  h_mmap :: "u32 \<Rightarrow> u32 \<Rightarrow> u32 \<Rightarrow> u32 \<Rightarrow> u32 \<Rightarrow> u32 \<Rightarrow> 'w \<Rightarrow> (int \<times> u8 list) option \<times> 'w"
  h_munmap :: "u32 \<Rightarrow> u32 \<Rightarrow> 'w \<Rightarrow> int \<times> 'w"
  h_clock_gettime :: "u32 \<Rightarrow> 'w \<Rightarrow> int \<times> u64 \<times> u64 \<times> 'w"
  h_execve :: "u8 list \<Rightarrow> u8 list list option \<Rightarrow> u8 list list option \<Rightarrow> 'w \<Rightarrow> (int \<times> 'w) option"
  h_fork :: "'w \<Rightarrow> int \<times> 'w"
  h_getpid :: "'w \<Rightarrow> int"
  h_assertions :: bool

text \<open>Linux constants the handlers use.\<close>

definition MAP_FIXED :: u32 where "MAP_FIXED = 0x10"
definition CLONE_VM :: u32 where "CLONE_VM = 0x100"
definition CLONE_SIGHAND :: u32 where "CLONE_SIGHAND = 0x800"
definition CLONE_THREAD :: u32 where "CLONE_THREAD = 0x10000"
definition CLONE_PARENT_SETTID :: u32 where "CLONE_PARENT_SETTID = 0x100000"
definition CLONE_CHILD_SETTID :: u32 where "CLONE_CHILD_SETTID = 0x1000000"
definition STATX_SIZE :: nat where "STATX_SIZE = 256"

section \<open>C strings and pointer arrays in guest memory\<close>

fun cstring_from :: "Memory \<Rightarrow> nat \<Rightarrow> u32 \<Rightarrow> u8 list option" where
  "cstring_from m 0 a = None"
| "cstring_from m (Suc n) a =
     (if mem_data m a = 0 then Some [] else map_option (Cons (mem_data m a)) (cstring_from m n (a + 1)))"

text \<open>The zero-terminated string at \<open>a\<close>, if the array holds its terminator.\<close>

definition cstring_at :: "Memory \<Rightarrow> u32 \<Rightarrow> u8 list option" where
  "cstring_at m a = cstring_from m (data_length - unat a) a"

text \<open>
  The loop of \<^verbatim>\<open>translatePointerArray\<close>.  Every step reads four bytes further on, so a quarter of
  the array's length (and one) is enough fuel; see \<open>pointer_array_fuel\<close>.
\<close>

fun pointer_array :: "Memory \<Rightarrow> nat \<Rightarrow> u32 \<Rightarrow> u32 list option" where
  "pointer_array m 0 a = None"
| "pointer_array m (Suc n) a =
     (case read_u32 m a of
        None \<Rightarrow> None
      | Some entry \<Rightarrow> if entry = 0 then Some [] else map_option (Cons entry) (pointer_array m n (a + 4)))"

definition pointer_array_fuel :: nat where
  "pointer_array_fuel = data_length div 4 + 1"

text \<open>\<open>Some None\<close> is the null pointer; \<open>None\<close> is an access outside the array.\<close>

definition translatePointerArray :: "Memory \<Rightarrow> u32 \<Rightarrow> u32 list option option" where
  "translatePointerArray m guestArrayAddress =
     (if guestArrayAddress = 0 then Some None
      else map_option Some (pointer_array m pointer_array_fuel guestArrayAddress))"

fun cstrings_at :: "Memory \<Rightarrow> u32 list \<Rightarrow> u8 list list option" where
  "cstrings_at m [] = Some []"
| "cstrings_at m (p # ps) =
     (case cstring_at m p of None \<Rightarrow> None | Some s \<Rightarrow> map_option (Cons s) (cstrings_at m ps))"

definition guest_strings :: "Memory \<Rightarrow> u32 \<Rightarrow> u8 list list option option" where
  "guest_strings m a =
     (case translatePointerArray m a of
        None \<Rightarrow> None
      | Some None \<Rightarrow> Some None
      | Some (Some ps) \<Rightarrow> map_option Some (cstrings_at m ps))"

section \<open>Handlers\<close>

definition handleError :: "'w host \<Rightarrow> 'w machine \<Rightarrow> 'w machine" where
  "handleError h m =
     (if sint (reg m REG_a0) < 0 then set_reg REG_a0 (- word_of_int (h_errno h (world m))) m else m)"

text \<open>Store a host result in \<^verbatim>\<open>a0\<close> and translate it if it is negative.\<close>

definition host_result :: "'w host \<Rightarrow> int \<Rightarrow> 'w \<Rightarrow> 'w machine \<Rightarrow> 'w machine" where
  "host_result h r w m = handleError h (set_reg REG_a0 (word_of_int r) (m\<lparr>world := w\<rparr>))"

definition sys_exit :: "'w host \<Rightarrow> 'w machine \<Rightarrow> 'w machine outcome" where
  "sys_exit h m =
     Exited (sint (reg m REG_a0)) (m\<lparr>world := fold (\<lambda>callback w. callback w) (exitCallbacks m) (world m)\<rparr>)"

definition sys_write :: "'w host \<Rightarrow> 'w machine \<Rightarrow> 'w machine outcome" where
  "sys_write h m =
     load_then (reg m REG_a1) (mem_read (memory m) (reg m REG_a1) (unat (reg m REG_a2)))
       (\<lambda>bytes. let (r, w) = h_write h (sint (reg m REG_a0)) bytes (world m)
                in Running (host_result h r w m))"

definition sys_read :: "'w host \<Rightarrow> 'w machine \<Rightarrow> 'w machine outcome" where
  "sys_read h m =
     (if in_bounds (reg m REG_a1) (unat (reg m REG_a2)) then
        (let (r, bytes, w) = h_read h (sint (reg m REG_a0)) (unat (reg m REG_a2)) (world m)
         in obind (store_then (reg m REG_a1)
               (mem_write (memory m) (reg m REG_a1) (take (unat (reg m REG_a2)) bytes)) m)
             (\<lambda>m'. Running (host_result h r w m')))
      else OutOfBounds (reg m REG_a1))"

fun writev_loop :: "'w host \<Rightarrow> u32 \<Rightarrow> u32 \<Rightarrow> nat \<Rightarrow> u32 \<Rightarrow> i32 \<Rightarrow> 'w machine \<Rightarrow> 'w machine outcome" where
  "writev_loop h fd iov 0 i sent m = Running (set_reg REG_a0 sent m)"
| "writev_loop h fd iov (Suc n) i sent m =
     load_then (iov + i * 8) (read_u32 (memory m) (iov + i * 8)) (\<lambda>base.
     load_then (iov + i * 8 + 4) (read_u32 (memory m) (iov + i * 8 + 4)) (\<lambda>len.
     load_then base (mem_read (memory m) base (unat len)) (\<lambda>bytes.
       let (written, w) = h_write h (sint fd) bytes (world m); m' = m\<lparr>world := w\<rparr>
       in if written < 0 then
            Running (set_reg REG_a0 (if sent = 0 then - word_of_int (h_errno h w) else sent) m')
          else if (word_of_int written :: u32) < len then
            Running (set_reg REG_a0 (sent + word_of_int written) m')
          else writev_loop h fd iov n (i + 1) (sent + word_of_int written) m')))"

definition sys_writev :: "'w host \<Rightarrow> 'w machine \<Rightarrow> 'w machine outcome" where
  "sys_writev h m =
     writev_loop h (reg m REG_a0) (reg m REG_a1) (unat (reg m REG_a2)) 0 0 m"

definition sys_brk :: "'w machine \<Rightarrow> 'w machine" where
  "sys_brk m =
     (if reg m REG_a0 = 0 \<or> reg m REG_a0 < heapBase (memory m)
      then set_reg REG_a0 (heapEnd (memory m)) m
      else if reg m REG_sp < reg m REG_a0
      then set_reg REG_a0 (heapEnd (memory m)) m
      else m\<lparr>memory := setHeapEnd (memory m) (reg m REG_a0)\<rparr>)"

text \<open>
  \<^verbatim>\<open>data\<close> is page aligned in the host, so the assertion on the host address is one on the guest
  address; it is compiled in only without \<^verbatim>\<open>NDEBUG\<close> (\<open>h_assertions\<close>).  A mapping that succeeds replaces whole pages:
  their contents are those of the mapped object, with zeroes after its end.  Pages beyond the guest array are not
  guest state, and mapping them is \<open>OutOfBounds\<close>.
\<close>

definition mapped_length :: "Memory \<Rightarrow> u32 \<Rightarrow> nat" where
  "mapped_length m len = round_up (unat (pageSize m)) (unat len)"

definition mapped_bytes :: "nat \<Rightarrow> u8 list \<Rightarrow> u8 list" where
  "mapped_bytes n bytes = take n (bytes @ replicate n 0)"

definition sys_mmap :: "'w host \<Rightarrow> 'w machine \<Rightarrow> 'w machine outcome" where
  "sys_mmap h m =
     (let placeFreely = (reg m REG_a0 = 0);
          m1 = (if placeFreely then set_reg REG_a0 (getMmapAddress (memory m) (reg m REG_a1)) m else m);
          addr = reg m1 REG_a0; len = reg m1 REG_a1
      in if h_assertions h \<and> unat addr mod unat (pageSize (memory m1)) \<noteq> 0 then Aborted
         else (case h_mmap h addr len (reg m1 REG_a2) (reg m1 REG_a3 OR MAP_FIXED) (reg m1 REG_a4)
                      (reg m1 REG_a5) (world m1) of
             (None, w) \<Rightarrow> Running (handleError h (set_reg REG_a0 (- 1) (m1\<lparr>world := w\<rparr>)))
           | (Some (host_addr, bytes), w) \<Rightarrow>
               obind (store_then addr (mem_write (memory m1) addr (mapped_bytes (mapped_length (memory m1) len) bytes)) (m1\<lparr>world := w\<rparr>))
                 (\<lambda>m2. let m3 = set_reg REG_a0 (getGuestAddress host_addr) m2;
                           m4 = (if placeFreely
                                 then m3\<lparr>memory := snd (reserveMmapSpace (memory m3) (reg m3 REG_a1))\<rparr>
                                 else m3)
                       in Running (handleError h m4))))"

text \<open>
  The kernel also takes the unmapped pages away from the emulator, so that a guest which still accesses them is
  killed; in the model they stay readable and writable.
\<close>

definition sys_munmap :: "'w host \<Rightarrow> 'w machine \<Rightarrow> 'w machine" where
  "sys_munmap h m =
     (let m1 = m\<lparr>memory := snd (freeMmapSpace (memory m) (reg m REG_a0) (reg m REG_a1))\<rparr>;
          (r, w) = h_munmap h (reg m1 REG_a0) (reg m1 REG_a1) (world m1)
      in host_result h r w m1)"

definition sys_clock_gettime64 :: "'w host \<Rightarrow> 'w machine \<Rightarrow> 'w machine outcome" where
  "sys_clock_gettime64 h m =
     (let (r, tv_sec, tv_nsec, w) = h_clock_gettime h (reg m REG_a0) (world m);
          m1 = set_reg REG_a0 (word_of_int r) (m\<lparr>world := w\<rparr>)
      in obind (store_then (reg m1 REG_a1) (write_u64 (memory m1) (reg m1 REG_a1) tv_sec) m1)
           (\<lambda>m2. obind (store_then (reg m2 REG_a1 + 8) (write_u64 (memory m2) (reg m2 REG_a1 + 8) tv_nsec) m2)
             (\<lambda>m3. Running (handleError h m3))))"

definition sys_openat :: "'w host \<Rightarrow> 'w machine \<Rightarrow> 'w machine outcome" where
  "sys_openat h m =
     load_then (reg m REG_a1) (cstring_at (memory m) (reg m REG_a1)) (\<lambda>path.
       let (r, w) = h_openat h (sint (reg m REG_a0)) path (reg m REG_a2) (world m)
       in Running (host_result h r w m))"

definition sys_close :: "'w host \<Rightarrow> 'w machine \<Rightarrow> 'w machine" where
  "sys_close h m =
     (let (r, w) = h_close h (sint (reg m REG_a0)) (world m) in host_result h r w m)"

definition sys_statx :: "'w host \<Rightarrow> 'w machine \<Rightarrow> 'w machine outcome" where
  "sys_statx h m =
     load_then (reg m REG_a1) (cstring_at (memory m) (reg m REG_a1)) (\<lambda>path.
       if in_bounds (reg m REG_a4) STATX_SIZE then
         (let (r, bytes, w) = h_statx h (sint (reg m REG_a0)) path (sint (reg m REG_a2)) (reg m REG_a3) (world m)
          in obind (store_then (reg m REG_a4)
                (mem_write (memory m) (reg m REG_a4) (take STATX_SIZE bytes)) m)
              (\<lambda>m'. Running (host_result h r w m')))
       else OutOfBounds (reg m REG_a4))"

definition sys_execve :: "'w host \<Rightarrow> 'w machine \<Rightarrow> 'w machine outcome" where
  "sys_execve h m =
     load_then (reg m REG_a0) (cstring_at (memory m) (reg m REG_a0)) (\<lambda>path.
     load_then (reg m REG_a1) (guest_strings (memory m) (reg m REG_a1)) (\<lambda>args.
     load_then (reg m REG_a2) (guest_strings (memory m) (reg m REG_a2)) (\<lambda>env.
       case h_execve h path args env (world m) of
         None \<Rightarrow> Execed m
       | Some (r, w) \<Rightarrow> Running (host_result h r w m))))"

definition sys_clone :: "'w host \<Rightarrow> 'w machine \<Rightarrow> 'w machine outcome" where
  "sys_clone h m =
     (let flags = reg m REG_a0; childStack = reg m REG_a1
      in if childStack \<noteq> 0 \<or> flags AND (CLONE_VM OR CLONE_THREAD OR CLONE_SIGHAND) \<noteq> 0
         then Running (set_reg REG_a0 (- 22) m)
         else
           (let (pid, w) = h_fork h (world m); m1 = m\<lparr>world := w\<rparr>
            in obind
              (if pid = 0 then
                 (let m2 = m1\<lparr>exitCallbacks := []\<rparr>
                  in if flags AND CLONE_CHILD_SETTID \<noteq> 0
                     then store_then (reg m2 REG_a4)
                            (write_u32 (memory m2) (reg m2 REG_a4) (word_of_int (h_getpid h w))) m2
                     else Running m2)
               else if 0 < pid \<and> flags AND CLONE_PARENT_SETTID \<noteq> 0
               then store_then (reg m1 REG_a2) (write_u32 (memory m1) (reg m1 REG_a2) (word_of_int pid)) m1
               else Running m1)
              (\<lambda>m3. Running (handleError h (set_reg REG_a0 (word_of_int pid) m3)))))"

section \<open>Dispatch\<close>

definition handle_num :: "'w host \<Rightarrow> 'w machine \<Rightarrow> u32 \<Rightarrow> 'w machine outcome" where
  "handle_num h m num =
     (if num = 56 then sys_openat h m
      else if num = 57 then Running (sys_close h m)
      else if num = 63 then sys_read h m
      else if num = 64 then sys_write h m
      else if num = 66 then sys_writev h m
      else if num = 93 \<or> num = 94 then sys_exit h m
      else if num = 96 then Running (set_reg REG_a0 0 m)
      else if num = 214 then Running (sys_brk m)
      else if num = 215 then Running (sys_munmap h m)
      else if num = 220 then sys_clone h m
      else if num = 221 then sys_execve h m
      else if num = 222 then sys_mmap h m
      else if num = 291 then sys_statx h m
      else if num = 403 then sys_clock_gettime64 h m
      else Running (set_reg REG_a0 (- 22) m))"

definition handle :: "'w host \<Rightarrow> 'w machine \<Rightarrow> 'w machine outcome" where
  "handle h m = handle_num h m (reg m REG_a7)"

section \<open>What a service promises\<close>

text \<open>The allocator's invariant and a heap that does not end before it starts.\<close>

definition memory_ok :: "Memory \<Rightarrow> bool" where
  "memory_ok m \<longleftrightarrow> arena_ok m (mappedAreas m) \<and> heapBase m \<le> heapEnd m"

text \<open>A system call returns to where it was called from and changes no register but \<^verbatim>\<open>a0\<close>.\<close>

definition syscall_frame :: "'w machine \<Rightarrow> 'w machine \<Rightarrow> bool" where
  "syscall_frame m m' \<longleftrightarrow> pc m' = pc m \<and> (\<forall>r. r \<noteq> REG_a0 \<longrightarrow> reg m' r = reg m r)
     \<and> messages m' = messages m \<and> profile m' = profile m"

definition syscall_step :: "'w machine \<Rightarrow> 'w machine \<Rightarrow> bool" where
  "syscall_step m m' \<longleftrightarrow> syscall_frame m m' \<and> (memory_ok (memory m) \<longrightarrow> memory_ok (memory m'))"

definition machine_ok :: "'w machine \<Rightarrow> bool" where
  "machine_ok m \<longleftrightarrow> reg m REG_x0 = 0 \<and> memory_ok (memory m)"

text \<open>\<^verbatim>\<open>mmap(2)\<close>: the call fails with \<^verbatim>\<open>EINVAL\<close> if the length is zero.\<close>

definition mmap_rejects_empty :: "'w host \<Rightarrow> bool" where
  "mmap_rejects_empty h \<longleftrightarrow> (\<forall>a p f fd off w. fst (h_mmap h a 0 p f fd off w) = None)"

text \<open>The buffers that an \<^verbatim>\<open>iovec\<close> array of the guest describes.\<close>

fun iovec_buffers :: "Memory \<Rightarrow> u32 \<Rightarrow> u32 \<Rightarrow> nat \<Rightarrow> u8 list list option" where
  "iovec_buffers m iov i 0 = Some []"
| "iovec_buffers m iov i (Suc n) =
     (case (read_u32 m (iov + i * 8), read_u32 m (iov + i * 8 + 4)) of
        (Some base, Some len) \<Rightarrow>
          (case mem_read m base (unat len) of
             Some bytes \<Rightarrow> map_option (Cons bytes) (iovec_buffers m iov (i + 1) n)
           | None \<Rightarrow> None)
      | _ \<Rightarrow> None)"

text \<open>A host that keeps the bytes written to it and supports nothing else but mapping zeroes.\<close>

definition recording_host :: "u8 list host" where
  "recording_host = \<lparr>h_errno = (\<lambda>_. 9),
     h_write = (\<lambda>fd bs w. (int (length bs), w @ bs)), h_read = (\<lambda>fd n w. (- 1, [], w)),
     h_openat = (\<lambda>fd p f w. (- 1, w)), h_close = (\<lambda>fd w. (- 1, w)),
     h_statx = (\<lambda>fd p f k w. (- 1, [], w)),
     h_mmap = (\<lambda>a l p f fd off w. (if l = 0 then None else Some (getHostAddress a, replicate (unat l) 0), w)),
     h_munmap = (\<lambda>a l w. (0, w)), h_clock_gettime = (\<lambda>c w. (- 1, 0, 0, w)),
     h_execve = (\<lambda>p a e w. Some (- 1, w)), h_fork = (\<lambda>w. (- 1, w)), h_getpid = (\<lambda>w. 1),
     h_assertions = True\<rparr>"

definition boot_machine :: "Memory \<Rightarrow> (u8 \<Rightarrow> u32) \<Rightarrow> u8 list machine" where
  "boot_machine mem regs = \<lparr>reg = regs, pc = 0, memory = mem, world = [],
     exitCallbacks = [], messages = [], profile = None\<rparr>"

text \<open>A guest about to write \<open>Hey\<close> and \<open>!\<close> with one \<^verbatim>\<open>writev\<close>.\<close>

definition writev_demo :: "u8 list machine" where
  "writev_demo = boot_machine
     (new_Memory\<lparr>mem_data := (\<lambda>_. 0)(0 := 0x20, 4 := 3, 8 := 0x23, 12 := 2,
        0x20 := 72, 0x21 := 101, 0x22 := 121, 0x23 := 33, 0x24 := 10)\<rparr>)
     ((\<lambda>_. 0)(REG_a7 := 66, REG_a0 := 1, REG_a2 := 2))"

section \<open>Every handler keeps the contract\<close>

lemma handleError_sel [simp]:
  "pc (handleError h m) = pc m" "memory (handleError h m) = memory m" "world (handleError h m) = world m"
  "messages (handleError h m) = messages m" "profile (handleError h m) = profile m"
  "exitCallbacks (handleError h m) = exitCallbacks m"
  "r \<noteq> REG_a0 \<Longrightarrow> reg (handleError h m) r = reg m r"
  by (simp_all add: handleError_def)

lemma host_result_sel [simp]:
  "pc (host_result h x w m) = pc m" "memory (host_result h x w m) = memory m" "world (host_result h x w m) = w"
  "messages (host_result h x w m) = messages m" "profile (host_result h x w m) = profile m"
  "exitCallbacks (host_result h x w m) = exitCallbacks m"
  "r \<noteq> REG_a0 \<Longrightarrow> reg (host_result h x w m) r = reg m r"
  by (simp_all add: host_result_def)

lemma memory_ok_write: "mem_write m a bs = Some m' \<Longrightarrow> memory_ok m' = memory_ok m"
  using mem_write_frame [of m a bs m']
  by (simp add: memory_ok_def arena_ok_def area_ok_def [abs_def] page_ok_def)

lemma memory_ok_typed_write:
  "write_u8 m a v = Some m' \<Longrightarrow> memory_ok m' = memory_ok m"
  "write_u16 m a v = Some m' \<Longrightarrow> memory_ok m' = memory_ok m"
  "write_u32 m a v = Some m' \<Longrightarrow> memory_ok m' = memory_ok m"
  "write_u64 m a v64 = Some m' \<Longrightarrow> memory_ok m' = memory_ok m"
  by (simp_all add: write_defs memory_ok_write)

lemma memory_ok_free: "memory_ok m \<Longrightarrow> memory_ok (snd (freeMmapSpace m a sz))"
  using arena_step_ok [of m "Free a sz"]
  by (auto simp: memory_ok_def freeMmapSpace_def split: option.splits)

lemma memory_ok_reserve:
  "memory_ok m \<Longrightarrow> 0 < sz \<Longrightarrow> sz < 0xFFF00000 \<Longrightarrow> memory_ok (snd (reserveMmapSpace m sz))"
  using arena_step_ok [of m "Reserve sz"]
  by (auto simp: memory_ok_def reserveMmapSpace_def Let_def)

lemma memory_ok_setHeapEnd: "memory_ok m \<Longrightarrow> heapBase m \<le> a \<Longrightarrow> memory_ok (setHeapEnd m a)"
  by (simp add: memory_ok_def setHeapEnd_def arena_ok_def area_ok_def [abs_def] page_ok_def)

named_theorems syscall_rules "every handler keeps the frame and the memory invariant"

lemmas syscall_step_simps = syscall_step_def syscall_frame_def outcome_simps Let_def
  memory_ok_write memory_ok_typed_write memory_ok_free

lemma step_write [syscall_rules]: "orunning (syscall_step m) (sys_write h m)"
  by (simp add: sys_write_def syscall_step_simps split: prod.splits)

lemma step_read [syscall_rules]: "orunning (syscall_step m) (sys_read h m)"
  by (auto simp: sys_read_def syscall_step_simps split: prod.splits)

lemma step_writev_loop: "syscall_step m0 m \<Longrightarrow> orunning (syscall_step m0) (writev_loop h fd iov n i sent m)"
proof (induction n arbitrary: i sent m)
  case 0
  then show ?case by (simp add: syscall_step_simps)
next
  case (Suc n)
  have "syscall_step m0 (m\<lparr>world := w\<rparr>)" "syscall_step m0 (set_reg REG_a0 v (m\<lparr>world := w\<rparr>))" for w v
    using Suc.prems by (simp_all add: syscall_step_def syscall_frame_def)
  then show ?case by (simp add: outcome_simps Suc.IH Let_def split: prod.splits)
qed

lemma step_writev [syscall_rules]: "orunning (syscall_step m) (sys_writev h m)"
  unfolding sys_writev_def by (rule step_writev_loop) (simp add: syscall_step_simps)

lemma step_brk [syscall_rules]: "syscall_step m (sys_brk m)"
  by (simp add: sys_brk_def syscall_step_simps memory_ok_setHeapEnd not_less)

lemma step_munmap [syscall_rules]: "syscall_step m (sys_munmap h m)"
  by (simp add: sys_munmap_def syscall_step_simps split: prod.splits)

lemma step_clock_gettime64 [syscall_rules]: "orunning (syscall_step m) (sys_clock_gettime64 h m)"
  by (auto simp: sys_clock_gettime64_def syscall_step_simps split: prod.splits)

lemma step_openat [syscall_rules]: "orunning (syscall_step m) (sys_openat h m)"
  by (simp add: sys_openat_def syscall_step_simps split: prod.splits)

lemma step_close [syscall_rules]: "syscall_step m (sys_close h m)"
  by (simp add: sys_close_def syscall_step_simps split: prod.splits)

lemma step_statx [syscall_rules]: "orunning (syscall_step m) (sys_statx h m)"
  by (auto simp: sys_statx_def syscall_step_simps split: prod.splits)

lemma step_execve [syscall_rules]: "orunning (syscall_step m) (sys_execve h m)"
  by (auto simp: sys_execve_def syscall_step_simps split: prod.splits option.splits)

lemma step_clone [syscall_rules]: "orunning (syscall_step m) (sys_clone h m)"
  by (auto simp: sys_clone_def syscall_step_simps split: prod.splits)

lemma frame_mmap: "orunning (syscall_frame m) (sys_mmap h m)"
  by (auto simp: sys_mmap_def syscall_step_simps split: prod.splits option.splits)

lemma in_bounds_small: "in_bounds a (unat sz) \<Longrightarrow> sz < (0xFFF00000 :: u32)"
  by (simp add: in_bounds_def data_length_eq word_less_nat_alt)

lemma length_mapped_bytes [simp]: "length (mapped_bytes n bs) = n"
  by (simp add: mapped_bytes_def)

lemma mapped_length_ge: "memory_ok m \<Longrightarrow> unat len \<le> mapped_length m len"
  unfolding mapped_length_def by (rule round_up_ge) (simp add: memory_ok_def arena_ok_def pageSize_pos)

lemma mapping_small:
  assumes "memory_ok m" "mem_write m a (mapped_bytes (mapped_length m len) bs) = Some m'"
  shows "len < 0xFFF00000"
proof -
  have "in_bounds a (mapped_length m len)" using assms(2) mem_write_eq_None [of m a "mapped_bytes (mapped_length m len) bs"] by simp
  then show ?thesis using mapped_length_ge [OF assms(1), of len] in_bounds_small [of a len] by (simp add: in_bounds_def)
qed

lemma mapping_reserve:
  assumes "memory_ok m" "mem_write m a (mapped_bytes (mapped_length m len) bs) = Some m'" "0 < len"
  shows "memory_ok (snd (reserveMmapSpace m' len))"
  using mapping_small [OF assms(1,2)] memory_ok_write [OF assms(2)] assms(1,3) by (simp add: memory_ok_reserve)

lemma keeps_mmap:
  assumes "mmap_rejects_empty h" "memory_ok (memory m)"
  shows "orunning (\<lambda>m'. memory_ok (memory m')) (sys_mmap h m)"
proof -
  have "0 < l" if "h_mmap h a l p f fd off w = (Some x, w')" for a l p f fd off w x w'
    using assms(1) that by (metis fst_conv mmap_rejects_empty_def option.distinct(1) word_gt_0)
  with assms(2) show ?thesis
    by (auto simp: sys_mmap_def syscall_step_simps intro: mapping_reserve split: prod.splits option.splits)
qed


lemma step_simple [syscall_rules]: "syscall_step m (set_reg REG_a0 v m)" 
  by (simp add: syscall_step_simps)

lemma step_handle_num: "num \<noteq> 222 \<Longrightarrow> orunning (syscall_step m) (handle_num h m num)"
  unfolding handle_num_def orunning_if by (simp add: syscall_rules sys_exit_def)

lemma handle_num_mmap: "handle_num h m 222 = sys_mmap h m"
  by (simp add: handle_num_def)

lemma handle_num_frame: "orunning (syscall_frame m) (handle_num h m num)"
proof (cases "num = 222")
  case True
  then show ?thesis by (simp add: handle_num_mmap frame_mmap)
next
  case False
  from step_handle_num [OF this] show ?thesis by (rule orunning_mono) (simp add: syscall_step_def)
qed

lemma handle_num_keeps:
  assumes "mmap_rejects_empty h" "memory_ok (memory m)"
  shows "orunning (\<lambda>m'. memory_ok (memory m')) (handle_num h m num)"
proof (cases "num = 222")
  case True
  then show ?thesis by (simp add: handle_num_mmap keeps_mmap assms)
next
  case False
  from step_handle_num [OF this] show ?thesis by (rule orunning_mono) (simp add: syscall_step_def assms(2))
qed

lemma handle_num_unknown:
  "num \<notin> {56, 57, 63, 64, 66, 93, 94, 96, 214, 215, 220, 221, 222, 291, 403} \<Longrightarrow>
   handle_num h m num = Running (set_reg REG_a0 (- 22) m)"
  by (simp add: handle_num_def)


lemma writev_loop_full:
  assumes full: "\<And>bs w. h_write h (sint fd) bs w = (int (length bs), out bs w)"
    and "iovec_buffers (memory m) iov i n = Some bufs"
  shows "writev_loop h fd iov n i sent m =
    Running (set_reg REG_a0 (sent + of_nat (length (concat bufs))) (m\<lparr>world := fold out bufs (world m)\<rparr>))"
  using assms(2)
proof (induction n arbitrary: i sent m bufs)
  case 0
  then show ?case by (simp add: set_reg_def)
next
  case (Suc n)
  then obtain base len bytes rest where
    r: "read_u32 (memory m) (iov + i * 8) = Some base" "read_u32 (memory m) (iov + i * 8 + 4) = Some len"
      "mem_read (memory m) base (unat len) = Some bytes"
      "iovec_buffers (memory m) iov (i + 1) n = Some rest" "bufs = bytes # rest"
    by (auto split: option.splits)
  moreover have "length bytes = unat len" using r(3) by (rule length_mem_read)
  ultimately show ?case
    using Suc.IH [of "m\<lparr>world := out bytes (world m)\<rparr>" "i + 1" rest "sent + len"]
    by (simp add: load_then_def full algebra_simps)
qed


lemma getMmapAddress_bounds:
  assumes "memory_ok m"
  shows "unat (pageSize m) dvd unat (getMmapAddress m sz)" "unat (getMmapAddress m sz) \<le> data_length"
    "DATA_SIZE \<le> getMmapAddress m sz" "0 \<le> sint (getMmapAddress m sz)"
proof -
  show *: "unat (pageSize m) dvd unat (getMmapAddress m sz)" "unat (getMmapAddress m sz) \<le> data_length"
    "DATA_SIZE \<le> getMmapAddress m sz"
    using mmap_scan_fresh [of m "mappedAreas m" sz] assms by (simp_all add: memory_ok_def getMmapAddress_def)
  have "int (unat (getMmapAddress m sz)) \<le> int data_length" using *(2) by (rule of_nat_mono)
  then have "uint (getMmapAddress m sz) \<le> 0x100000" by (simp only: data_length_eq uint_nat)
  then have "sint (getMmapAddress m sz) = uint (getMmapAddress m sz)"
    unfolding sint_uint by (intro signed_take_bit_int_eq_self) (simp_all add: order.trans [OF _ uint_ge_0])
  then show "0 \<le> sint (getMmapAddress m sz)" by simp
qed

lemma reserve_result:
  assumes "memory_ok m" "0 < sz" "in_bounds (getMmapAddress m sz) (unat sz)"
  shows "set (mappedAreas (snd (reserveMmapSpace m sz))) =
    insert \<lparr>area_base = getMmapAddress m sz, area_size = sz\<rparr> (set (mappedAreas m))"
proof -
  have "fst (reserveMmapSpace m sz)"
    using reserve_arena_ok(1) [of m sz] assms by (simp add: memory_ok_def in_bounds_def)
  then show ?thesis
    by (auto simp: reserveMmapSpace_def Let_def split: if_splits)
qed


text \<open>A block at the address the allocator picks can be rounded up to whole pages: it stays in the arena and apart from the areas.\<close>

lemma whole_pages:
  assumes "memory_ok m"
  shows "in_bounds (getMmapAddress m sz) (unat sz) \<Longrightarrow> in_bounds (getMmapAddress m sz) (mapped_length m sz)"
    and "area \<in> set (mappedAreas m) \<Longrightarrow>
      disjoint_ranges (getMmapAddress m sz) (mapped_length m sz) (area_base area) (unat (area_size area))"
proof -
  let ?a = "getMmapAddress m sz" and ?p = "unat (pageSize m)"
  have ok: "arena_ok m (mappedAreas m)" "page_ok m" using assms by (simp_all add: memory_ok_def arena_ok_def)
  have up: "unat ?a + mapped_length m sz \<le> y" if "?p dvd y" "unat ?a + unat sz \<le> y" for y
  proof -
    have d: "?p dvd unat ?a" using getMmapAddress_bounds(1) [OF assms] .
    have "mapped_length m sz \<le> y - unat ?a"
      unfolding mapped_length_def by (rule round_up_le) (use that d pageSize_pos [OF ok(2)] in \<open>auto intro: dvd_diff_nat\<close>)
    then show ?thesis using that(2) by linarith
  qed
  show "in_bounds ?a (unat sz) \<Longrightarrow> in_bounds ?a (mapped_length m sz)"
    using up pageSize_dvd(2) [OF ok(2)] by (simp add: in_bounds_def)
  assume area: "area \<in> set (mappedAreas m)"
  then have "?p dvd unat (area_base area)" using ok(1) by (auto simp: arena_ok_def list_all_iff area_ok_def)
  moreover have "area_end area \<le> unat ?a \<or> unat ?a + unat sz \<le> unat (area_base area)"
    using mmap_scan_fresh [OF ok(1), of sz] area by (simp add: getMmapAddress_def)
  ultimately show "disjoint_ranges ?a (mapped_length m sz) (area_base area) (unat (area_size area))"
    using up by (auto simp: disjoint_ranges_def area_end_def)
qed

lemma mmap_scan_frame: "pageSize m' = pageSize m \<Longrightarrow> mmap_scan m' sz areas = mmap_scan m sz areas"
  by (induction m sz areas rule: mmap_scan.induct) (simp_all add: previousEnd_def pageAlignAddress_def)

lemma mmap_place_freely:
  fixes m :: "'w machine"
  defines "a \<equiv> getMmapAddress (memory m) (reg m REG_a1)"
  assumes ok: "memory_ok (memory m)" and free: "reg m REG_a0 = 0" and pos: "0 < reg m REG_a1"
    and host: "h_mmap h a (reg m REG_a1) (reg m REG_a2) (reg m REG_a3 OR MAP_FIXED) (reg m REG_a4)
          (reg m REG_a5) (world m) = (Some (getHostAddress a, bytes), w)"
    and "mem_write (memory m) a (mapped_bytes (mapped_length (memory m) (reg m REG_a1)) bytes) = Some mm"
  shows "sys_mmap h m = Running ((set_reg REG_a0 a m)\<lparr>memory := snd (reserveMmapSpace mm (reg m REG_a1)), world := w\<rparr>)"
    (is "_ = Running ?m'")
proof -
  have "\<not> sint a < 0" "unat a mod unat (pageSize (memory m)) = 0"
    using getMmapAddress_bounds [OF ok, of "reg m REG_a1"] by (auto simp: a_def)
  with assms show ?thesis
    by (simp add: sys_mmap_def Let_def store_then_def getGuestAddress_def getHostAddress_def handleError_def flip: a_def)
qed

lemmas mem_eval = read_u32_def mem_read_def in_bounds_def data_length_eq upt_rec

lemma recording_host_sel [simp]:
  "h_write recording_host fd bs w = (int (length bs), w @ bs)"
  "h_mmap recording_host a l p f k off w =
     (if l = 0 then None else Some (getHostAddress a, replicate (unat l) 0), w)"
  by (simp_all add: recording_host_def)

lemma boot_machine_sel [simp]:
  "reg (boot_machine mem r) = r" "memory (boot_machine mem r) = mem" "world (boot_machine mem r) = []"
  by (simp_all add: boot_machine_def)

lemma host_result_value:
  "0 \<le> r \<Longrightarrow> r < 2 ^ 31 \<Longrightarrow> reg (host_result h r w m) REG_a0 = word_of_int r"
  "reg (host_result h (- 1) w m) REG_a0 = - word_of_int (h_errno h w)"
proof -
  assume "0 \<le> r" "r < 2 ^ 31"
  then have "sint (word_of_int r :: u32) = r"
    by (simp add: sint_sbintrunc' signed_take_bit_int_eq_self)
  with \<open>0 \<le> r\<close> show "reg (host_result h r w m) REG_a0 = word_of_int r"
    by (simp add: host_result_def handleError_def)
qed (simp add: host_result_def handleError_def)

lemma in_bounds_step:
  assumes "in_bounds a 4" "in_bounds (a + 4) 4"
  shows "unat (a + 4) = unat a + 4"
  using assms by (simp add: in_bounds_def data_length_eq unat_word_ariths)

lemma read_u32_in_bounds: "read_u32 m a = Some v \<Longrightarrow> in_bounds a 4"
  by (simp add: read_u32_def mem_read_def split: if_splits)

lemma pointer_array_complete:
  assumes "\<And>i. i < length es \<Longrightarrow> read_u32 m (a + of_nat (4 * i)) = Some (es ! i) \<and> es ! i \<noteq> 0"
    and "read_u32 m (a + of_nat (4 * length es)) = Some 0"
    and "data_length < unat a + 4 * n"
  shows "pointer_array m n a = Some es"
  using assms
proof (induction es arbitrary: a n)
  case Nil
  then have "in_bounds a 4" using read_u32_in_bounds [of m a 0] by simp
  with Nil show ?case by (cases n) (simp_all add: in_bounds_def)
next
  case (Cons e es)
  have e: "read_u32 m a = Some e" "e \<noteq> 0" using Cons.prems(1) [of 0] by simp_all
  have tail: "read_u32 m (a + 4 + of_nat (4 * i)) = Some (es ! i) \<and> es ! i \<noteq> 0" if "i < length es" for i
    using Cons.prems(1) [of "Suc i"] that by (simp add: algebra_simps)
  have last: "read_u32 m (a + 4 + of_nat (4 * length es)) = Some 0"
    using Cons.prems(2) by (simp add: algebra_simps)
  have "\<exists>v. read_u32 m (a + 4) = Some v"
    using tail [of 0] last by (cases es) simp_all
  then have "unat (a + 4) = unat a + 4"
    using e read_u32_in_bounds in_bounds_step by blast
  moreover obtain k where n: "n = Suc k"
    using Cons.prems(3) read_u32_in_bounds [OF e(1)] by (cases n) (auto simp: in_bounds_def)
  ultimately have "pointer_array m k (a + 4) = Some es"
    using Cons.IH [of "a + 4" k, OF tail last] Cons.prems(3) by simp
  with e n show ?case by simp
qed

section \<open>Interface: a part of the machine that system calls do not see\<close>

text \<open>
  A change of the machine that the handlers neither read nor write: they commute with it.
\<close>

locale unseen_update =
  fixes f :: "'w machine \<Rightarrow> 'w machine"
  assumes reads: "reg (f m) = reg m" "memory (f m) = memory m" "world (f m) = world m" "exitCallbacks (f m) = exitCallbacks m"
    and writes: "(f m)\<lparr>reg := r\<rparr> = f (m\<lparr>reg := r\<rparr>)" "(f m)\<lparr>memory := mem\<rparr> = f (m\<lparr>memory := mem\<rparr>)"
      "(f m)\<lparr>world := w\<rparr> = f (m\<lparr>world := w\<rparr>)" "(f m)\<lparr>exitCallbacks := cb\<rparr> = f (m\<lparr>exitCallbacks := cb\<rparr>)"
begin

lemma basics:
  "set_reg r v (f m) = f (set_reg r v m)" "handleError h (f m) = f (handleError h m)"
  "host_result h x w (f m) = f (host_result h x w m)"
  "omap f (load_then a y k) = load_then a y (\<lambda>z. omap f (k z))" "store_then a mem (f m) = omap f (store_then a mem m)"
  by (simp_all add: set_reg_def handleError_def host_result_def reads writes load_then_def store_then_def split: option.splits)

lemma writev_unseen: "writev_loop h fd iov n i sent (f m) = omap f (writev_loop h fd iov n i sent m)"
proof (induction n arbitrary: i sent m)
  case (Suc n)
  show ?case
    by (simp add: basics reads writes Suc load_then_def Let_def split: prod.splits option.splits)
qed (simp add: basics)

lemma handlers_unseen:
  "sys_openat h (f m) = omap f (sys_openat h m)" "sys_close h (f m) = f (sys_close h m)"
  "sys_read h (f m) = omap f (sys_read h m)" "sys_write h (f m) = omap f (sys_write h m)"
  "sys_writev h (f m) = omap f (sys_writev h m)" "sys_exit h (f m) = omap f (sys_exit h m)"
  "sys_brk (f m) = f (sys_brk m)" "sys_munmap h (f m) = f (sys_munmap h m)"
  subgoal by (simp add: sys_openat_def basics reads writes load_then_def split: prod.splits option.splits)
  subgoal by (simp add: sys_close_def basics reads writes split: prod.splits)
  subgoal by (simp add: sys_read_def basics reads writes store_then_def split: prod.splits option.splits)
  subgoal by (simp add: sys_write_def basics reads writes load_then_def split: prod.splits option.splits)
  subgoal by (simp add: sys_writev_def reads writev_unseen)
  subgoal by (simp add: sys_exit_def reads writes)
  subgoal by (simp add: sys_brk_def basics reads writes)
  subgoal by (simp add: sys_munmap_def basics reads writes Let_def split: prod.splits)
  done

lemma more_handlers_unseen:
  "sys_clone h (f m) = omap f (sys_clone h m)" "sys_execve h (f m) = omap f (sys_execve h m)"
  "sys_mmap h (f m) = omap f (sys_mmap h m)" "sys_statx h (f m) = omap f (sys_statx h m)"
  "sys_clock_gettime64 h (f m) = omap f (sys_clock_gettime64 h m)"
  subgoal by (simp add: sys_clone_def basics reads writes store_then_def Let_def split: prod.splits option.splits)
  subgoal by (simp add: sys_execve_def basics reads writes load_then_def split: prod.splits option.splits)
  subgoal by (simp add: sys_mmap_def basics reads writes store_then_def Let_def split: prod.splits option.splits)
  subgoal by (simp add: sys_statx_def basics reads writes load_then_def store_then_def split: prod.splits option.splits)
  subgoal by (simp add: sys_clock_gettime64_def basics reads writes store_then_def Let_def split: prod.splits option.splits)
  done

lemma handle_num_unseen: "handle_num h (f m) n = omap f (handle_num h m n)"
  unfolding handle_num_def by (simp add: handlers_unseen more_handlers_unseen basics)

lemma handle_unseen: "handle h (f m) = omap f (handle h m)"
  by (simp add: handle_def reads handle_num_unseen)

end

interpretation pc_unseen: unseen_update "\<lambda>m. m\<lparr>pc := x\<rparr>" for x
  by unfold_locales simp_all

interpretation profile_unseen: unseen_update "\<lambda>m. m\<lparr>profile := p\<rparr>" for p
  by unfold_locales simp_all

section \<open>Interface: a service that guest code calls\<close>

text \<open>
  What the execution engines rely on when they hand control to a system service: it returns to the
  caller, leaves every register but \<^verbatim>\<open>a0\<close> alone, and keeps the memory invariant if the host is
  to be trusted.
\<close>

locale system_service =
  fixes call :: "'w machine \<Rightarrow> 'w machine outcome"
    and trusted :: bool
  assumes frame: "orunning (syscall_frame m) (call m)"
    and keeps: "trusted \<Longrightarrow> memory_ok (memory m) \<Longrightarrow> orunning (\<lambda>m'. memory_ok (memory m')) (call m)"
begin

lemma pc_kept: "call m = Running m' \<Longrightarrow> pc m' = pc m"
  using frame [of m] by (simp add: syscall_frame_def)

lemma memory_kept: "trusted \<Longrightarrow> memory_ok (memory m) \<Longrightarrow> call m = Running m' \<Longrightarrow> memory_ok (memory m')"
  using keeps [of m] by simp

lemma machine_ok_kept: "trusted \<Longrightarrow> machine_ok m \<Longrightarrow> call m = Running m' \<Longrightarrow> machine_ok m'"
  using frame [of m] keeps [of m] by (simp add: machine_ok_def syscall_frame_def)

end

interpretation kernel: system_service "handle h" "mmap_rejects_empty h" for h :: "'w host"
  by unfold_locales (simp_all add: handle_def handle_num_frame handle_num_keeps)

section \<open>Properties\<close>

text \<open>C22: A system call, whichever it is, comes back to its caller: the program counter, all
  registers but \<^verbatim>\<open>a0\<close>, the diagnostics and the profile are as before; and if the host rejects
  empty mappings, the allocator's areas stay disjoint and the heap stays above its base.\<close>

theorem handle_contract:
  assumes "handle h m = Running m'"
  shows "syscall_frame m m' \<and> (mmap_rejects_empty h \<and> machine_ok m \<longrightarrow> machine_ok m')"
  using kernel.frame [of m h] kernel.machine_ok_kept [of h m m'] assms by auto

theorem handle_contract_witness:
  "\<exists>m'. handle recording_host (boot_machine new_Memory ((\<lambda>_. 0)(REG_a7 := 222, REG_a1 := 0x2000))) = Running m'
     \<and> machine_ok m'"
proof -
  let ?m = "boot_machine new_Memory ((\<lambda>_. 0)(REG_a7 := 222, REG_a1 := 0x2000))"
  have ok: "memory_ok new_Memory" by code_simp
  have "getMmapAddress new_Memory 0x2000 = 0x80000" by code_simp
  then have "\<exists>m'. handle recording_host ?m = Running m'"
    by (simp add: handle_def handle_num_def sys_mmap_def Let_def boot_machine_def recording_host_def
        new_Memory_def set_reg_def in_bounds_def data_length_eq store_then_def mem_write_def mapped_length_def round_up_def)
  then obtain m' where m': "handle recording_host ?m = Running m'" by blast
  have "mmap_rejects_empty recording_host" by (simp add: mmap_rejects_empty_def recording_host_def)
  moreover have "machine_ok ?m" using ok by (simp add: machine_ok_def boot_machine_def)
  ultimately show ?thesis using handle_contract [OF m'] m' by blast
qed

text \<open>C27: Numbers outside the table of supported calls are answered with \<^verbatim>\<open>-EINVAL\<close> and have no
  other effect; \<^verbatim>\<open>clone\<close> requests with a stack of their own or with shared memory, signal handlers
  or threads are refused the same way, before the host is asked.\<close>

theorem unsupported_syscalls:
  "(reg m REG_a7 \<notin> {56, 57, 63, 64, 66, 93, 94, 96, 214, 215, 220, 221, 222, 291, 403} \<longrightarrow>
      handle h m = Running (set_reg REG_a0 (- 22) m)) \<and>
   (reg m REG_a7 = 220 \<and> (reg m REG_a1 \<noteq> 0 \<or> bit (reg m REG_a0) 8 \<or> bit (reg m REG_a0) 11 \<or> bit (reg m REG_a0) 16) \<longrightarrow>
      handle h m = Running (set_reg REG_a0 (- 22) m))"
proof -
  have "f AND (CLONE_VM OR CLONE_THREAD OR CLONE_SIGHAND) \<noteq> 0" if "bit f 8 \<or> bit f 11 \<or> bit f 16" for f :: u32
  proof
    assume "f AND (CLONE_VM OR CLONE_THREAD OR CLONE_SIGHAND) = 0"
    then have "\<not> bit (f AND 0x10900) n" for n
      by (simp add: CLONE_VM_def CLONE_THREAD_def CLONE_SIGHAND_def)
    from this [of 8] this [of 11] this [of 16] that show False by (simp add: bit_simps)
  qed
  then show ?thesis
    by (auto simp: handle_def handle_num_unknown) (auto simp: handle_num_def sys_clone_def Let_def)
qed

theorem unsupported_syscalls_witness:
  "handle recording_host (boot_machine new_Memory ((\<lambda>_. 0)(REG_a7 := 462)))
     = Running (set_reg REG_a0 (- 22) (boot_machine new_Memory ((\<lambda>_. 0)(REG_a7 := 462))))"
  using unsupported_syscalls [of "boot_machine new_Memory ((\<lambda>_. 0)(REG_a7 := 462))" recording_host]
  by (simp add: boot_machine_def)

text \<open>C26: Whatever the guest asks of \<^verbatim>\<open>brk\<close>, the answer is the current end of the heap, and the end
  only ever moves to an address the guest asked for that is neither below the base of the heap nor
  above the stack pointer; no guest memory changes.\<close>

theorem brk_contract:
  "reg (sys_brk m) REG_a0 = heapEnd (memory (sys_brk m)) \<and>
   (heapEnd (memory (sys_brk m)) = heapEnd (memory m) \<or>
    heapEnd (memory (sys_brk m)) = reg m REG_a0 \<and> heapBase (memory m) \<le> reg m REG_a0 \<and> reg m REG_a0 \<le> reg m REG_sp) \<and>
   (memory (sys_brk m))\<lparr>heapEnd := 0\<rparr> = (memory m)\<lparr>heapEnd := 0\<rparr>"
  by (auto simp: sys_brk_def setHeapEnd_def)

text \<open>C24: On a host that writes all it is given, \<^verbatim>\<open>writev\<close> hands the guest's buffers to the host in
  the order of the vector and returns the number of bytes of all of them together.\<close>

theorem writev_writes_all:
  assumes "\<And>bs w. h_write h (sint (reg m REG_a0)) bs w = (int (length bs), out bs w)"
    and "iovec_buffers (memory m) (reg m REG_a1) 0 (unat (reg m REG_a2)) = Some bufs"
    and "reg m REG_a7 = 66"
  shows "handle h m = Running (set_reg REG_a0 (of_nat (length (concat bufs)))
           (m\<lparr>world := fold out bufs (world m)\<rparr>))"
  using writev_loop_full [OF assms(1,2), of 0] assms(3)
  by (simp add: handle_def handle_num_def sys_writev_def)

theorem writev_writes_all_witness:
  "\<exists>m'. handle recording_host writev_demo = Running m' \<and> reg m' REG_a0 = 5
     \<and> world m' = [72, 101, 121, 33, 10]"
proof -
  have bufs: "iovec_buffers (memory writev_demo) (reg writev_demo REG_a1) 0 (unat (reg writev_demo REG_a2))
      = Some [[72, 101, 121], [33, 10]]"
  proof -
    let ?m = "memory writev_demo"
    have "read_u32 ?m 0 = Some 0x20" "read_u32 ?m 4 = Some 3" "read_u32 ?m 8 = Some 0x23" "read_u32 ?m 12 = Some 2"
      by (simp_all add: writev_demo_def mem_eval)
    moreover have "mem_read ?m 0x20 3 = Some [72, 101, 121]" "mem_read ?m 0x23 2 = Some [33, 10]"
      by (simp_all add: writev_demo_def mem_eval)
    moreover have "reg writev_demo REG_a1 = 0" "unat (reg writev_demo REG_a2) = Suc (Suc 0)"
      by (simp_all add: writev_demo_def)
    ultimately show ?thesis by simp
  qed
  have "reg writev_demo REG_a7 = 66" "world writev_demo = []"
    by (simp_all add: writev_demo_def)
  then show ?thesis
    using writev_writes_all [OF _ bufs, of recording_host "\<lambda>bs w. w @ bs"] by simp
qed



text \<open>C25: \<^verbatim>\<open>translatePointerArray\<close> collects exactly the entries before the terminating null pointer,
  for every array that lies in guest memory: the loop ends, and the bound on its steps is never
  what ends it.\<close>

theorem translatePointerArray_complete:
  assumes "a \<noteq> 0"
    and "\<And>i. i < length es \<Longrightarrow> read_u32 m (a + of_nat (4 * i)) = Some (es ! i) \<and> es ! i \<noteq> 0"
    and "read_u32 m (a + of_nat (4 * length es)) = Some 0"
  shows "translatePointerArray m a = Some (Some es)"
proof -
  have "data_length < unat a + 4 * pointer_array_fuel"
    by (simp add: pointer_array_fuel_def data_length_eq)
  from pointer_array_complete [OF assms(2,3) this] assms(1) show ?thesis
    by (simp add: translatePointerArray_def)
qed

theorem translatePointerArray_complete_witness:
  "translatePointerArray (new_Memory\<lparr>mem_data := (\<lambda>_. 0)(8 := 0x20, 12 := 0x23)\<rparr>) 8 = Some (Some [0x20, 0x23])"
proof (rule translatePointerArray_complete)
  let ?m = "new_Memory\<lparr>mem_data := (\<lambda>_. 0)(8 := 0x20, 12 := 0x23)\<rparr>"
  have reads: "read_u32 ?m 8 = Some 0x20" "read_u32 ?m 12 = Some 0x23" "read_u32 ?m 16 = Some 0"
    by (simp_all add: mem_eval)
  show "read_u32 ?m (8 + of_nat (4 * i)) = Some ([0x20, 0x23] ! i) \<and> [0x20, 0x23 :: u32] ! i \<noteq> 0"
    if "i < length [0x20, 0x23 :: u32]" for i
    using that reads by (cases i) (auto simp: less_Suc_eq)
  show "read_u32 ?m (8 + of_nat (4 * length [0x20, 0x23 :: u32])) = Some 0"
    using reads by simp
qed simp

text \<open>Results of host calls reach the guest as Linux returns them: a count or descriptor as it
  is, a failure as the negated \<^verbatim>\<open>errno\<close>.\<close>

theorem host_errors_negated:
  assumes "mem_read (memory m) (reg m REG_a1) (unat (reg m REG_a2)) = Some bytes"
    and "h_write h (sint (reg m REG_a0)) bytes (world m) = (r, w)"
    and "reg m REG_a7 = 64" and "- 1 \<le> r \<and> r \<le> int (length bytes)"
  shows "\<exists>m'. handle h m = Running m' \<and> world m' = w \<and> memory m' = memory m
    \<and> reg m' REG_a0 = (if r = - 1 then - word_of_int (h_errno h w) else word_of_int r)"
proof -
  have "length bytes \<le> data_length"
    using assms(1) by (auto simp: mem_read_def in_bounds_def split: if_splits)
  then have "r \<noteq> - 1 \<longrightarrow> 0 \<le> r \<and> r < 2 ^ 31" using assms(4) by (simp add: data_length_eq)
  with assms show ?thesis
    by (auto simp: handle_def handle_num_def sys_write_def load_then_def host_result_value)
qed

theorem host_errors_negated_witness:
  "\<exists>m'. handle recording_host (boot_machine new_Memory ((\<lambda>_. 0)(REG_a7 := 64, REG_a2 := 2))) = Running m'
     \<and> reg m' REG_a0 = 2"
proof -
  let ?m = "boot_machine new_Memory ((\<lambda>_. 0)(REG_a7 := 64, REG_a2 := 2))"
  have "mem_read new_Memory 0 2 = Some [0, 0]" by (simp add: mem_eval new_Memory_def)
  then show ?thesis
    using host_errors_negated [of ?m "[0, 0]" recording_host 2 "[0, 0]"] by auto
qed

end
