(* ===== verification/Interpreter.thy ===== *)
theory Interpreter
  imports Syscalls
begin

text \<open>
  The interpreter, \<^verbatim>\<open>emulator/Interpreter.cpp\<close>, in its four forms: the chain of \<^verbatim>\<open>if\<close>s
  (\<^verbatim>\<open>runInstruction\<close>), the nested \<^verbatim>\<open>switch\<close> (\<^verbatim>\<open>runInstructionSwitch\<close>), the switch on predecoded
  instructions (\<^verbatim>\<open>runInstructionPredecoded\<close>) and the threaded engine with computed gotos
  (\<^verbatim>\<open>runInstructionsThreaded\<close>).  Each is written out on its own, arm by arm, in the order of the
  source; long functions are cut into groups of arms, where \<open>rest\<close> stands for the arms that follow.
\<close>

unbundle bit_operations_syntax

section \<open>End of an instruction\<close>

text \<open>\<^verbatim>\<open>ctx.pc += 4; ctx.reg[x0] = 0;\<close>\<close>

definition finish :: "'w machine \<Rightarrow> 'w machine outcome" where
  "finish m = Running (m\<lparr>pc := pc m + 4, reg := (reg m)(REG_x0 := 0)\<rparr>)"

section \<open>The chain of conditions\<close>

text \<open>Register-immediate arithmetic.\<close>

definition chain_op_imm ::
  "'w machine \<Rightarrow> u32 \<Rightarrow> 'w machine outcome \<Rightarrow> 'w machine outcome" where
  "chain_op_imm m i rest =
    (let opc = getOpcode i; f3 = getFunct3 i; f7 = getFunct7 i;
         r1 = getRS1 i; r2 = getRS2 i; d = getRD i in
     if opc = 0b0010011 \<and> f3 = 0x0 then
       Running (logInstruction I_ADDI (set_reg d (reg m r1 + I_FMT_imm i) m))
     else if opc = 0b0010011 \<and> f3 = 0x4 then
       Running (logInstruction I_XORI (set_reg d (reg m r1 XOR I_FMT_imm i) m))
     else if opc = 0b0010011 \<and> f3 = 0x6 then
       Running (logInstruction I_ORI (set_reg d (reg m r1 OR I_FMT_imm i) m))
     else if opc = 0b0010011 \<and> f3 = 0x7 then
       Running (logInstruction I_ANDI (set_reg d (reg m r1 AND I_FMT_imm i) m))
     else if opc = 0b0010011 \<and> f3 = 0x1 \<and> getSHType i = 0x00 then
       Running (logInstruction I_SLLI (set_reg d (push_bit (unat (getShift i)) (reg m r1)) m))
     else if opc = 0b0010011 \<and> f3 = 0x5 \<and> getSHType i = 0x00 then
       Running (logInstruction I_SRLI (set_reg d (drop_bit (unat (getShift i)) (reg m r1)) m))
     else if opc = 0b0010011 \<and> f3 = 0x5 \<and> getSHType i = 0x20 then
       Running (logInstruction I_SRAI (set_reg d (cpp_sra (reg m r1) (unat (getShift i))) m))
     else if opc = 0b0010011 \<and> f3 = 0x2 then
       Running (logInstruction I_SLTI (set_reg d (bool_u32 (cpp_slt (reg m r1) (I_FMT_imm i))) m))
     else if opc = 0b0010011 \<and> f3 = 0x3 then
       Running (logInstruction I_SLTIU (set_reg d (bool_u32 (reg m r1 < I_FMT_imm i)) m))
     else rest)"

text \<open>Register-register arithmetic.\<close>

definition chain_op ::
  "'w machine \<Rightarrow> u32 \<Rightarrow> 'w machine outcome \<Rightarrow> 'w machine outcome" where
  "chain_op m i rest =
    (let opc = getOpcode i; f3 = getFunct3 i; f7 = getFunct7 i;
         r1 = getRS1 i; r2 = getRS2 i; d = getRD i in
     if opc = 0b0110011 \<and> f3 = 0x0 \<and> f7 = 0x00 then
       Running (logInstruction I_ADD (set_reg d (reg m r1 + reg m r2) m))
     else if opc = 0b0110011 \<and> f3 = 0x0 \<and> f7 = 0x20 then
       Running (logInstruction I_SUB (set_reg d (reg m r1 - reg m r2) m))
     else if opc = 0b0110011 \<and> f3 = 0x4 \<and> f7 = 0x00 then
       Running (logInstruction I_XOR (set_reg d (reg m r1 XOR reg m r2) m))
     else if opc = 0b0110011 \<and> f3 = 0x6 \<and> f7 = 0x00 then
       Running (logInstruction I_OR (set_reg d (reg m r1 OR reg m r2) m))
     else if opc = 0b0110011 \<and> f3 = 0x7 \<and> f7 = 0x00 then
       Running (logInstruction I_AND (set_reg d (reg m r1 AND reg m r2) m))
     else if opc = 0b0110011 \<and> f3 = 0x1 \<and> f7 = 0x00 then
       Running (logInstruction I_SLL (set_reg d (push_bit (unat (reg m r2 AND 0x1f)) (reg m r1)) m))
     else if opc = 0b0110011 \<and> f3 = 0x5 \<and> f7 = 0x00 then
       Running (logInstruction I_SRL (set_reg d (drop_bit (unat (reg m r2 AND 0x1f)) (reg m r1)) m))
     else if opc = 0b0110011 \<and> f3 = 0x5 \<and> f7 = 0x20 then
       Running (logInstruction I_SRA (set_reg d (cpp_sra (reg m r1) (unat (reg m r2 AND 0x1f))) m))
     else if opc = 0b0110011 \<and> f3 = 0x2 \<and> f7 = 0x00 then
       Running (logInstruction I_SLT (set_reg d (bool_u32 (cpp_slt (reg m r1) (reg m r2))) m))
     else if opc = 0b0110011 \<and> f3 = 0x3 \<and> f7 = 0x00 then
       Running (logInstruction I_SLTU (set_reg d (bool_u32 (reg m r1 < reg m r2)) m))
     else rest)"

text \<open>Loads.\<close>

definition chain_load ::
  "'w machine \<Rightarrow> u32 \<Rightarrow> 'w machine outcome \<Rightarrow> 'w machine outcome" where
  "chain_load m i rest =
    (let opc = getOpcode i; f3 = getFunct3 i; f7 = getFunct7 i;
         r1 = getRS1 i; r2 = getRS2 i; d = getRD i in
     if opc = 0b0000011 \<and> f3 = 0x0 then
       (let addr = reg m r1 + I_FMT_imm i in load_then addr (read_u8 (memory m) addr)
         (\<lambda>v. Running (logInstruction I_LB (set_reg d (scast v) m))))
     else if opc = 0b0000011 \<and> f3 = 0x4 then
       (let addr = reg m r1 + I_FMT_imm i in load_then addr (read_u8 (memory m) addr)
         (\<lambda>v. Running (logInstruction I_LBU (set_reg d (ucast v) m))))
     else if opc = 0b0000011 \<and> f3 = 0x1 then
       (let addr = reg m r1 + I_FMT_imm i in load_then addr (read_u16 (memory m) addr)
         (\<lambda>v. Running (logInstruction I_LH (set_reg d (scast v) m))))
     else if opc = 0b0000011 \<and> f3 = 0x5 then
       (let addr = reg m r1 + I_FMT_imm i in load_then addr (read_u16 (memory m) addr)
         (\<lambda>v. Running (logInstruction I_LHU (set_reg d (ucast v) m))))
     else if opc = 0b0000011 \<and> f3 = 0x2 then
       (let addr = reg m r1 + I_FMT_imm i in load_then addr (read_u32 (memory m) addr)
         (\<lambda>v. Running (logInstruction I_LW (set_reg d (v) m))))
     else rest)"

text \<open>Stores.\<close>

definition chain_store ::
  "'w machine \<Rightarrow> u32 \<Rightarrow> 'w machine outcome \<Rightarrow> 'w machine outcome" where
  "chain_store m i rest =
    (let opc = getOpcode i; f3 = getFunct3 i; f7 = getFunct7 i;
         r1 = getRS1 i; r2 = getRS2 i; d = getRD i in
     if opc = 0b0100011 \<and> f3 = 0x0 then
       (let addr = reg m r1 + S_FMT_imm i in obind (store_then addr (write_u8 (memory m) addr (reg m r2)) m)
         (\<lambda>m. Running (logInstruction I_SB m)))
     else if opc = 0b0100011 \<and> f3 = 0x1 then
       (let addr = reg m r1 + S_FMT_imm i in obind (store_then addr (write_u16 (memory m) addr (reg m r2)) m)
         (\<lambda>m. Running (logInstruction I_SH m)))
     else if opc = 0b0100011 \<and> f3 = 0x2 then
       (let addr = reg m r1 + S_FMT_imm i in obind (store_then addr (write_u32 (memory m) addr (reg m r2)) m)
         (\<lambda>m. Running (logInstruction I_SW m)))
     else rest)"

text \<open>Conditional branches.\<close>

definition chain_branch ::
  "'w machine \<Rightarrow> u32 \<Rightarrow> 'w machine outcome \<Rightarrow> 'w machine outcome" where
  "chain_branch m i rest =
    (let opc = getOpcode i; f3 = getFunct3 i; f7 = getFunct7 i;
         r1 = getRS1 i; r2 = getRS2 i; d = getRD i in
     if opc = 0b1100011 \<and> f3 = 0x0 then
       (let m = logInstruction I_BEQ m in
         Running (if reg m r1 = reg m r2 then m\<lparr>pc := pc m + (B_FMT_imm i - 4)\<rparr> else m))
     else if opc = 0b1100011 \<and> f3 = 0x1 then
       (let m = logInstruction I_BNE m in
         Running (if reg m r1 \<noteq> reg m r2 then m\<lparr>pc := pc m + (B_FMT_imm i - 4)\<rparr> else m))
     else if opc = 0b1100011 \<and> f3 = 0x4 then
       (let m = logInstruction I_BLT m in
         Running (if cpp_slt (reg m r1) (reg m r2) then m\<lparr>pc := pc m + (B_FMT_imm i - 4)\<rparr> else m))
     else if opc = 0b1100011 \<and> f3 = 0x5 then
       (let m = logInstruction I_BGE m in
         Running (if \<not> cpp_slt (reg m r1) (reg m r2) then m\<lparr>pc := pc m + (B_FMT_imm i - 4)\<rparr> else m))
     else if opc = 0b1100011 \<and> f3 = 0x6 then
       (let m = logInstruction I_BLTU m in
         Running (if reg m r1 < reg m r2 then m\<lparr>pc := pc m + (B_FMT_imm i - 4)\<rparr> else m))
     else if opc = 0b1100011 \<and> f3 = 0x7 then
       (let m = logInstruction I_BGEU m in
         Running (if reg m r2 \<le> reg m r1 then m\<lparr>pc := pc m + (B_FMT_imm i - 4)\<rparr> else m))
     else rest)"

text \<open>Jumps and upper immediates.  \<^verbatim>\<open>jalr\<close> writes the link register before it reads \<^verbatim>\<open>rs1\<close>.\<close>

definition chain_jump ::
  "'w machine \<Rightarrow> u32 \<Rightarrow> 'w machine outcome \<Rightarrow> 'w machine outcome" where
  "chain_jump m i rest =
    (let opc = getOpcode i; f3 = getFunct3 i; f7 = getFunct7 i;
         r1 = getRS1 i; r2 = getRS2 i; d = getRD i in
     if opc = 0b1101111 then
       (let m = logInstruction I_JAL m; m = set_reg d (pc m + 4) m in
         Running (m\<lparr>pc := pc m + (J_FMT_imm i - 4)\<rparr>))
     else if opc = 0b1100111 \<and> f3 = 0x0 then
       (let m = logInstruction I_JALR (logJump (I_FMT_imm i + reg m r1) m);
              m = set_reg d (pc m + 4) m in
         Running (m\<lparr>pc := I_FMT_imm i + reg m r1 - 4\<rparr>))
     else if opc = 0b0110111 then
       Running (logInstruction I_LUI (set_reg d (push_bit 12 (U_FMT_imm i)) m))
     else if opc = 0b0010111 then
       Running (logInstruction I_AUIPC (set_reg d (pc m + push_bit 12 (U_FMT_imm i)) m))
     else rest)"

text \<open>System calls.\<close>

definition chain_ecall ::
  "'w host \<Rightarrow> 'w machine \<Rightarrow> u32 \<Rightarrow> 'w machine outcome \<Rightarrow> 'w machine outcome" where
  "chain_ecall h m i rest =
    (let opc = getOpcode i; f3 = getFunct3 i; f7 = getFunct7 i;
         r1 = getRS1 i; r2 = getRS2 i; d = getRD i in
     if opc = 0b1110011 \<and> I_FMT_imm i = 0x0 then
       handle h (logInstruction I_ECALL m)
     else rest)"

text \<open>Multiplication and division.\<close>

definition chain_muldiv ::
  "'w machine \<Rightarrow> u32 \<Rightarrow> 'w machine outcome \<Rightarrow> 'w machine outcome" where
  "chain_muldiv m i rest =
    (let opc = getOpcode i; f3 = getFunct3 i; f7 = getFunct7 i;
         r1 = getRS1 i; r2 = getRS2 i; d = getRD i in
     if opc = 0b0110011 \<and> f3 = 0x0 \<and> f7 = 0x01 then
       Running (logInstruction I_MUL (set_reg d (cpp_mul (reg m r1) (reg m r2)) m))
     else if opc = 0b0110011 \<and> f3 = 0x1 \<and> f7 = 0x01 then
       Running (logInstruction I_MULH (set_reg d (cpp_mulh (reg m r1) (reg m r2)) m))
     else if opc = 0b0110011 \<and> f3 = 0x2 \<and> f7 = 0x01 then
       Running (logInstruction I_MULHSU (set_reg d (cpp_mulhsu (reg m r1) (reg m r2)) m))
     else if opc = 0b0110011 \<and> f3 = 0x3 \<and> f7 = 0x01 then
       Running (logInstruction I_MULHU (set_reg d (cpp_mulhu (reg m r1) (reg m r2)) m))
     else if opc = 0b0110011 \<and> f3 = 0x4 \<and> f7 = 0x01 then
       Running (logInstruction I_DIV (
         if reg m r2 = 0 then set_reg d (- 1) m
         else if reg m r1 = 0x80000000 \<and> reg m r2 = 0xFFFFFFFF then set_reg d 0x80000000 m
         else set_reg d (cpp_sdiv (reg m r1) (reg m r2)) m))
     else if opc = 0b0110011 \<and> f3 = 0x5 \<and> f7 = 0x01 then
       Running (logInstruction I_DIVU (
         if reg m r2 = 0 then set_reg d 0xFFFFFFFF m
         else set_reg d (reg m r1 div reg m r2) m))
     else if opc = 0b0110011 \<and> f3 = 0x6 \<and> f7 = 0x01 then
       Running (logInstruction I_REM (
         if reg m r2 = 0 then set_reg d (reg m r1) m
         else if reg m r1 = 0x80000000 \<and> reg m r2 = 0xFFFFFFFF then set_reg d 0 m
         else set_reg d (cpp_srem (reg m r1) (reg m r2)) m))
     else if opc = 0b0110011 \<and> f3 = 0x7 \<and> f7 = 0x01 then
       Running (logInstruction I_REMU (
         if reg m r2 = 0 then set_reg d (reg m r1) m
         else set_reg d (reg m r1 mod reg m r2) m))
     else rest)"

text \<open>Load-reserved and store-conditional, which always succeeds.\<close>

definition chain_atomic ::
  "'w machine \<Rightarrow> u32 \<Rightarrow> 'w machine outcome \<Rightarrow> 'w machine outcome" where
  "chain_atomic m i rest =
    (let opc = getOpcode i; f3 = getFunct3 i; f7 = getFunct7 i;
         r1 = getRS1 i; r2 = getRS2 i; d = getRD i in
     if opc = 0b0101111 \<and> f3 = 0x2 \<and> getFunct5 i = 0x02 then
       load_then (reg m r1) (read_u32 (memory m) (reg m r1))
         (\<lambda>v. Running (logInstruction I_LR_W (set_reg d v m)))
     else if opc = 0b0101111 \<and> f3 = 0x2 \<and> getFunct5 i = 0x03 then
       obind (store_then (reg m r1) (write_u32 (memory m) (reg m r1) (reg m r2)) m)
         (\<lambda>m. Running (logInstruction I_SC_W (set_reg d 0 m)))
     else rest)"

definition chain_arms :: "'w host \<Rightarrow> 'w machine \<Rightarrow> u32 \<Rightarrow> 'w machine outcome" where
  "chain_arms h m i =
     chain_op_imm m i (chain_op m i (chain_load m i (chain_store m i (chain_branch m i
       (chain_jump m i (chain_ecall h m i (chain_muldiv m i (chain_atomic m i
         (Running (print (Unsupported_instruction (pc m)) m))))))))))"

definition runInstruction_word :: "'w host \<Rightarrow> 'w machine \<Rightarrow> u32 \<Rightarrow> 'w machine outcome" where
  "runInstruction_word h m i =
     obind (chain_arms h
       (logRegister (opcodeRegisterUse (getOpcode i)) (getRS1 i) (getRS2 i) (getRD i) m) i) finish"

definition runInstruction :: "'w host \<Rightarrow> 'w machine \<Rightarrow> 'w machine outcome" where
  "runInstruction h m = load_then (pc m) (read_u32 (memory m) (pc m)) (runInstruction_word h m)"

section \<open>The nested switch\<close>

text \<open>\<^verbatim>\<open>case 0b0010011\<close>.  A funct field that no arm handles leaves the state alone and prints nothing.\<close>

definition switch_op_imm :: "'w machine \<Rightarrow> u32 \<Rightarrow> 'w machine outcome" where
  "switch_op_imm m i =
    (let f3 = getFunct3 i; f7 = getFunct7 i; r1 = getRS1 i; r2 = getRS2 i; d = getRD i in
     if f3 = 0x0 then
       Running (logInstruction I_ADDI (set_reg d (reg m r1 + I_FMT_imm i) m))
     else if f3 = 0x1 then
       (if getSHType i = 0x00 then
          Running (logInstruction I_SLLI (set_reg d (push_bit (unat (getShift i)) (reg m r1)) m))
        else Running m)
     else if f3 = 0x2 then
       Running (logInstruction I_SLTI (set_reg d (bool_u32 (cpp_slt (reg m r1) (I_FMT_imm i))) m))
     else if f3 = 0x3 then
       Running (logInstruction I_SLTIU (set_reg d (bool_u32 (reg m r1 < I_FMT_imm i)) m))
     else if f3 = 0x4 then
       Running (logInstruction I_XORI (set_reg d (reg m r1 XOR I_FMT_imm i) m))
     else if f3 = 0x5 then
       (if getSHType i = 0x00 then
          Running (logInstruction I_SRLI (set_reg d (drop_bit (unat (getShift i)) (reg m r1)) m))
        else if getSHType i = 0x20 then
          Running (logInstruction I_SRAI (set_reg d (cpp_sra (reg m r1) (unat (getShift i))) m))
        else Running m)
     else if f3 = 0x6 then
       Running (logInstruction I_ORI (set_reg d (reg m r1 OR I_FMT_imm i) m))
     else if f3 = 0x7 then
       Running (logInstruction I_ANDI (set_reg d (reg m r1 AND I_FMT_imm i) m))
     else Running m)"

text \<open>\<^verbatim>\<open>case 0b0110011\<close>.\<close>

definition switch_op :: "'w machine \<Rightarrow> u32 \<Rightarrow> 'w machine outcome" where
  "switch_op m i =
    (let f3 = getFunct3 i; f7 = getFunct7 i; r1 = getRS1 i; r2 = getRS2 i; d = getRD i in
     if f3 = 0x0 then
       (if f7 = 0x00 then
          Running (logInstruction I_ADD (set_reg d (reg m r1 + reg m r2) m))
        else if f7 = 0x20 then
          Running (logInstruction I_SUB (set_reg d (reg m r1 - reg m r2) m))
        else if f7 = 0x01 then
          Running (logInstruction I_MUL (set_reg d (cpp_mul (reg m r1) (reg m r2)) m))
        else Running m)
     else if f3 = 0x1 then
       (if f7 = 0x00 then
          Running (logInstruction I_SLL (set_reg d (push_bit (unat (reg m r2 AND 0x1f)) (reg m r1)) m))
        else if f7 = 0x01 then
          Running (logInstruction I_MULH (set_reg d (cpp_mulh (reg m r1) (reg m r2)) m))
        else Running m)
     else if f3 = 0x2 then
       (if f7 = 0x00 then
          Running (logInstruction I_SLT (set_reg d (bool_u32 (cpp_slt (reg m r1) (reg m r2))) m))
        else if f7 = 0x01 then
          Running (logInstruction I_MULHSU (set_reg d (cpp_mulhsu (reg m r1) (reg m r2)) m))
        else Running m)
     else if f3 = 0x3 then
       (if f7 = 0x00 then
          Running (logInstruction I_SLTU (set_reg d (bool_u32 (reg m r1 < reg m r2)) m))
        else if f7 = 0x01 then
          Running (logInstruction I_MULHU (set_reg d (cpp_mulhu (reg m r1) (reg m r2)) m))
        else Running m)
     else if f3 = 0x4 then
       (if f7 = 0x00 then
          Running (logInstruction I_XOR (set_reg d (reg m r1 XOR reg m r2) m))
        else if f7 = 0x01 then
          Running (logInstruction I_DIV (
            if reg m r2 = 0 then set_reg d (- 1) m
            else if reg m r1 = 0x80000000 \<and> reg m r2 = 0xFFFFFFFF then set_reg d 0x80000000 m
            else set_reg d (cpp_sdiv (reg m r1) (reg m r2)) m))
        else Running m)
     else if f3 = 0x5 then
       (if f7 = 0x00 then
          Running (logInstruction I_SRL (set_reg d (drop_bit (unat (reg m r2 AND 0x1f)) (reg m r1)) m))
        else if f7 = 0x20 then
          Running (logInstruction I_SRA (set_reg d (cpp_sra (reg m r1) (unat (reg m r2 AND 0x1f))) m))
        else if f7 = 0x01 then
          Running (logInstruction I_DIVU (
            if reg m r2 = 0 then set_reg d 0xFFFFFFFF m
            else set_reg d (reg m r1 div reg m r2) m))
        else Running m)
     else if f3 = 0x6 then
       (if f7 = 0x00 then
          Running (logInstruction I_OR (set_reg d (reg m r1 OR reg m r2) m))
        else if f7 = 0x01 then
          Running (logInstruction I_REM (
            if reg m r2 = 0 then set_reg d (reg m r1) m
            else if reg m r1 = 0x80000000 \<and> reg m r2 = 0xFFFFFFFF then set_reg d 0 m
            else set_reg d (cpp_srem (reg m r1) (reg m r2)) m))
        else Running m)
     else if f3 = 0x7 then
       (if f7 = 0x00 then
          Running (logInstruction I_AND (set_reg d (reg m r1 AND reg m r2) m))
        else if f7 = 0x01 then
          Running (logInstruction I_REMU (
            if reg m r2 = 0 then set_reg d (reg m r1) m
            else set_reg d (reg m r1 mod reg m r2) m))
        else Running m)
     else Running m)"

text \<open>\<^verbatim>\<open>case 0b0000011\<close>.\<close>

definition switch_load :: "'w machine \<Rightarrow> u32 \<Rightarrow> 'w machine outcome" where
  "switch_load m i =
    (let f3 = getFunct3 i; f7 = getFunct7 i; r1 = getRS1 i; r2 = getRS2 i; d = getRD i in
     if f3 = 0x0 then
       (let addr = reg m r1 + I_FMT_imm i in load_then addr (read_u8 (memory m) addr)
         (\<lambda>v. Running (logInstruction I_LB (set_reg d (scast v) m))))
     else if f3 = 0x1 then
       (let addr = reg m r1 + I_FMT_imm i in load_then addr (read_u16 (memory m) addr)
         (\<lambda>v. Running (logInstruction I_LH (set_reg d (scast v) m))))
     else if f3 = 0x2 then
       (let addr = reg m r1 + I_FMT_imm i in load_then addr (read_u32 (memory m) addr)
         (\<lambda>v. Running (logInstruction I_LW (set_reg d (v) m))))
     else if f3 = 0x4 then
       (let addr = reg m r1 + I_FMT_imm i in load_then addr (read_u8 (memory m) addr)
         (\<lambda>v. Running (logInstruction I_LBU (set_reg d (ucast v) m))))
     else if f3 = 0x5 then
       (let addr = reg m r1 + I_FMT_imm i in load_then addr (read_u16 (memory m) addr)
         (\<lambda>v. Running (logInstruction I_LHU (set_reg d (ucast v) m))))
     else Running m)"

text \<open>\<^verbatim>\<open>case 0b0100011\<close>.\<close>

definition switch_store :: "'w machine \<Rightarrow> u32 \<Rightarrow> 'w machine outcome" where
  "switch_store m i =
    (let f3 = getFunct3 i; f7 = getFunct7 i; r1 = getRS1 i; r2 = getRS2 i; d = getRD i in
     if f3 = 0x0 then
       (let addr = reg m r1 + S_FMT_imm i in obind (store_then addr (write_u8 (memory m) addr (reg m r2)) m)
         (\<lambda>m. Running (logInstruction I_SB m)))
     else if f3 = 0x1 then
       (let addr = reg m r1 + S_FMT_imm i in obind (store_then addr (write_u16 (memory m) addr (reg m r2)) m)
         (\<lambda>m. Running (logInstruction I_SH m)))
     else if f3 = 0x2 then
       (let addr = reg m r1 + S_FMT_imm i in obind (store_then addr (write_u32 (memory m) addr (reg m r2)) m)
         (\<lambda>m. Running (logInstruction I_SW m)))
     else Running m)"

text \<open>\<^verbatim>\<open>case 0b1100011\<close>.\<close>

definition switch_branch :: "'w machine \<Rightarrow> u32 \<Rightarrow> 'w machine outcome" where
  "switch_branch m i =
    (let f3 = getFunct3 i; f7 = getFunct7 i; r1 = getRS1 i; r2 = getRS2 i; d = getRD i in
     if f3 = 0x0 then
       (let m = logInstruction I_BEQ m in
         Running (if reg m r1 = reg m r2 then m\<lparr>pc := pc m + (B_FMT_imm i - 4)\<rparr> else m))
     else if f3 = 0x1 then
       (let m = logInstruction I_BNE m in
         Running (if reg m r1 \<noteq> reg m r2 then m\<lparr>pc := pc m + (B_FMT_imm i - 4)\<rparr> else m))
     else if f3 = 0x4 then
       (let m = logInstruction I_BLT m in
         Running (if cpp_slt (reg m r1) (reg m r2) then m\<lparr>pc := pc m + (B_FMT_imm i - 4)\<rparr> else m))
     else if f3 = 0x5 then
       (let m = logInstruction I_BGE m in
         Running (if \<not> cpp_slt (reg m r1) (reg m r2) then m\<lparr>pc := pc m + (B_FMT_imm i - 4)\<rparr> else m))
     else if f3 = 0x6 then
       (let m = logInstruction I_BLTU m in
         Running (if reg m r1 < reg m r2 then m\<lparr>pc := pc m + (B_FMT_imm i - 4)\<rparr> else m))
     else if f3 = 0x7 then
       (let m = logInstruction I_BGEU m in
         Running (if reg m r2 \<le> reg m r1 then m\<lparr>pc := pc m + (B_FMT_imm i - 4)\<rparr> else m))
     else Running m)"

text \<open>\<^verbatim>\<open>case 0b0101111\<close>.\<close>

definition switch_atomic :: "'w machine \<Rightarrow> u32 \<Rightarrow> 'w machine outcome" where
  "switch_atomic m i =
    (let f3 = getFunct3 i; f7 = getFunct7 i; r1 = getRS1 i; r2 = getRS2 i; d = getRD i in
     if f3 = 0x2 then
       (if getFunct5 i = 0x02 then
          load_then (reg m r1) (read_u32 (memory m) (reg m r1))
            (\<lambda>v. Running (logInstruction I_LR_W (set_reg d v m)))
        else if getFunct5 i = 0x03 then
          obind (store_then (reg m r1) (write_u32 (memory m) (reg m r1) (reg m r2)) m)
            (\<lambda>m. Running (logInstruction I_SC_W (set_reg d 0 m)))
        else Running m)
     else Running m)"

text \<open>
  \<^verbatim>\<open>case 0b1100111\<close>: with a non-zero funct3 there is no \<^verbatim>\<open>break\<close>, so control falls through into the
  next case, \<^verbatim>\<open>lui\<close>.
\<close>

definition switch_lui :: "'w machine \<Rightarrow> u32 \<Rightarrow> 'w machine outcome" where
  "switch_lui m i = (let d = getRD i in Running (logInstruction I_LUI (set_reg d (push_bit 12 (U_FMT_imm i)) m)))"

definition switch_jalr :: "'w machine \<Rightarrow> u32 \<Rightarrow> 'w machine outcome" where
  "switch_jalr m i =
    (let f3 = getFunct3 i; r1 = getRS1 i; d = getRD i in
     if f3 = 0x0 then
       (let m = logInstruction I_JALR (logJump (I_FMT_imm i + reg m r1) m);
               m = set_reg d (pc m + 4) m in
          Running (m\<lparr>pc := I_FMT_imm i + reg m r1 - 4\<rparr>))
     else switch_lui m i)"

definition switch_arms :: "'w host \<Rightarrow> 'w machine \<Rightarrow> u32 \<Rightarrow> 'w machine outcome" where
  "switch_arms h m i =
    (let opc = getOpcode i; f3 = getFunct3 i; d = getRD i in
     if opc = 0b0010011 then switch_op_imm m i
     else if opc = 0b0110011 then switch_op m i
     else if opc = 0b0000011 then switch_load m i
     else if opc = 0b0100011 then switch_store m i
     else if opc = 0b1100011 then switch_branch m i
     else if opc = 0b1101111 then
       (let m = logInstruction I_JAL m; m = set_reg d (pc m + 4) m in
          Running (m\<lparr>pc := pc m + (J_FMT_imm i - 4)\<rparr>))
     else if opc = 0b1100111 then switch_jalr m i
     else if opc = 0b0110111 then switch_lui m i
     else if opc = 0b0010111 then Running (logInstruction I_AUIPC (set_reg d (pc m + push_bit 12 (U_FMT_imm i)) m))
     else if opc = 0b1110011 then
       (if f3 = 0x0 \<and> I_FMT_imm i = 0x0 then handle h (logInstruction I_ECALL m) else Running m)
     else if opc = 0b0101111 then switch_atomic m i
     else Running (print (Unsupported_base_opcode (pc m)) m))"

definition runInstructionSwitch_word :: "'w host \<Rightarrow> 'w machine \<Rightarrow> u32 \<Rightarrow> 'w machine outcome" where
  "runInstructionSwitch_word h m i =
     obind (switch_arms h
       (logRegister (opcodeRegisterUse (getOpcode i)) (getRS1 i) (getRS2 i) (getRD i) m) i) finish"

definition runInstructionSwitch :: "'w host \<Rightarrow> 'w machine \<Rightarrow> 'w machine outcome" where
  "runInstructionSwitch h m =
     load_then (pc m) (read_u32 (memory m) (pc m)) (runInstructionSwitch_word h m)"

section \<open>Predecoded instructions\<close>

text \<open>Register-register arithmetic.\<close>

definition predecoded_op ::
  "'w machine \<Rightarrow> Instruction \<Rightarrow> 'w machine outcome \<Rightarrow> 'w machine outcome" where
  "predecoded_op m inst rest =
    (let d = rd inst in
     case itype inst of
       I_ADD \<Rightarrow>
         Running (logInstruction I_ADD (set_reg d (reg m (rs1 inst) + reg m (rs2 inst)) m))
     | I_SUB \<Rightarrow>
         Running (logInstruction I_SUB (set_reg d (reg m (rs1 inst) - reg m (rs2 inst)) m))
     | I_XOR \<Rightarrow>
         Running (logInstruction I_XOR (set_reg d (reg m (rs1 inst) XOR reg m (rs2 inst)) m))
     | I_OR \<Rightarrow>
         Running (logInstruction I_OR (set_reg d (reg m (rs1 inst) OR reg m (rs2 inst)) m))
     | I_AND \<Rightarrow>
         Running (logInstruction I_AND (set_reg d (reg m (rs1 inst) AND reg m (rs2 inst)) m))
     | I_SLL \<Rightarrow>
         Running (logInstruction I_SLL (set_reg d (push_bit (unat (reg m (rs2 inst) AND 0x1f)) (reg m (rs1 inst))) m))
     | I_SRL \<Rightarrow>
         Running (logInstruction I_SRL (set_reg d (drop_bit (unat (reg m (rs2 inst) AND 0x1f)) (reg m (rs1 inst))) m))
     | I_SRA \<Rightarrow>
         Running (logInstruction I_SRA (set_reg d (cpp_sra (reg m (rs1 inst)) (unat (reg m (rs2 inst) AND 0x1f))) m))
     | I_SLT \<Rightarrow>
         Running (logInstruction I_SLT (set_reg d (bool_u32 (cpp_slt (reg m (rs1 inst)) (reg m (rs2 inst)))) m))
     | I_SLTU \<Rightarrow>
         Running (logInstruction I_SLTU (set_reg d (bool_u32 (reg m (rs1 inst) < reg m (rs2 inst))) m))
     | _ \<Rightarrow> rest)"

text \<open>Register-immediate arithmetic.\<close>

definition predecoded_op_imm ::
  "'w machine \<Rightarrow> Instruction \<Rightarrow> 'w machine outcome \<Rightarrow> 'w machine outcome" where
  "predecoded_op_imm m inst rest =
    (let d = rd inst in
     case itype inst of
       I_ADDI \<Rightarrow>
         Running (logInstruction I_ADDI (set_reg d (reg m (rs1 inst) + immediate inst) m))
     | I_XORI \<Rightarrow>
         Running (logInstruction I_XORI (set_reg d (reg m (rs1 inst) XOR immediate inst) m))
     | I_ORI \<Rightarrow>
         Running (logInstruction I_ORI (set_reg d (reg m (rs1 inst) OR immediate inst) m))
     | I_ANDI \<Rightarrow>
         Running (logInstruction I_ANDI (set_reg d (reg m (rs1 inst) AND immediate inst) m))
     | I_SLLI \<Rightarrow>
         Running (logInstruction I_SLLI (set_reg d (push_bit (unat (immediate inst AND 0x1f)) (reg m (rs1 inst))) m))
     | I_SRLI \<Rightarrow>
         Running (logInstruction I_SRLI (set_reg d (drop_bit (unat (immediate inst AND 0x1f)) (reg m (rs1 inst))) m))
     | I_SRAI \<Rightarrow>
         Running (logInstruction I_SRAI (set_reg d (cpp_sra (reg m (rs1 inst)) (unat (immediate inst AND 0x1f))) m))
     | I_SLTI \<Rightarrow>
         Running (logInstruction I_SLTI (set_reg d (bool_u32 (cpp_slt (reg m (rs1 inst)) (immediate inst))) m))
     | I_SLTIU \<Rightarrow>
         Running (logInstruction I_SLTIU (set_reg d (bool_u32 (reg m (rs1 inst) < immediate inst)) m))
     | _ \<Rightarrow> rest)"

text \<open>Loads and stores.\<close>

definition predecoded_mem ::
  "'w machine \<Rightarrow> Instruction \<Rightarrow> 'w machine outcome \<Rightarrow> 'w machine outcome" where
  "predecoded_mem m inst rest =
    (let d = rd inst in
     case itype inst of
       I_LB \<Rightarrow>
         (let addr = reg m (rs1 inst) + immediate inst in load_then addr (read_u8 (memory m) addr)
           (\<lambda>v. Running (logInstruction I_LB (set_reg d (scast v) m))))
     | I_LH \<Rightarrow>
         (let addr = reg m (rs1 inst) + immediate inst in load_then addr (read_u16 (memory m) addr)
           (\<lambda>v. Running (logInstruction I_LH (set_reg d (scast v) m))))
     | I_LW \<Rightarrow>
         (let addr = reg m (rs1 inst) + immediate inst in load_then addr (read_u32 (memory m) addr)
           (\<lambda>v. Running (logInstruction I_LW (set_reg d (v) m))))
     | I_LBU \<Rightarrow>
         (let addr = reg m (rs1 inst) + immediate inst in load_then addr (read_u8 (memory m) addr)
           (\<lambda>v. Running (logInstruction I_LBU (set_reg d (ucast v) m))))
     | I_LHU \<Rightarrow>
         (let addr = reg m (rs1 inst) + immediate inst in load_then addr (read_u16 (memory m) addr)
           (\<lambda>v. Running (logInstruction I_LHU (set_reg d (ucast v) m))))
     | I_SB \<Rightarrow>
         (let addr = reg m (rs1 inst) + immediate inst in obind (store_then addr (write_u8 (memory m) addr (reg m (rs2 inst))) m)
           (\<lambda>m. Running (logInstruction I_SB m)))
     | I_SH \<Rightarrow>
         (let addr = reg m (rs1 inst) + immediate inst in obind (store_then addr (write_u16 (memory m) addr (reg m (rs2 inst))) m)
           (\<lambda>m. Running (logInstruction I_SH m)))
     | I_SW \<Rightarrow>
         (let addr = reg m (rs1 inst) + immediate inst in obind (store_then addr (write_u32 (memory m) addr (reg m (rs2 inst))) m)
           (\<lambda>m. Running (logInstruction I_SW m)))
     | _ \<Rightarrow> rest)"

text \<open>Conditional branches.\<close>

definition predecoded_branch ::
  "'w machine \<Rightarrow> Instruction \<Rightarrow> 'w machine outcome \<Rightarrow> 'w machine outcome" where
  "predecoded_branch m inst rest =
    (let d = rd inst in
     case itype inst of
       I_BEQ \<Rightarrow>
         (let m = logInstruction I_BEQ m in
           Running (if reg m (rs1 inst) = reg m (rs2 inst) then m\<lparr>pc := pc m + (immediate inst - 4)\<rparr> else m))
     | I_BNE \<Rightarrow>
         (let m = logInstruction I_BNE m in
           Running (if reg m (rs1 inst) \<noteq> reg m (rs2 inst) then m\<lparr>pc := pc m + (immediate inst - 4)\<rparr> else m))
     | I_BLT \<Rightarrow>
         (let m = logInstruction I_BLT m in
           Running (if cpp_slt (reg m (rs1 inst)) (reg m (rs2 inst)) then m\<lparr>pc := pc m + (immediate inst - 4)\<rparr> else m))
     | I_BGE \<Rightarrow>
         (let m = logInstruction I_BGE m in
           Running (if \<not> cpp_slt (reg m (rs1 inst)) (reg m (rs2 inst)) then m\<lparr>pc := pc m + (immediate inst - 4)\<rparr> else m))
     | I_BLTU \<Rightarrow>
         (let m = logInstruction I_BLTU m in
           Running (if reg m (rs1 inst) < reg m (rs2 inst) then m\<lparr>pc := pc m + (immediate inst - 4)\<rparr> else m))
     | I_BGEU \<Rightarrow>
         (let m = logInstruction I_BGEU m in
           Running (if reg m (rs2 inst) \<le> reg m (rs1 inst) then m\<lparr>pc := pc m + (immediate inst - 4)\<rparr> else m))
     | _ \<Rightarrow> rest)"

text \<open>Jumps and upper immediates.\<close>

definition predecoded_jump ::
  "'w machine \<Rightarrow> Instruction \<Rightarrow> 'w machine outcome \<Rightarrow> 'w machine outcome" where
  "predecoded_jump m inst rest =
    (let d = rd inst in
     case itype inst of
       I_JAL \<Rightarrow>
         (let m = logInstruction I_JAL m; m = set_reg d (pc m + 4) m in
           Running (m\<lparr>pc := pc m + (immediate inst - 4)\<rparr>))
     | I_JALR \<Rightarrow>
         (let m = logInstruction I_JALR (logJump (immediate inst + reg m (rs1 inst)) m);
                m = set_reg d (pc m + 4) m in
           Running (m\<lparr>pc := immediate inst + reg m (rs1 inst) - 4\<rparr>))
     | I_LUI \<Rightarrow>
         Running (logInstruction I_LUI (set_reg d (push_bit 12 (immediate inst)) m))
     | I_AUIPC \<Rightarrow>
         Running (logInstruction I_AUIPC (set_reg d (pc m + push_bit 12 (immediate inst)) m))
     | _ \<Rightarrow> rest)"

text \<open>System instructions.\<close>

definition predecoded_system ::
  "'w host \<Rightarrow> 'w machine \<Rightarrow> Instruction \<Rightarrow> 'w machine outcome \<Rightarrow> 'w machine outcome" where
  "predecoded_system h m inst rest =
    (let d = rd inst in
     case itype inst of
       I_ECALL \<Rightarrow>
         handle h (logInstruction I_ECALL m)
     | I_EBREAK \<Rightarrow>
         Running (print (Unsupported_instruction (pc m)) m)
     | I_FENCE \<Rightarrow>
         Running (print (Unsupported_instruction (pc m)) m)
     | _ \<Rightarrow> rest)"

text \<open>Multiplication and division.\<close>

definition predecoded_muldiv ::
  "'w machine \<Rightarrow> Instruction \<Rightarrow> 'w machine outcome \<Rightarrow> 'w machine outcome" where
  "predecoded_muldiv m inst rest =
    (let d = rd inst in
     case itype inst of
       I_MUL \<Rightarrow>
         Running (logInstruction I_MUL (set_reg d (cpp_mul (reg m (rs1 inst)) (reg m (rs2 inst))) m))
     | I_MULH \<Rightarrow>
         Running (logInstruction I_MULH (set_reg d (cpp_mulh (reg m (rs1 inst)) (reg m (rs2 inst))) m))
     | I_MULHSU \<Rightarrow>
         Running (logInstruction I_MULHSU (set_reg d (cpp_mulhsu (reg m (rs1 inst)) (reg m (rs2 inst))) m))
     | I_MULHU \<Rightarrow>
         Running (logInstruction I_MULHU (set_reg d (cpp_mulhu (reg m (rs1 inst)) (reg m (rs2 inst))) m))
     | I_DIV \<Rightarrow>
         Running (logInstruction I_DIV (
           if reg m (rs2 inst) = 0 then set_reg d (- 1) m
           else if reg m (rs1 inst) = 0x80000000 \<and> reg m (rs2 inst) = 0xFFFFFFFF then set_reg d 0x80000000 m
           else set_reg d (cpp_sdiv (reg m (rs1 inst)) (reg m (rs2 inst))) m))
     | I_DIVU \<Rightarrow>
         Running (logInstruction I_DIVU (
           if reg m (rs2 inst) = 0 then set_reg d 0xFFFFFFFF m
           else set_reg d (reg m (rs1 inst) div reg m (rs2 inst)) m))
     | I_REM \<Rightarrow>
         Running (logInstruction I_REM (
           if reg m (rs2 inst) = 0 then set_reg d (reg m (rs1 inst)) m
           else if reg m (rs1 inst) = 0x80000000 \<and> reg m (rs2 inst) = 0xFFFFFFFF then set_reg d 0 m
           else set_reg d (cpp_srem (reg m (rs1 inst)) (reg m (rs2 inst))) m))
     | I_REMU \<Rightarrow>
         Running (logInstruction I_REMU (
           if reg m (rs2 inst) = 0 then set_reg d (reg m (rs1 inst)) m
           else set_reg d (reg m (rs1 inst) mod reg m (rs2 inst)) m))
     | _ \<Rightarrow> rest)"

text \<open>Load-reserved and store-conditional.\<close>

definition predecoded_atomic ::
  "'w machine \<Rightarrow> Instruction \<Rightarrow> 'w machine outcome \<Rightarrow> 'w machine outcome" where
  "predecoded_atomic m inst rest =
    (let d = rd inst in
     case itype inst of
       I_LR_W \<Rightarrow>
         load_then (reg m (rs1 inst)) (read_u32 (memory m) (reg m (rs1 inst)))
           (\<lambda>v. Running (logInstruction I_LR_W (set_reg d v m)))
     | I_SC_W \<Rightarrow>
         obind (store_then (reg m (rs1 inst)) (write_u32 (memory m) (reg m (rs1 inst)) (reg m (rs2 inst))) m)
           (\<lambda>m. Running (logInstruction I_SC_W (set_reg d 0 m)))
     | I_INVALID \<Rightarrow>
         Running (print (Unsupported_instruction (pc m)) m)
     | _ \<Rightarrow> rest)"

definition predecoded_arms :: "'w host \<Rightarrow> 'w machine \<Rightarrow> Instruction \<Rightarrow> 'w machine outcome" where
  "predecoded_arms h m inst =
     predecoded_op m inst (predecoded_op_imm m inst (predecoded_mem m inst (predecoded_branch m inst
       (predecoded_jump m inst (predecoded_system h m inst (predecoded_muldiv m inst
         (predecoded_atomic m inst (Running m))))))))"

definition runInstructionPredecoded :: "'w host \<Rightarrow> 'w machine \<Rightarrow> Instruction \<Rightarrow> 'w machine outcome" where
  "runInstructionPredecoded h m inst =
     obind (predecoded_arms h (logRegister (registerUse (itype inst)) (rs1 inst) (rs2 inst) (rd inst) m) inst)
       finish"

section \<open>Threading\<close>

text \<open>The table of label addresses, indexed by the value of \<^verbatim>\<open>EInstruction\<close>.\<close>

definition dispatch :: "label list" where
  "dispatch =
    [L_ADD, L_SUB, L_XOR, L_OR, L_AND, L_SLL, L_SRL, L_SRA, L_SLT, L_SLTU,
     L_ADDI, L_XORI, L_ORI, L_ANDI, L_SLLI, L_SRLI, L_SRAI, L_SLTI, L_SLTIU, L_LB,
     L_LH, L_LW, L_LBU, L_LHU, L_SB, L_SH, L_SW, L_BEQ, L_BNE, L_BLT,
     L_BGE, L_BLTU, L_BGEU, L_JAL, L_JALR, L_LUI, L_AUIPC, L_ECALL, L_INVALID, L_INVALID,
     L_MUL, L_MULH, L_MULHSU, L_MULHU, L_DIV, L_DIVU, L_REM, L_REMU, L_LR_W, L_SC_W,
     L_INVALID]"

text \<open>Store every instruction's label in its \<^verbatim>\<open>handler\<close>.\<close>

definition set_handlers :: "Instruction list \<Rightarrow> Instruction list" where
  "set_handlers instructions =
     map (\<lambda>inst. inst\<lparr>handler := Some (dispatch ! toIndex (itype inst))\<rparr>) instructions"

text \<open>Register-register arithmetic.\<close>

definition threaded_op ::
  "label \<Rightarrow> 'w machine \<Rightarrow> Instruction \<Rightarrow> 'w machine outcome \<Rightarrow> 'w machine outcome" where
  "threaded_op l m inst rest =
    (let d = rd inst in
     case l of
       L_ADD \<Rightarrow>
         Running (logInstruction I_ADD (set_reg d (reg m (rs1 inst) + reg m (rs2 inst)) m))
     | L_SUB \<Rightarrow>
         Running (logInstruction I_SUB (set_reg d (reg m (rs1 inst) - reg m (rs2 inst)) m))
     | L_XOR \<Rightarrow>
         Running (logInstruction I_XOR (set_reg d (reg m (rs1 inst) XOR reg m (rs2 inst)) m))
     | L_OR \<Rightarrow>
         Running (logInstruction I_OR (set_reg d (reg m (rs1 inst) OR reg m (rs2 inst)) m))
     | L_AND \<Rightarrow>
         Running (logInstruction I_AND (set_reg d (reg m (rs1 inst) AND reg m (rs2 inst)) m))
     | L_SLL \<Rightarrow>
         Running (logInstruction I_SLL (set_reg d (push_bit (unat (reg m (rs2 inst) AND 0x1f)) (reg m (rs1 inst))) m))
     | L_SRL \<Rightarrow>
         Running (logInstruction I_SRL (set_reg d (drop_bit (unat (reg m (rs2 inst) AND 0x1f)) (reg m (rs1 inst))) m))
     | L_SRA \<Rightarrow>
         Running (logInstruction I_SRA (set_reg d (cpp_sra (reg m (rs1 inst)) (unat (reg m (rs2 inst) AND 0x1f))) m))
     | L_SLT \<Rightarrow>
         Running (logInstruction I_SLT (set_reg d (bool_u32 (cpp_slt (reg m (rs1 inst)) (reg m (rs2 inst)))) m))
     | L_SLTU \<Rightarrow>
         Running (logInstruction I_SLTU (set_reg d (bool_u32 (reg m (rs1 inst) < reg m (rs2 inst))) m))
     | _ \<Rightarrow> rest)"

text \<open>Register-immediate arithmetic.\<close>

definition threaded_op_imm ::
  "label \<Rightarrow> 'w machine \<Rightarrow> Instruction \<Rightarrow> 'w machine outcome \<Rightarrow> 'w machine outcome" where
  "threaded_op_imm l m inst rest =
    (let d = rd inst in
     case l of
       L_ADDI \<Rightarrow>
         Running (logInstruction I_ADDI (set_reg d (reg m (rs1 inst) + immediate inst) m))
     | L_XORI \<Rightarrow>
         Running (logInstruction I_XORI (set_reg d (reg m (rs1 inst) XOR immediate inst) m))
     | L_ORI \<Rightarrow>
         Running (logInstruction I_ORI (set_reg d (reg m (rs1 inst) OR immediate inst) m))
     | L_ANDI \<Rightarrow>
         Running (logInstruction I_ANDI (set_reg d (reg m (rs1 inst) AND immediate inst) m))
     | L_SLLI \<Rightarrow>
         Running (logInstruction I_SLLI (set_reg d (push_bit (unat (immediate inst AND 0x1f)) (reg m (rs1 inst))) m))
     | L_SRLI \<Rightarrow>
         Running (logInstruction I_SRLI (set_reg d (drop_bit (unat (immediate inst AND 0x1f)) (reg m (rs1 inst))) m))
     | L_SRAI \<Rightarrow>
         Running (logInstruction I_SRAI (set_reg d (cpp_sra (reg m (rs1 inst)) (unat (immediate inst AND 0x1f))) m))
     | L_SLTI \<Rightarrow>
         Running (logInstruction I_SLTI (set_reg d (bool_u32 (cpp_slt (reg m (rs1 inst)) (immediate inst))) m))
     | L_SLTIU \<Rightarrow>
         Running (logInstruction I_SLTIU (set_reg d (bool_u32 (reg m (rs1 inst) < immediate inst)) m))
     | _ \<Rightarrow> rest)"

text \<open>Loads and stores.\<close>

definition threaded_mem ::
  "label \<Rightarrow> 'w machine \<Rightarrow> Instruction \<Rightarrow> 'w machine outcome \<Rightarrow> 'w machine outcome" where
  "threaded_mem l m inst rest =
    (let d = rd inst in
     case l of
       L_LB \<Rightarrow>
         (let addr = reg m (rs1 inst) + immediate inst in load_then addr (read_u8 (memory m) addr)
           (\<lambda>v. Running (logInstruction I_LB (set_reg d (scast v) m))))
     | L_LH \<Rightarrow>
         (let addr = reg m (rs1 inst) + immediate inst in load_then addr (read_u16 (memory m) addr)
           (\<lambda>v. Running (logInstruction I_LH (set_reg d (scast v) m))))
     | L_LW \<Rightarrow>
         (let addr = reg m (rs1 inst) + immediate inst in load_then addr (read_u32 (memory m) addr)
           (\<lambda>v. Running (logInstruction I_LW (set_reg d (v) m))))
     | L_LBU \<Rightarrow>
         (let addr = reg m (rs1 inst) + immediate inst in load_then addr (read_u8 (memory m) addr)
           (\<lambda>v. Running (logInstruction I_LBU (set_reg d (ucast v) m))))
     | L_LHU \<Rightarrow>
         (let addr = reg m (rs1 inst) + immediate inst in load_then addr (read_u16 (memory m) addr)
           (\<lambda>v. Running (logInstruction I_LHU (set_reg d (ucast v) m))))
     | L_SB \<Rightarrow>
         (let addr = reg m (rs1 inst) + immediate inst in obind (store_then addr (write_u8 (memory m) addr (reg m (rs2 inst))) m)
           (\<lambda>m. Running (logInstruction I_SB m)))
     | L_SH \<Rightarrow>
         (let addr = reg m (rs1 inst) + immediate inst in obind (store_then addr (write_u16 (memory m) addr (reg m (rs2 inst))) m)
           (\<lambda>m. Running (logInstruction I_SH m)))
     | L_SW \<Rightarrow>
         (let addr = reg m (rs1 inst) + immediate inst in obind (store_then addr (write_u32 (memory m) addr (reg m (rs2 inst))) m)
           (\<lambda>m. Running (logInstruction I_SW m)))
     | _ \<Rightarrow> rest)"

text \<open>Conditional branches.\<close>

definition threaded_branch ::
  "label \<Rightarrow> 'w machine \<Rightarrow> Instruction \<Rightarrow> 'w machine outcome \<Rightarrow> 'w machine outcome" where
  "threaded_branch l m inst rest =
    (let d = rd inst in
     case l of
       L_BEQ \<Rightarrow>
         (let m = logInstruction I_BEQ m in
           Running (if reg m (rs1 inst) = reg m (rs2 inst) then m\<lparr>pc := pc m + (immediate inst - 4)\<rparr> else m))
     | L_BNE \<Rightarrow>
         (let m = logInstruction I_BNE m in
           Running (if reg m (rs1 inst) \<noteq> reg m (rs2 inst) then m\<lparr>pc := pc m + (immediate inst - 4)\<rparr> else m))
     | L_BLT \<Rightarrow>
         (let m = logInstruction I_BLT m in
           Running (if cpp_slt (reg m (rs1 inst)) (reg m (rs2 inst)) then m\<lparr>pc := pc m + (immediate inst - 4)\<rparr> else m))
     | L_BGE \<Rightarrow>
         (let m = logInstruction I_BGE m in
           Running (if \<not> cpp_slt (reg m (rs1 inst)) (reg m (rs2 inst)) then m\<lparr>pc := pc m + (immediate inst - 4)\<rparr> else m))
     | L_BLTU \<Rightarrow>
         (let m = logInstruction I_BLTU m in
           Running (if reg m (rs1 inst) < reg m (rs2 inst) then m\<lparr>pc := pc m + (immediate inst - 4)\<rparr> else m))
     | L_BGEU \<Rightarrow>
         (let m = logInstruction I_BGEU m in
           Running (if reg m (rs2 inst) \<le> reg m (rs1 inst) then m\<lparr>pc := pc m + (immediate inst - 4)\<rparr> else m))
     | _ \<Rightarrow> rest)"

text \<open>Jumps and upper immediates.\<close>

definition threaded_jump ::
  "label \<Rightarrow> 'w machine \<Rightarrow> Instruction \<Rightarrow> 'w machine outcome \<Rightarrow> 'w machine outcome" where
  "threaded_jump l m inst rest =
    (let d = rd inst in
     case l of
       L_JAL \<Rightarrow>
         (let m = logInstruction I_JAL m; m = set_reg d (pc m + 4) m in
           Running (m\<lparr>pc := pc m + (immediate inst - 4)\<rparr>))
     | L_JALR \<Rightarrow>
         (let m = logInstruction I_JALR (logJump (immediate inst + reg m (rs1 inst)) m);
                m = set_reg d (pc m + 4) m in
           Running (m\<lparr>pc := immediate inst + reg m (rs1 inst) - 4\<rparr>))
     | L_LUI \<Rightarrow>
         Running (logInstruction I_LUI (set_reg d (push_bit 12 (immediate inst)) m))
     | L_AUIPC \<Rightarrow>
         Running (logInstruction I_AUIPC (set_reg d (pc m + push_bit 12 (immediate inst)) m))
     | _ \<Rightarrow> rest)"

text \<open>System instructions.\<close>

definition threaded_system ::
  "'w host \<Rightarrow> label \<Rightarrow> 'w machine \<Rightarrow> Instruction \<Rightarrow> 'w machine outcome \<Rightarrow> 'w machine outcome" where
  "threaded_system h l m inst rest =
    (let d = rd inst in
     case l of
       L_ECALL \<Rightarrow>
         handle h (logInstruction I_ECALL m)
     | _ \<Rightarrow> rest)"

text \<open>Multiplication and division.\<close>

definition threaded_muldiv ::
  "label \<Rightarrow> 'w machine \<Rightarrow> Instruction \<Rightarrow> 'w machine outcome \<Rightarrow> 'w machine outcome" where
  "threaded_muldiv l m inst rest =
    (let d = rd inst in
     case l of
       L_MUL \<Rightarrow>
         Running (logInstruction I_MUL (set_reg d (cpp_mul (reg m (rs1 inst)) (reg m (rs2 inst))) m))
     | L_MULH \<Rightarrow>
         Running (logInstruction I_MULH (set_reg d (cpp_mulh (reg m (rs1 inst)) (reg m (rs2 inst))) m))
     | L_MULHSU \<Rightarrow>
         Running (logInstruction I_MULHSU (set_reg d (cpp_mulhsu (reg m (rs1 inst)) (reg m (rs2 inst))) m))
     | L_MULHU \<Rightarrow>
         Running (logInstruction I_MULHU (set_reg d (cpp_mulhu (reg m (rs1 inst)) (reg m (rs2 inst))) m))
     | L_DIV \<Rightarrow>
         Running (logInstruction I_DIV (
           if reg m (rs2 inst) = 0 then set_reg d (- 1) m
           else if reg m (rs1 inst) = 0x80000000 \<and> reg m (rs2 inst) = 0xFFFFFFFF then set_reg d 0x80000000 m
           else set_reg d (cpp_sdiv (reg m (rs1 inst)) (reg m (rs2 inst))) m))
     | L_DIVU \<Rightarrow>
         Running (logInstruction I_DIVU (
           if reg m (rs2 inst) = 0 then set_reg d 0xFFFFFFFF m
           else set_reg d (reg m (rs1 inst) div reg m (rs2 inst)) m))
     | L_REM \<Rightarrow>
         Running (logInstruction I_REM (
           if reg m (rs2 inst) = 0 then set_reg d (reg m (rs1 inst)) m
           else if reg m (rs1 inst) = 0x80000000 \<and> reg m (rs2 inst) = 0xFFFFFFFF then set_reg d 0 m
           else set_reg d (cpp_srem (reg m (rs1 inst)) (reg m (rs2 inst))) m))
     | L_REMU \<Rightarrow>
         Running (logInstruction I_REMU (
           if reg m (rs2 inst) = 0 then set_reg d (reg m (rs1 inst)) m
           else set_reg d (reg m (rs1 inst) mod reg m (rs2 inst)) m))
     | _ \<Rightarrow> rest)"

text \<open>Load-reserved and store-conditional.\<close>

definition threaded_atomic ::
  "label \<Rightarrow> 'w machine \<Rightarrow> Instruction \<Rightarrow> 'w machine outcome \<Rightarrow> 'w machine outcome" where
  "threaded_atomic l m inst rest =
    (let d = rd inst in
     case l of
       L_LR_W \<Rightarrow>
         load_then (reg m (rs1 inst)) (read_u32 (memory m) (reg m (rs1 inst)))
           (\<lambda>v. Running (logInstruction I_LR_W (set_reg d v m)))
     | L_SC_W \<Rightarrow>
         obind (store_then (reg m (rs1 inst)) (write_u32 (memory m) (reg m (rs1 inst)) (reg m (rs2 inst))) m)
           (\<lambda>m. Running (logInstruction I_SC_W (set_reg d 0 m)))
     | L_INVALID \<Rightarrow>
         Running (print (Unsupported_instruction (pc m)) m)
     | _ \<Rightarrow> rest)"

definition threaded_arms :: "'w host \<Rightarrow> label \<Rightarrow> 'w machine \<Rightarrow> Instruction \<Rightarrow> 'w machine outcome" where
  "threaded_arms h l m inst =
     threaded_op l m inst (threaded_op_imm l m inst (threaded_mem l m inst (threaded_branch l m inst
       (threaded_jump l m inst (threaded_system h l m inst (threaded_muldiv l m inst
         (threaded_atomic l m inst (Running m))))))))"

text \<open>The macro \<^verbatim>\<open>DISPATCH()\<close> up to its \<^verbatim>\<open>goto\<close>.\<close>

definition DISPATCH :: "Instruction \<Rightarrow> 'w machine \<Rightarrow> 'w machine outcome" where
  "DISPATCH inst m =
     (let m = logRegister (registerUse (itype inst)) (rs1 inst) (rs2 inst) (rd inst) m
      in Running (m\<lparr>pc := pc m + 4, reg := (reg m)(REG_x0 := 0)\<rparr>))"

text \<open>\<^verbatim>\<open>&instructions[(ctx.pc - textStartAddress) / 4]\<close>; outside the vector it is undefined.\<close>

definition fetch_instruction :: "Instruction list \<Rightarrow> u32 \<Rightarrow> u32 \<Rightarrow> Instruction option" where
  "fetch_instruction instructions textStartAddress a =
     (let k = unat ((a - textStartAddress) div 4)
      in if k < length instructions then Some (instructions ! k) else None)"

text \<open>One pass from a \<^verbatim>\<open>goto *instruction->handler\<close> to the next.\<close>

definition threaded_step :: "'w host \<Rightarrow> Instruction list \<Rightarrow> u32 \<Rightarrow> 'w machine \<Rightarrow> 'w machine outcome" where
  "threaded_step h instructions textStartAddress m =
     load_then (pc m) (fetch_instruction instructions textStartAddress (pc m)) (\<lambda>inst.
     load_then (pc m) (handler inst) (\<lambda>l.
       obind (threaded_arms h l m inst) (DISPATCH inst)))"

text \<open>
  The same with \<^verbatim>\<open>DIRECT_THREADING\<close> switched off: the handlers of the instructions are not used, every
  \<^verbatim>\<open>goto\<close> looks the type of the instruction up in the table.
\<close>

definition indirect_step :: "'w host \<Rightarrow> Instruction list \<Rightarrow> u32 \<Rightarrow> 'w machine \<Rightarrow> 'w machine outcome" where
  "indirect_step h instructions textStartAddress m =
     load_then (pc m) (fetch_instruction instructions textStartAddress (pc m)) (\<lambda>inst.
       if toIndex (itype inst) < length dispatch
       then obind (threaded_arms h (dispatch ! toIndex (itype inst)) m inst) (DISPATCH inst)
       else Undefined)"

text \<open>The engine never returns by itself; \<open>n\<close> bounds the instructions it executes.\<close>

definition runInstructionsThreaded ::
  "'w host \<Rightarrow> Instruction list \<Rightarrow> u32 \<Rightarrow> nat \<Rightarrow> 'w machine \<Rightarrow> 'w machine outcome" where
  "runInstructionsThreaded h instructions textStartAddress n m =
     iterate (threaded_step h (set_handlers instructions) textStartAddress) n m"

end
