(* ===== verification/Engines.thy ===== *)
theory Engines
  imports Interpreter
begin

text \<open>
  The four forms of the interpreter are one machine.  The chain of conditions is the predecoded
  engine after decoding; the threaded engine is the predecoded engine, instruction by instruction
  and for runs of any length; the nested switch is the chain on every supported word.  All of
  them keep register \<^verbatim>\<open>x0\<close> at zero, the allocator's areas disjoint and the heap above its base.
\<close>

unbundle bit_operations_syntax

section \<open>Notions\<close>

text \<open>No entry of the instruction tables matches the word.\<close>

definition unmatched :: "u32 \<Rightarrow> bool" where
  "unmatched i \<longleftrightarrow> (\<forall>s\<in>set all_specs. \<not> spec_matches i s)"

text \<open>The label an instruction type should be dispatched to.\<close>

definition label_of :: "EInstruction \<Rightarrow> label" where
  "label_of t = (case t of
       I_ADD \<Rightarrow> L_ADD | I_SUB \<Rightarrow> L_SUB | I_XOR \<Rightarrow> L_XOR
     | I_OR \<Rightarrow> L_OR | I_AND \<Rightarrow> L_AND | I_SLL \<Rightarrow> L_SLL
     | I_SRL \<Rightarrow> L_SRL | I_SRA \<Rightarrow> L_SRA | I_SLT \<Rightarrow> L_SLT
     | I_SLTU \<Rightarrow> L_SLTU | I_ADDI \<Rightarrow> L_ADDI | I_XORI \<Rightarrow> L_XORI
     | I_ORI \<Rightarrow> L_ORI | I_ANDI \<Rightarrow> L_ANDI | I_SLLI \<Rightarrow> L_SLLI
     | I_SRLI \<Rightarrow> L_SRLI | I_SRAI \<Rightarrow> L_SRAI | I_SLTI \<Rightarrow> L_SLTI
     | I_SLTIU \<Rightarrow> L_SLTIU | I_LB \<Rightarrow> L_LB | I_LH \<Rightarrow> L_LH
     | I_LW \<Rightarrow> L_LW | I_LBU \<Rightarrow> L_LBU | I_LHU \<Rightarrow> L_LHU
     | I_SB \<Rightarrow> L_SB | I_SH \<Rightarrow> L_SH | I_SW \<Rightarrow> L_SW
     | I_BEQ \<Rightarrow> L_BEQ | I_BNE \<Rightarrow> L_BNE | I_BLT \<Rightarrow> L_BLT
     | I_BGE \<Rightarrow> L_BGE | I_BLTU \<Rightarrow> L_BLTU | I_BGEU \<Rightarrow> L_BGEU
     | I_JAL \<Rightarrow> L_JAL | I_JALR \<Rightarrow> L_JALR | I_LUI \<Rightarrow> L_LUI
     | I_AUIPC \<Rightarrow> L_AUIPC | I_ECALL \<Rightarrow> L_ECALL | I_MUL \<Rightarrow> L_MUL
     | I_MULH \<Rightarrow> L_MULH | I_MULHSU \<Rightarrow> L_MULHSU | I_MULHU \<Rightarrow> L_MULHU
     | I_DIV \<Rightarrow> L_DIV | I_DIVU \<Rightarrow> L_DIVU | I_REM \<Rightarrow> L_REM
     | I_REMU \<Rightarrow> L_REMU | I_LR_W \<Rightarrow> L_LR_W | I_SC_W \<Rightarrow> L_SC_W
     | _ \<Rightarrow> L_INVALID)"

text \<open>
  One pass of the emulator loop without threading: fetch the entry of the instruction vector for the
  program counter and execute it.
\<close>

definition predecoded_step ::
  "'w host \<Rightarrow> Instruction list \<Rightarrow> u32 \<Rightarrow> 'w machine \<Rightarrow> 'w machine outcome" where
  "predecoded_step h instructions textStartAddress m =
     load_then (pc m) (fetch_instruction instructions textStartAddress (pc m)) (runInstructionPredecoded h m)"

text \<open>
  The instruction vector still describes the word in memory at the program counter: the guest has
  not modified its code.
\<close>

definition code_current :: "Instruction list \<Rightarrow> u32 \<Rightarrow> 'w machine \<Rightarrow> bool" where
  "code_current instructions textStartAddress m \<longleftrightarrow>
     (case (fetch_instruction instructions textStartAddress (pc m), read_u32 (memory m) (pc m)) of
        (Some inst, Some w) \<Rightarrow> inst = decode w (pc m)
      | _ \<Rightarrow> False)"

text \<open>
  The engines also record the same.  Of a word that the decoder rejects, those that fetch it count the registers by its
  opcode, those that decode first do not; a machine without an active profile records nothing.
\<close>

definition logs_agree :: "'w machine \<Rightarrow> bool" where
  "logs_agree m \<longleftrightarrow> profile m = None \<or>
     (case read_u32 (memory m) (pc m) of None \<Rightarrow> True | Some w \<Rightarrow> itype (decode w (pc m)) \<noteq> I_INVALID)"

text \<open>A machine as it would be if nothing had been recorded.\<close>

definition without_profile :: "'w machine \<Rightarrow> 'w machine" where
  "without_profile m = m\<lparr>profile := None\<rparr>"

text \<open>No entry has the type that only counts the enumerators.\<close>

definition table_ok :: "Instruction list \<Rightarrow> bool" where
  "table_ok instructions \<longleftrightarrow> list_all (\<lambda>inst. itype inst \<noteq> I_TYPE_COUNT) instructions"

text \<open>
  The words on which the nested switch and the chain of conditions are the same: the decoder
  accepts them, and a system instruction has the funct3 of \<^verbatim>\<open>ecall\<close>.
\<close>

definition supported_word :: "u32 \<Rightarrow> bool" where
  "supported_word i \<longleftrightarrow> itype (decode i 0) \<notin> {I_INVALID, I_EBREAK} \<and>
     (getOpcode i = 0b1110011 \<longrightarrow> getFunct3 i = 0)"

definition supported_code :: "'w machine \<Rightarrow> bool" where
  "supported_code m \<longleftrightarrow> (case read_u32 (memory m) (pc m) of None \<Rightarrow> True | Some i \<Rightarrow> supported_word i)"

text \<open>A guest whose memory starts with \<^verbatim>\<open>addi a0, x0, 5\<close>.\<close>

definition addi_demo :: "u8 list machine" where
  "addi_demo = boot_machine (new_Memory\<lparr>mem_data := (\<lambda>_. 0)(0 := 0x13, 1 := 0x05, 2 := 0x50)\<rparr>) (\<lambda>_. 0)"

section \<open>The chain of conditions and the decoder\<close>

lemmas chain_groups = chain_op_imm_def chain_op_def chain_load_def chain_store_def chain_branch_def
  chain_jump_def chain_ecall_def chain_muldiv_def chain_atomic_def

lemmas switch_groups = switch_op_imm_def switch_op_def switch_load_def switch_store_def
  switch_branch_def switch_atomic_def switch_lui_def switch_jalr_def

lemmas predecoded_groups = predecoded_op_def predecoded_op_imm_def predecoded_mem_def
  predecoded_branch_def predecoded_jump_def predecoded_system_def predecoded_muldiv_def
  predecoded_atomic_def

lemma I_FMT_imm_eq_0: "I_FMT_imm i = 0 \<longleftrightarrow> i AND 0xFFF00000 = 0"
proof
  assume "I_FMT_imm i = 0"
  then have "signed_drop_bit 20 (i AND 0xFFF00000) = 0" by (simp add: I_FMT_imm_def)
  then have *: "bit (signed_drop_bit 20 (i AND 0xFFF00000)) n = False" for n by simp
  show "i AND 0xFFF00000 = 0"
    apply (rule u32_bit_eqI)
    using *[of 0] *[of 1] *[of 2] *[of 3] *[of 4] *[of 5] *[of 6] *[of 7] *[of 8] *[of 9] *[of 10] *[of 11]
    by (simp add: all_less_32 bit_simps)
qed (simp add: I_FMT_imm_def)

lemma funct5_mask: "getFunct5 i = ucast (drop_bit 27 (i AND 0xF8000000))"
    "i AND 0xF8000000 = push_bit 27 (ucast (getFunct5 i))"
  by (rule u8_bit_eqI, simp add: all_less_8 getFunct5_def bit_simps)
    (rule u32_bit_eqI, simp add: all_less_32 getFunct5_def bit_simps)

lemma funct5_bits:
  "getFunct5 i = 2 \<longleftrightarrow> i AND 0xF8000000 = 0x10000000"
  "getFunct5 i = 3 \<longleftrightarrow> i AND 0xF8000000 = 0x18000000"
  using funct5_mask [of i] by auto

lemma shift_amount: "unat (I_FMT_imm i AND 0x1f) = unat (getShift i)"
proof -
  have "I_FMT_imm i AND 0x1f = drop_bit 20 i AND 0x1f"
    by (rule u32_bit_eqI) (simp add: all_less_32 I_FMT_imm_def bit_simps)
  moreover have "unat (drop_bit 20 i AND 0x1f) < 2 ^ 8"
    using word_and_le1 [of "drop_bit 20 i" "0x1f"] by (simp add: word_le_nat_alt)
  ultimately show ?thesis
    by (simp add: getShift_def unsigned_ucast_eq take_bit_nat_eq_self)
qed

lemmas chain_vs_predecoded = chain_arms_def chain_groups predecoded_arms_def predecoded_groups
  spec_matches_def getSHType_def shift_amount I_FMT_imm_eq_0 funct5_bits Let_def

lemma chain_RV32I:
  "s \<in> set RV32I \<Longrightarrow> spec_matches i s \<Longrightarrow> chain_arms h m i = predecoded_arms h m (decode_spec i a s)"
  unfolding RV32I_def set_simps
  by (elim insertE emptyE) (simp_all add: chain_vs_predecoded)

lemma chain_RV32MA:
  "s \<in> set (RV32M @ RV32A) \<Longrightarrow> spec_matches i s \<Longrightarrow> chain_arms h m i = predecoded_arms h m (decode_spec i a s)"
  unfolding RV32M_def RV32A_def append.simps set_simps
  by (elim insertE emptyE) (simp_all add: chain_vs_predecoded)


lemma unmatched_opcode:
  "unmatched i \<Longrightarrow> list_all (\<lambda>s. \<not> (spec_matches i s)) (filter (\<lambda>s. spec_opcode s = opc) all_specs)"
  by (auto simp: unmatched_def list_all_iff)



lemma unmatched_fields:
  assumes "unmatched i"
  shows
    "getOpcode i = 0b0010011 \<Longrightarrow> getFunct3 i \<notin> {0, 2, 3, 4, 6, 7} \<and>
       \<not> (getFunct3 i = 1 \<and> getFunct7 i = 0) \<and> \<not> (getFunct3 i = 5 \<and> (getFunct7 i = 0 \<or> getFunct7 i = 0x20))"
    "getOpcode i = 0b0110011 \<Longrightarrow> getFunct7 i = 0 \<or> getFunct7 i = 1 \<Longrightarrow> getFunct3 i \<notin> {0, 1, 2, 3, 4, 5, 6, 7}"
    "getOpcode i = 0b0110011 \<Longrightarrow> getFunct7 i = 0x20 \<Longrightarrow> getFunct3 i \<notin> {0, 5}"
    "getOpcode i = 0b0000011 \<Longrightarrow> getFunct3 i \<notin> {0, 1, 2, 4, 5}"
    "getOpcode i = 0b0100011 \<Longrightarrow> getFunct3 i \<notin> {0, 1, 2}"
    "getOpcode i = 0b1100011 \<Longrightarrow> getFunct3 i \<notin> {0, 1, 4, 5, 6, 7}"
    "getOpcode i = 0b1100111 \<Longrightarrow> getFunct3 i \<noteq> 0"
    "getOpcode i \<notin> {0b1101111, 0b0110111, 0b0010111}"
    "getOpcode i = 0b1110011 \<Longrightarrow> I_FMT_imm i \<noteq> 0"
    "getOpcode i = 0b0101111 \<Longrightarrow> getFunct3 i = 2 \<Longrightarrow> getFunct5 i \<notin> {2, 3}"
  subgoal using unmatched_opcode [OF assms, of "0b0010011"] by (auto simp: spec_tables spec_matches_def)
  subgoal using unmatched_opcode [OF assms, of "0b0110011"] by (auto simp: spec_tables spec_matches_def)
  subgoal using unmatched_opcode [OF assms, of "0b0110011"] by (simp add: spec_tables spec_matches_def)
  subgoal using unmatched_opcode [OF assms, of "0b0000011"] by (simp add: spec_tables spec_matches_def)
  subgoal using unmatched_opcode [OF assms, of "0b0100011"] by (simp add: spec_tables spec_matches_def)
  subgoal using unmatched_opcode [OF assms, of "0b1100011"] by (simp add: spec_tables spec_matches_def)
  subgoal using unmatched_opcode [OF assms, of "0b1100111"] by (simp add: spec_tables spec_matches_def)
  subgoal using unmatched_opcode [OF assms, of "0b1101111"] unmatched_opcode [OF assms, of "0b0110111"]
      unmatched_opcode [OF assms, of "0b0010111"] by (simp add: spec_tables spec_matches_def)
  subgoal using unmatched_opcode [OF assms, of "0b1110011"] by (simp add: spec_tables spec_matches_def I_FMT_imm_eq_0)
  subgoal using unmatched_opcode [OF assms, of "0b0101111"] by (simp add: spec_tables spec_matches_def funct5_bits)
  done


lemma chain_unmatched_groups:
  assumes "unmatched i"
  shows "chain_op_imm m i rest = rest" "chain_op m i rest = rest" "chain_load m i rest = rest"
    "chain_store m i rest = rest" "chain_branch m i rest = rest" "chain_jump m i rest = rest"
    "chain_ecall h m i rest = rest" "chain_muldiv m i rest = rest" "chain_atomic m i rest = rest"
  subgoal using unmatched_fields(1) [OF assms] unfolding chain_op_imm_def getSHType_def Let_def by auto
  subgoal using unmatched_fields(2,3) [OF assms] unfolding chain_op_def Let_def by auto
  subgoal using unmatched_fields(4) [OF assms] unfolding chain_load_def Let_def by auto
  subgoal using unmatched_fields(5) [OF assms] unfolding chain_store_def Let_def by auto
  subgoal using unmatched_fields(6) [OF assms] unfolding chain_branch_def Let_def by auto
  subgoal using unmatched_fields(7,8) [OF assms] unfolding chain_jump_def Let_def by auto
  subgoal using unmatched_fields(9) [OF assms] unfolding chain_ecall_def Let_def by auto
  subgoal using unmatched_fields(2) [OF assms] unfolding chain_muldiv_def Let_def by auto
  subgoal using unmatched_fields(10) [OF assms] unfolding chain_atomic_def Let_def by auto
  done
lemma switch_RV32I:
  "s \<in> set RV32I \<Longrightarrow> spec_matches i s \<Longrightarrow> getOpcode i = 0b1110011 \<longrightarrow> getFunct3 i = 0 \<and> spec_type s \<noteq> I_EBREAK \<Longrightarrow>
  switch_arms h m i = predecoded_arms h m (decode_spec i a s)"
  unfolding RV32I_def set_simps
  by (elim insertE emptyE) (simp_all add: switch_arms_def switch_groups chain_vs_predecoded)

lemma switch_RV32MA:
  "s \<in> set (RV32M @ RV32A) \<Longrightarrow> spec_matches i s \<Longrightarrow> switch_arms h m i = predecoded_arms h m (decode_spec i a s)"
  unfolding RV32M_def RV32A_def append.simps set_simps
  by (elim insertE emptyE) (simp_all add: switch_arms_def switch_groups chain_vs_predecoded)

lemma registerUse_agree:
  "s \<in> set all_specs \<Longrightarrow> opcodeRegisterUse (spec_opcode s) = registerUse (spec_type s)"
  unfolding spec_tables append.simps set_simps
  by (elim insertE emptyE) (simp_all add: opcodeRegisterUse_def registerUse_def RegisterUseByType_def RegisterUseByOpcode_def spec_tables)


lemma chain_unmatched:
  "unmatched i \<Longrightarrow> chain_arms h m i = Running (print (Unsupported_instruction (pc m)) m)"
  by (simp add: chain_arms_def chain_unmatched_groups)

lemma all_specs_split: "s \<in> set all_specs \<longleftrightarrow> s \<in> set RV32I \<or> s \<in> set (RV32M @ RV32A)"
  by (simp add: all_specs_def)

lemma chain_matched:
  "s \<in> set all_specs \<Longrightarrow> spec_matches i s \<Longrightarrow> chain_arms h m i = predecoded_arms h m (decode_spec i a s)"
  unfolding all_specs_split using chain_RV32I chain_RV32MA by blast

lemma predecoded_invalid:
  "itype inst = I_INVALID \<Longrightarrow> predecoded_arms h m inst = Running (print (Unsupported_instruction (pc m)) m)"
  by (simp add: predecoded_arms_def predecoded_groups)

lemma chain_eq_predecoded_arms: "chain_arms h m i = predecoded_arms h m (decode i a)"
proof (cases "unmatched i")
  case True
  then show ?thesis
    by (simp add: chain_unmatched predecoded_invalid decode_eq_invalid unmatched_def blank_instruction_def)
next
  case False
  then obtain s where "s \<in> set all_specs" "spec_matches i s" by (auto simp: unmatched_def)
  then show ?thesis using chain_matched decode_eq_spec by metis
qed

lemma decode_not_invalid:
  assumes "itype (decode i a) \<noteq> I_INVALID"
  obtains s where "s \<in> set all_specs" "spec_matches i s" "decode i a = decode_spec i a s"
proof -
  have "\<exists>s\<in>set all_specs. spec_matches i s"
  proof (rule ccontr)
    assume "\<not> (\<exists>s\<in>set all_specs. spec_matches i s)"
    with decode_eq_invalid [of i a] assms show False by (simp add: blank_instruction_def)
  qed
  then show thesis using that decode_eq_spec by blast
qed

lemma logRegister_no_profile: "profile m = None \<Longrightarrow> logRegister u a b c m = m"
  by (simp add: logRegister_def)

lemma log_decoded:
  assumes "itype (decode i a) \<noteq> I_INVALID \<or> profile m = None"
  shows "logRegister (opcodeRegisterUse (getOpcode i)) (getRS1 i) (getRS2 i) (getRD i) m =
    logRegister (registerUse (itype (decode i a))) (rs1 (decode i a)) (rs2 (decode i a)) (rd (decode i a)) m"
  using assms
proof
  assume "itype (decode i a) \<noteq> I_INVALID"
  then obtain s where s: "s \<in> set all_specs" "spec_matches i s" "decode i a = decode_spec i a s"
    by (rule decode_not_invalid)
  then show ?thesis using registerUse_agree [OF s(1)] by (simp add: spec_matches_def)
qed (simp add: logRegister_no_profile)

lemma runInstruction_predecoded:
  assumes "itype (decode i a) \<noteq> I_INVALID \<or> profile m = None"
  shows "runInstruction_word h m i = runInstructionPredecoded h m (decode i a)"
  unfolding runInstruction_word_def runInstructionPredecoded_def log_decoded [OF assms]
  by (simp add: chain_eq_predecoded_arms [of h _ i a])

lemma switch_eq_chain_arms:
  assumes "itype (decode i a) \<notin> {I_INVALID, I_EBREAK}" "getOpcode i = 0b1110011 \<longrightarrow> getFunct3 i = 0"
  shows "switch_arms h m i = chain_arms h m i"
proof -
  obtain s where s: "s \<in> set all_specs" "spec_matches i s" "decode i a = decode_spec i a s"
    using assms decode_not_invalid by auto
  then have "spec_type s \<noteq> I_EBREAK" using assms(1) by simp
  then have "switch_arms h m i = predecoded_arms h m (decode_spec i a s)"
    using s(1) unfolding all_specs_split using switch_RV32I switch_RV32MA s(2) assms(2) by blast
  then show ?thesis by (simp only: chain_matched [OF s(1,2), of h m a])
qed

section \<open>Threading\<close>

lemmas threaded_groups = threaded_op_def threaded_op_imm_def threaded_mem_def threaded_branch_def
  threaded_jump_def threaded_system_def threaded_muldiv_def threaded_atomic_def

lemma dispatch_toIndex:
  assumes "t \<noteq> I_TYPE_COUNT"
  shows "dispatch ! toIndex t = label_of t"
proof -
  have "\<forall>t. t \<noteq> I_TYPE_COUNT \<longrightarrow> dispatch ! toIndex t = label_of t" by code_simp
  with assms show ?thesis by blast
qed

lemma threaded_arms_label: "threaded_arms h (label_of (itype inst)) m inst = predecoded_arms h m inst"
  if "itype inst \<noteq> I_TYPE_COUNT"
  using that
  by (cases "itype inst")
    (simp_all add: label_of_def threaded_arms_def threaded_groups predecoded_arms_def predecoded_groups)

lemma threaded_arms_predecoded:
  "itype inst \<noteq> I_TYPE_COUNT \<Longrightarrow>
   threaded_arms h (dispatch ! toIndex (itype inst)) m inst = predecoded_arms h m inst"
  by (simp add: dispatch_toIndex threaded_arms_label)

lemma recordRegisterAccess_none: "recordRegisterAccess 0 a b c p = p"
  by (simp add: recordRegisterAccess_def count_register_def)

lemma logRegister_none: "logRegister 0 a b c m = m"
  by (cases "profile m") (simp_all add: logRegister_def recordRegisterAccess_none)

lemma recordRegisterAccess_commute:
  "recordRegisterAccess u a b c (incrementInstructionCount t p) =
     incrementInstructionCount t (recordRegisterAccess u a b c p)"
  "recordRegisterAccess u a b c (recordIndirectBranch x y p) =
     recordIndirectBranch x y (recordRegisterAccess u a b c p)"
  by (simp_all add: recordRegisterAccess_def count_register_def incrementInstructionCount_def
      recordIndirectBranch_def)

lemma logRegister_commute:
  "logInstruction t (logRegister u a b c m) = logRegister u a b c (logInstruction t m)"
  "logJump x (logRegister u a b c m) = logRegister u a b c (logJump x m)"
  "set_reg r v (logRegister u a b c m) = logRegister u a b c (set_reg r v m)"
  "print s (logRegister u a b c m) = logRegister u a b c (print s m)"
  "(logRegister u a b c m)\<lparr>pc := x\<rparr> = logRegister u a b c (m\<lparr>pc := x\<rparr>)"
  "(logRegister u a b c m)\<lparr>memory := mm\<rparr> = logRegister u a b c (m\<lparr>memory := mm\<rparr>)"
  by (simp_all add: logRegister_def logInstruction_def logJump_def set_reg_def print_def
      option.map_comp comp_def recordRegisterAccess_commute)

lemma predecoded_arms_logRegister:
  assumes "itype inst \<noteq> I_ECALL"
  shows "predecoded_arms h (logRegister u a b c m) inst =
    obind (predecoded_arms h m inst) (\<lambda>m. Running (logRegister u a b c m))"
  using assms
  by (cases "itype inst")
    (simp_all add: predecoded_arms_def predecoded_groups Let_def outcome_simps logRegister_commute
      load_then_def store_then_def split: option.splits)

lemma DISPATCH_finish:
  "DISPATCH inst m = finish (logRegister (registerUse (itype inst)) (rs1 inst) (rs2 inst) (rd inst) m)"
  by (simp add: DISPATCH_def finish_def)

lemma registerUse_ECALL: "registerUse I_ECALL = 0"
  by (simp add: registerUse_def RegisterUseByType_def USE_NONE_def)

lemma threaded_instruction:
  assumes "itype inst \<noteq> I_TYPE_COUNT"
  shows "obind (threaded_arms h (dispatch ! toIndex (itype inst)) m inst) (DISPATCH inst) =
    runInstructionPredecoded h m inst"
proof (cases "itype inst = I_ECALL")
  case True
  then show ?thesis
    unfolding threaded_arms_predecoded [OF assms] runInstructionPredecoded_def DISPATCH_finish
    by (simp add: registerUse_ECALL logRegister_none)
next
  case False
  then show ?thesis
    unfolding threaded_arms_predecoded [OF assms] runInstructionPredecoded_def
      predecoded_arms_logRegister [OF False] obind_assoc DISPATCH_finish
    by simp
qed

section \<open>Invariants and lock step\<close>

lemmas arm_simps = outcome_simps memory_ok_typed_write Let_def

lemma predecoded_keeps:
  assumes "mmap_rejects_empty h" "memory_ok (memory m)"
  shows "orunning (\<lambda>m'. memory_ok (memory m')) (predecoded_arms h m inst)"
  using assms
  by (cases "itype inst") (simp_all add: predecoded_arms_def predecoded_groups arm_simps kernel.keeps)

lemma chain_keeps:
  assumes "mmap_rejects_empty h" "memory_ok (memory m)"
  shows "orunning (\<lambda>m'. memory_ok (memory m')) (chain_arms h m i)"
  unfolding chain_eq_predecoded_arms [of h m i 0] by (rule predecoded_keeps [OF assms])

lemma switch_keeps:
  assumes "mmap_rejects_empty h" "memory_ok (memory m)"
  shows "orunning (\<lambda>m'. memory_ok (memory m')) (switch_arms h m i)"
  unfolding switch_arms_def switch_groups Let_def orunning_if
  using assms
  by (simp add: arm_simps kernel.keeps)

lemma finish_ok: "orunning (\<lambda>m'. memory_ok (memory m')) x \<Longrightarrow> orunning machine_ok (obind x finish)"
  by (cases x) (simp_all add: finish_def machine_ok_def)

lemma runInstruction_machine_ok:
  "mmap_rejects_empty h \<Longrightarrow> machine_ok m \<Longrightarrow> orunning machine_ok (runInstruction h m)"
  unfolding runInstruction_def runInstruction_word_def 
  by (auto simp: orunning_load_then machine_ok_def[of m] intro!: finish_ok chain_keeps)

lemma runInstructionSwitch_machine_ok:
  "mmap_rejects_empty h \<Longrightarrow> machine_ok m \<Longrightarrow> orunning machine_ok (runInstructionSwitch h m)"
  unfolding runInstructionSwitch_def runInstructionSwitch_word_def 
  by (auto simp: orunning_load_then machine_ok_def[of m] intro!: finish_ok switch_keeps)

lemma runInstructionPredecoded_machine_ok:
  "mmap_rejects_empty h \<Longrightarrow> machine_ok m \<Longrightarrow> orunning machine_ok (runInstructionPredecoded h m inst)"
  unfolding runInstructionPredecoded_def
  by (auto simp: machine_ok_def[of m] intro!: finish_ok predecoded_keeps)

lemma predecoded_step_machine_ok:
  "mmap_rejects_empty h \<Longrightarrow> machine_ok m \<Longrightarrow> orunning machine_ok (predecoded_step h is t m)"
  unfolding predecoded_step_def by (simp add: orunning_load_then runInstructionPredecoded_machine_ok)

lemma fetch_set_handlers:
  "fetch_instruction (set_handlers is) t a =
     map_option (\<lambda>inst. inst\<lparr>handler := Some (dispatch ! toIndex (itype inst))\<rparr>) (fetch_instruction is t a)"
  by (simp add: fetch_instruction_def set_handlers_def Let_def)

lemma predecoded_ignores_handler:
  "runInstructionPredecoded h m (inst\<lparr>handler := l\<rparr>) = runInstructionPredecoded h m inst"
  by (cases "itype inst") (simp_all add: runInstructionPredecoded_def predecoded_arms_def predecoded_groups Let_def)

lemma threaded_step_predecoded:
  assumes "table_ok is"
  shows "threaded_step h (set_handlers is) t m = predecoded_step h is t m"
proof (cases "fetch_instruction is t (pc m)")
  case None
  then show ?thesis by (simp add: threaded_step_def predecoded_step_def fetch_set_handlers load_then_def)
next
  case (Some inst)
  have "inst \<in> set is" using Some by (auto simp: fetch_instruction_def Let_def split: if_splits)
  with assms have "itype inst \<noteq> I_TYPE_COUNT" by (auto simp: table_ok_def list_all_iff)
  with Some threaded_instruction [of "inst\<lparr>handler := Some (dispatch ! toIndex (itype inst))\<rparr>" h m]
  show ?thesis
    by (simp add: threaded_step_def predecoded_step_def fetch_set_handlers load_then_def predecoded_ignores_handler)
qed

lemma dispatch_total: 
  assumes "t \<noteq> I_TYPE_COUNT"
  shows "toIndex t < length dispatch"
proof -
  have "\<forall>t. t \<noteq> I_TYPE_COUNT \<longrightarrow> toIndex t < length dispatch" by code_simp
  with assms show ?thesis by blast
qed

lemma indirect_step_predecoded:
  assumes "table_ok is"
  shows "indirect_step h is t m = predecoded_step h is t m"
proof (cases "fetch_instruction is t (pc m)")
  case None
  then show ?thesis by (simp add: indirect_step_def predecoded_step_def load_then_def)
next
  case (Some inst)
  then have "inst \<in> set is" by (auto simp: fetch_instruction_def Let_def split: if_splits)
  with assms have "itype inst \<noteq> I_TYPE_COUNT" by (auto simp: table_ok_def list_all_iff)
  with Some threaded_instruction [of inst h m] dispatch_total [of "itype inst"]
  show ?thesis by (simp add: indirect_step_def predecoded_step_def load_then_def)
qed

interpretation chain_engine: stepper "runInstruction h" "\<lambda>m. mmap_rejects_empty h \<and> machine_ok m"
  for h :: "'w host"
  by unfold_locales (auto intro: orunning_mono runInstruction_machine_ok)

interpretation switch_engine: stepper "runInstructionSwitch h" "\<lambda>m. mmap_rejects_empty h \<and> machine_ok m"
  for h :: "'w host"
  by unfold_locales (auto intro: orunning_mono runInstructionSwitch_machine_ok)

interpretation predecoded_engine: stepper "predecoded_step h is t" "\<lambda>m. mmap_rejects_empty h \<and> machine_ok m"
  for h :: "'w host" and "is" t
  by unfold_locales (auto intro: orunning_mono predecoded_step_machine_ok)

interpretation threaded_predecoded: lockstep "threaded_step h (set_handlers is) t" "predecoded_step h is t" "\<lambda>_. table_ok is"
  for h :: "'w host" and "is" t
  by unfold_locales (rule threaded_step_predecoded)

interpretation indirect_predecoded: lockstep "indirect_step h is t" "predecoded_step h is t" "\<lambda>_. table_ok is"
  for h :: "'w host" and "is" t
  by unfold_locales (rule indirect_step_predecoded)

interpretation chain_predecoded: lockstep "runInstruction h" "predecoded_step h is t" "\<lambda>m. code_current is t m \<and> logs_agree m"
  for h :: "'w host" and "is" t
  by unfold_locales
    (auto simp: code_current_def logs_agree_def runInstruction_def predecoded_step_def load_then_def intro: runInstruction_predecoded split: option.splits)

lemma itype_decode: "itype (decode w a) = itype (decode w b)"
proof (cases "\<exists>spec\<in>set all_specs. spec_matches w spec")
  case True
  then obtain spec where "spec \<in> set all_specs" "spec_matches w spec" by blast
  then show ?thesis by (simp add: decode_eq_spec)
qed (simp add: decode_eq_invalid blank_instruction_def)

lemma supported_logs: "code_current is t m \<Longrightarrow> supported_code m \<Longrightarrow> logs_agree m"
  using itype_decode [of _ "pc m" 0] by (auto simp: code_current_def supported_code_def supported_word_def logs_agree_def split: option.splits)

section \<open>The profile is only written\<close>

lemma log_none:
  "profile m = None \<Longrightarrow> logInstruction t m = m" "profile m = None \<Longrightarrow> logJump x m = m"
  "profile m = None \<Longrightarrow> logRegister u a b c m = m"
  by (simp_all add: logInstruction_def logJump_def logRegister_def)

lemma without_profile_simps:
  "reg (without_profile m) = reg m" "pc (without_profile m) = pc m" "memory (without_profile m) = memory m"
  "profile (without_profile m) = None"
  "without_profile (logInstruction t m) = without_profile m" "without_profile (logJump a m) = without_profile m"
  "without_profile (logRegister u r1 r2 d m) = without_profile m"
  by (simp_all add: without_profile_def logInstruction_def logJump_def logRegister_def)

lemma without_profile_updates:
  "without_profile (m\<lparr>reg := r\<rparr>) = (without_profile m)\<lparr>reg := r\<rparr>" "without_profile (m\<lparr>pc := x\<rparr>) = (without_profile m)\<lparr>pc := x\<rparr>"
  "without_profile (m\<lparr>memory := mem\<rparr>) = (without_profile m)\<lparr>memory := mem\<rparr>"
  "without_profile (set_reg r' v m) = set_reg r' v (without_profile m)" "without_profile (print msg m) = print msg (without_profile m)"
  by (simp_all add: without_profile_def set_reg_def print_def)

lemma handle_but_profile: "omap without_profile (handle h m) = handle h (without_profile m)"
  using profile_unseen.handle_unseen [of h None m] by (simp add: without_profile_def [abs_def])

lemma arms_unseen: "predecoded_arms h (without_profile m) inst = omap without_profile (predecoded_arms h m inst)"
  by (cases "itype inst")
    (simp_all add: predecoded_arms_def predecoded_groups Let_def load_then_def store_then_def without_profile_simps without_profile_updates
      handle_but_profile log_none split: option.splits)

lemma finish_unseen: "omap without_profile (obind x finish) = obind (omap without_profile x) finish"
  by (cases x) (simp_all add: finish_def without_profile_simps without_profile_updates)

lemma runInstructionPredecoded_unseen:
  "runInstructionPredecoded h (without_profile m) inst = omap without_profile (runInstructionPredecoded h m inst)"
  by (simp add: runInstructionPredecoded_def finish_unseen log_none without_profile_simps flip: arms_unseen)

lemma runInstruction_word_unseen:
  "runInstruction_word h (without_profile m) i = omap without_profile (runInstruction_word h m i)"
  by (simp add: runInstruction_word_def chain_eq_predecoded_arms [of h _ i 0] finish_unseen log_none without_profile_simps flip: arms_unseen)

interpretation chain_unseen: unseen_by_step "runInstruction h" without_profile for h :: "'w host"
  by unfold_locales (simp add: runInstruction_def load_then_def without_profile_simps runInstruction_word_unseen split: option.splits)

interpretation predecoded_unseen: unseen_by_step "predecoded_step h is t" without_profile for h :: "'w host" and "is" t
  by unfold_locales (simp add: predecoded_step_def load_then_def without_profile_simps runInstructionPredecoded_unseen split: option.splits)

text \<open>Engines that fetch and engines that decode first do the same to everything but the profile.\<close>

lemma chain_predecoded_but_profile:
  assumes "\<And>k m'. k < n \<Longrightarrow> iterate (runInstruction h) k m = Running m' \<Longrightarrow> code_current is t m'"
  shows "omap without_profile (iterate (runInstruction h) n m) = omap without_profile (iterate (predecoded_step h is t) n m)"
  unfolding chain_unseen.iterate_unseen [symmetric] predecoded_unseen.iterate_unseen [symmetric]
proof (rule chain_predecoded.iterate_agree)
  fix k m' assume k: "k < n" and "iterate (runInstruction h) k (without_profile m) = Running m'"
  then obtain m0 where m0: "iterate (runInstruction h) k m = Running m0" "m' = without_profile m0"
    unfolding chain_unseen.iterate_unseen by (cases "iterate (runInstruction h) k m") simp_all
  then show "code_current is t m' \<and> logs_agree m'"
    using assms [OF k m0(1)] by (simp add: code_current_def logs_agree_def without_profile_simps split: option.splits)
qed

lemma switch_chain_word: "supported_word i \<Longrightarrow> runInstructionSwitch_word h m i = runInstruction_word h m i"
  unfolding runInstructionSwitch_word_def runInstruction_word_def supported_word_def
  by (simp add: switch_eq_chain_arms [of i 0])

interpretation switch_chain: lockstep "runInstructionSwitch h" "runInstruction h" supported_code
  for h :: "'w host" 
  by unfold_locales
    (auto simp: supported_code_def runInstruction_def runInstructionSwitch_def load_then_def switch_chain_word split: option.splits)

interpretation chain_switch: lockstep "runInstruction h" "runInstructionSwitch h" supported_code
  for h :: "'w host"
  by unfold_locales (simp add: switch_chain.agree)

lemma addi_decoded: "decode 0x00500513 a = \<lparr>itype = I_ADDI, instruction = 0x00500513, immediate = 5,
    address = a, rs1 = 0, rs2 = 5, rd = 10, handler = None\<rparr>"
proof -
  let ?s = "mk_spec I_ADDI FMT_I 0b0010011 True 0 False 0 0 0"
  have "?s \<in> set all_specs" by (simp add: spec_tables)
  moreover have "spec_matches 0x00500513 ?s"
    by (simp add: spec_matches_def getOpcode_def getFunct3_def)
  ultimately show ?thesis
    by (simp add: decode_eq_spec decode_spec_def I_FMT_imm_def getRS1_def getRS2_def getRD_def)
qed

section \<open>Properties\<close>

text \<open>Predecoding is correct: for every instruction word, executing it with the chain of
  conditions is the same as decoding it and executing the decoded instruction, state, host world,
  diagnostics and profile included.  (Of words that no engine supports, the chain still counts
  the registers when a profile is active.)\<close>

theorem runInstruction_is_decode_then_run:
  assumes "itype (decode i a) \<noteq> I_INVALID \<or> profile m = None"
  shows "runInstruction_word h m i = runInstructionPredecoded h m (decode i a)"
  by (rule runInstruction_predecoded [OF assms])

theorem runInstruction_is_decode_then_run_witness:
  "runInstruction_word recording_host addi_demo 0x00500513 =
     runInstructionPredecoded recording_host addi_demo (decode 0x00500513 0)"
  by (rule runInstruction_is_decode_then_run) (simp add: addi_demo_def boot_machine_def)

text \<open>Direct threading does what the dispatch loop does: after any number of instructions, on
  any vector of decoded instructions, the threaded engine is in the state the predecoded engine is
  in, or has stopped where it has stopped.\<close>

theorem threaded_is_predecoded:
  assumes "table_ok instructions"
  shows "runInstructionsThreaded h instructions textStart n m =
    iterate (predecoded_step h instructions textStart) n m"
  unfolding runInstructionsThreaded_def
  by (rule threaded_predecoded.iterate_agree) (rule assms)

theorem threaded_is_predecoded_witness:
  "runInstructionsThreaded recording_host [decode 0x00500513 0] 0 3 addi_demo =
     iterate (predecoded_step recording_host [decode 0x00500513 0] 0) 3 addi_demo"
  by (rule threaded_is_predecoded) (simp add: table_ok_def addi_decoded)

text \<open>C8: Fetching from memory and the threaded engine agree for as long as the guest does not
  change its code: if along the run the instruction vector describes the words in memory, both
  engines reach, after every number of instructions, states that differ in the recorded profile at most.  They
  reach the very same state if moreover nothing is being recorded while a word is executed that the decoder rejects (of such words
  the fetching engine counts the registers).\<close>

theorem threaded_is_fetch_decode_execute:
  assumes "table_ok instructions"
    and "\<And>k m'. k < n \<Longrightarrow> iterate (runInstruction h) k m = Running m' \<Longrightarrow> code_current instructions textStart m'"
  shows "omap without_profile (iterate (runInstruction h) n m) =
      omap without_profile (runInstructionsThreaded h instructions textStart n m)
    \<and> ((\<forall>k<n. \<forall>m'. iterate (runInstruction h) k m = Running m' \<longrightarrow> logs_agree m') \<longrightarrow>
        iterate (runInstruction h) n m = runInstructionsThreaded h instructions textStart n m)"
proof -
  have "runInstructionsThreaded h instructions textStart n m = iterate (predecoded_step h instructions textStart) n m"
    unfolding runInstructionsThreaded_def
    by (rule threaded_predecoded.iterate_agree) (rule assms(1))
  moreover have "iterate (runInstruction h) n m = iterate (predecoded_step h instructions textStart) n m"
    if "\<forall>k<n. \<forall>m'. iterate (runInstruction h) k m = Running m' \<longrightarrow> logs_agree m'"
    by (rule chain_predecoded.iterate_agree) (use assms(2) that in blast)
  ultimately show ?thesis using chain_predecoded_but_profile [OF assms(2)] by simp
qed

theorem threaded_is_fetch_decode_execute_witness:
  "code_current [decode 0x00500513 0] 0 addi_demo \<and>
   iterate (runInstruction recording_host) 1 addi_demo =
     runInstructionsThreaded recording_host [decode 0x00500513 0] 0 1 addi_demo"
proof
  show cur: "code_current [decode 0x00500513 0] 0 addi_demo"
    by (simp add: code_current_def fetch_instruction_def addi_demo_def boot_machine_def mem_eval)
  have "logs_agree addi_demo" by (simp add: logs_agree_def addi_demo_def boot_machine_def)
  then have "\<forall>k<1. \<forall>m'. iterate (runInstruction recording_host) k addi_demo = Running m' \<longrightarrow> logs_agree m'" by simp
  then show "iterate (runInstruction recording_host) 1 addi_demo =
      runInstructionsThreaded recording_host [decode 0x00500513 0] 0 1 addi_demo"
    by (intro threaded_is_fetch_decode_execute [THEN conjunct2, THEN mp]) (auto simp: cur [unfolded addi_decoded] table_ok_def addi_decoded)
qed

text \<open>C9: No guest program can break the machine's invariants: on a host that rejects empty
  mappings, in every state that any of the engines reaches, register \<^verbatim>\<open>x0\<close> reads zero, the mapped
  areas are disjoint page-aligned blocks of the arena and the heap ends above its base.\<close>

theorem engines_keep_invariant:
  assumes "mmap_rejects_empty h" and "machine_ok m" and "table_ok instructions"
    and "reaches (runInstruction h) m m' \<or> reaches (runInstructionSwitch h) m m' \<or>
      reaches (predecoded_step h instructions textStart) m m' \<or>
      reaches (threaded_step h (set_handlers instructions) textStart) m m'"
  shows "machine_ok m'"
proof -
  have "threaded_step h (set_handlers instructions) textStart = predecoded_step h instructions textStart"
    by (rule ext) (rule threaded_step_predecoded [OF assms(3)])
  then show ?thesis
    using assms(1,2,4) chain_engine.reaches_inv switch_engine.reaches_inv predecoded_engine.reaches_inv by metis
qed

theorem engines_keep_invariant_witness:
  "\<exists>m'. iterate (runInstruction recording_host) 1 addi_demo = Running m' \<and> machine_ok m' \<and> reg m' REG_a0 = 5"
proof -
  have read: "read_u32 (memory addi_demo) (pc addi_demo) = Some 0x00500513"
    by (simp add: addi_demo_def boot_machine_def mem_eval)
  have "runInstruction_word recording_host addi_demo 0x00500513 =
      runInstructionPredecoded recording_host addi_demo (decode 0x00500513 0)"
    by (rule runInstruction_predecoded) (simp add: addi_demo_def boot_machine_def)
  also have "\<dots> = finish (set_reg REG_a0 5 addi_demo)"
    unfolding addi_decoded runInstructionPredecoded_def
    by (simp add: predecoded_arms_def predecoded_groups addi_demo_def boot_machine_def set_reg_def
        logRegister_def logInstruction_def)
  finally have run: "iterate (runInstruction recording_host) 1 addi_demo = finish (set_reg REG_a0 5 addi_demo)"
    using read by (simp add: runInstruction_def load_then_def finish_def)
  then obtain m' where m': "iterate (runInstruction recording_host) 1 addi_demo = Running m'" "reg m' REG_a0 = 5"
    by (simp add: finish_def)
  have "memory_ok (memory addi_demo)"
    by (simp add: addi_demo_def memory_ok_def new_Memory_def arena_ok_def page_ok_def) code_simp
  then have "machine_ok addi_demo" by (simp add: machine_ok_def addi_demo_def)
  moreover have "mmap_rejects_empty recording_host" by (simp add: mmap_rejects_empty_def)
  moreover have "reaches (runInstruction recording_host) addi_demo m'" unfolding reaches_iterate by (rule exI, rule m'(1))
  ultimately have "machine_ok m'"
    using engines_keep_invariant [of recording_host addi_demo "[]" m' 0] by (simp add: table_ok_def)
  with m' show ?thesis by blast
qed

text \<open>The nested switch does not reject a \<^verbatim>\<open>jalr\<close> encoding with a non-zero funct3, as the other
  engines do: control falls through into \<^verbatim>\<open>lui\<close>, which overwrites \<^verbatim>\<open>rd\<close>.\<close>

theorem switch_jalr_falls_through:
  assumes "getOpcode i = 0b1100111" and "getFunct3 i \<noteq> 0"
  shows "switch_arms h m i = Running (logInstruction I_LUI (set_reg (getRD i) (push_bit 12 (U_FMT_imm i)) m)) \<and>
    chain_arms h m i = Running (print (Unsupported_instruction (pc m)) m)"
  using assms
  by (simp add: switch_arms_def switch_jalr_def switch_lui_def chain_arms_def chain_groups Let_def)

theorem switch_jalr_falls_through_witness:
  "switch_arms recording_host addi_demo 0x000010E7 \<noteq> chain_arms recording_host addi_demo 0x000010E7"
proof -
  have "getOpcode 0x000010E7 = 0b1100111" "getFunct3 0x000010E7 \<noteq> 0"
    by (simp_all add: getOpcode_def getFunct3_def)
  from switch_jalr_falls_through [OF this, of recording_host addi_demo] show ?thesis
    by (simp add: print_def logInstruction_def set_reg_def addi_demo_def boot_machine_def)
qed

text \<open>A system instruction with a zero immediate and a non-zero funct3, which is an access to a
  control register, is executed as a system call by every engine but the nested switch, which
  ignores it.\<close>

theorem csr_access_taken_for_ecall:
  assumes "getOpcode i = 0b1110011" and "getFunct3 i \<noteq> 0" and "I_FMT_imm i = 0"
  shows "chain_arms h m i = handle h (logInstruction I_ECALL m) \<and> switch_arms h m i = Running m"
  using assms
  by (simp add: switch_arms_def chain_arms_def chain_groups Let_def)

theorem csr_access_taken_for_ecall_witness:
  "chain_arms recording_host addi_demo 0x000022F3 = handle recording_host (logInstruction I_ECALL addi_demo)
   \<and> switch_arms recording_host addi_demo 0x000022F3 = Running addi_demo"
  by (rule csr_access_taken_for_ecall) (simp_all add: getOpcode_def getFunct3_def I_FMT_imm_def)

end
