(* ===== verification/ISA.thy ===== *)
theory ISA
  imports Engines
begin

text \<open>
  What the instructions mean: the RV32IM user-level manual written as functions on integers, signed
  or unsigned as the manual reads the operands, independent of how the interpreter computes.  The
  engines refine it: every instruction yields the register value and the next program counter of
  the manual, loads and stores access the bytes they should, with one exception, \<^verbatim>\<open>jalr\<close> with
  \<^verbatim>\<open>rd = rs1\<close>, which is stated as a theorem of its own.
\<close>

unbundle bit_operations_syntax

section \<open>The manual\<close>

text \<open>The value of a register-register instruction as an integer, to be reduced modulo \<open>2 ^ 32\<close>.  Division
  by zero gives all ones (quotient) and the dividend (remainder); overflow needs no case of its own.\<close>

definition alu_value :: "EInstruction \<Rightarrow> u32 \<Rightarrow> u32 \<Rightarrow> int option" where
  "alu_value t a b = (let s = nat (uint b mod 32) in case t of
     I_ADD \<Rightarrow> Some (uint a + uint b)
   | I_SUB \<Rightarrow> Some (uint a - uint b)
   | I_XOR \<Rightarrow> Some (uint a XOR uint b)
   | I_OR \<Rightarrow> Some (uint a OR uint b)
   | I_AND \<Rightarrow> Some (uint a AND uint b)
   | I_SLL \<Rightarrow> Some (uint a * 2 ^ s)
   | I_SRL \<Rightarrow> Some (uint a div 2 ^ s)
   | I_SRA \<Rightarrow> Some (sint a div 2 ^ s)
   | I_SLT \<Rightarrow> Some (if sint a < sint b then 1 else 0)
   | I_SLTU \<Rightarrow> Some (if uint a < uint b then 1 else 0)
   | I_MUL \<Rightarrow> Some (sint a * sint b)
   | I_MULH \<Rightarrow> Some (sint a * sint b div 2 ^ 32)
   | I_MULHSU \<Rightarrow> Some (sint a * uint b div 2 ^ 32)
   | I_MULHU \<Rightarrow> Some (uint a * uint b div 2 ^ 32)
   | I_DIV \<Rightarrow> Some (if b = 0 then - 1 else sint a sdiv sint b)
   | I_DIVU \<Rightarrow> Some (if b = 0 then 2 ^ 32 - 1 else uint a div uint b)
   | I_REM \<Rightarrow> Some (if b = 0 then sint a else sint a smod sint b)
   | I_REMU \<Rightarrow> Some (if b = 0 then uint a else uint a mod uint b)
   | _ \<Rightarrow> None)"

text \<open>The expression that the interpreter evaluates for each of them.\<close>

definition alu_cpp :: "EInstruction \<Rightarrow> u32 \<Rightarrow> u32 \<Rightarrow> u32" where
  "alu_cpp t a b = (case t of
     I_ADD \<Rightarrow> a + b
   | I_SUB \<Rightarrow> a - b
   | I_XOR \<Rightarrow> a XOR b
   | I_OR \<Rightarrow> a OR b
   | I_AND \<Rightarrow> a AND b
   | I_SLL \<Rightarrow> push_bit (unat (b AND 0x1f)) a
   | I_SRL \<Rightarrow> drop_bit (unat (b AND 0x1f)) a
   | I_SRA \<Rightarrow> cpp_sra a (unat (b AND 0x1f))
   | I_SLT \<Rightarrow> bool_u32 (cpp_slt a b)
   | I_SLTU \<Rightarrow> bool_u32 (a < b)
   | I_MUL \<Rightarrow> cpp_mul a b
   | I_MULH \<Rightarrow> cpp_mulh a b
   | I_MULHSU \<Rightarrow> cpp_mulhsu a b
   | I_MULHU \<Rightarrow> cpp_mulhu a b
   | I_DIV \<Rightarrow> (if b = 0 then - 1 else if a = 0x80000000 \<and> b = 0xFFFFFFFF then 0x80000000 else cpp_sdiv a b)
   | I_DIVU \<Rightarrow> (if b = 0 then 0xFFFFFFFF else a div b)
   | I_REM \<Rightarrow> (if b = 0 then a else if a = 0x80000000 \<and> b = 0xFFFFFFFF then 0 else cpp_srem a b)
   | I_REMU \<Rightarrow> (if b = 0 then a else a mod b)
   | _ \<Rightarrow> 0)"

text \<open>The register-immediate instructions compute what their register forms compute.\<close>

definition imm_base :: "EInstruction \<Rightarrow> EInstruction option" where
  "imm_base t = (case t of
     I_ADDI \<Rightarrow> Some I_ADD | I_XORI \<Rightarrow> Some I_XOR | I_ORI \<Rightarrow> Some I_OR | I_ANDI \<Rightarrow> Some I_AND
   | I_SLLI \<Rightarrow> Some I_SLL | I_SRLI \<Rightarrow> Some I_SRL | I_SRAI \<Rightarrow> Some I_SRA
   | I_SLTI \<Rightarrow> Some I_SLT | I_SLTIU \<Rightarrow> Some I_SLTU | _ \<Rightarrow> None)"

text \<open>Conditions of the branches.\<close>

definition branch_taken :: "EInstruction \<Rightarrow> u32 \<Rightarrow> u32 \<Rightarrow> bool option" where
  "branch_taken t a b = (case t of
     I_BEQ \<Rightarrow> Some (a = b) | I_BNE \<Rightarrow> Some (a \<noteq> b)
   | I_BLT \<Rightarrow> Some (sint a < sint b) | I_BGE \<Rightarrow> Some (sint a \<ge> sint b)
   | I_BLTU \<Rightarrow> Some (uint a < uint b) | I_BGEU \<Rightarrow> Some (uint a \<ge> uint b) | _ \<Rightarrow> None)"

text \<open>Value for \<^verbatim>\<open>rd\<close> and next program counter of jumps and upper immediates; \<^verbatim>\<open>jalr\<close> clears the lowest bit.\<close>

definition jump_effect :: "EInstruction \<Rightarrow> u32 \<Rightarrow> u32 \<Rightarrow> i32 \<Rightarrow> (int \<times> int) option" where
  "jump_effect t p a imm = (case t of
     I_JAL \<Rightarrow> Some (uint p + 4, uint p + sint imm)
   | I_JALR \<Rightarrow> Some (uint p + 4, (uint a + sint imm) div 2 * 2)
   | I_LUI \<Rightarrow> Some (sint imm * 2 ^ 12, uint p + 4)
   | I_AUIPC \<Rightarrow> Some (uint p + sint imm * 2 ^ 12, uint p + 4)
   | _ \<Rightarrow> None)"

text \<open>Value for \<^verbatim>\<open>rd\<close>, if there is one, and next program counter, of every instruction that accesses
  neither memory nor the system.\<close>

definition isa_exec :: "EInstruction \<Rightarrow> u32 \<Rightarrow> u32 \<Rightarrow> u32 \<Rightarrow> i32 \<Rightarrow> (int option \<times> int) option" where
  "isa_exec t p a b imm =
     (case alu_value t a b of
        Some v \<Rightarrow> Some (Some v, uint p + 4)
      | None \<Rightarrow>
     (case imm_base t of
        Some t' \<Rightarrow> map_option (\<lambda>v. (Some v, uint p + 4)) (alu_value t' a imm)
      | None \<Rightarrow>
     (case branch_taken t a b of
        Some c \<Rightarrow> Some (None, if c then uint p + sint imm else uint p + 4)
      | None \<Rightarrow> map_option (\<lambda>(v, next). (Some v, next)) (jump_effect t p a imm))))"

text \<open>Forget the profile.\<close>

definition unprofiled :: "'w machine \<Rightarrow> 'w machine" where
  "unprofiled m = m\<lparr>profile := None\<rparr>"

text \<open>The state after an instruction, before \<^verbatim>\<open>x0\<close> is cleared.\<close>

definition isa_next :: "'w machine \<Rightarrow> u8 \<Rightarrow> int option \<Rightarrow> int \<Rightarrow> 'w machine" where
  "isa_next m d v next =
     (case v of None \<Rightarrow> m | Some x \<Rightarrow> set_reg d (word_of_int x) m)\<lparr>pc := word_of_int next\<rparr>"

text \<open>Bytes accessed by a load or store.\<close>

definition mem_width :: "EInstruction \<Rightarrow> nat" where
  "mem_width t = (case t of I_LB \<Rightarrow> 1 | I_LBU \<Rightarrow> 1 | I_SB \<Rightarrow> 1 | I_LH \<Rightarrow> 2 | I_LHU \<Rightarrow> 2 | I_SH \<Rightarrow> 2 | _ \<Rightarrow> 4)"

text \<open>The number that bytes in little-endian order denote.\<close>

fun le_value :: "u8 list \<Rightarrow> int" where
  "le_value [] = 0"
| "le_value (b # bs) = uint b + 256 * le_value bs"

text \<open>The value a load puts into \<^verbatim>\<open>rd\<close>: sign-extended or zero-extended.\<close>

definition load_value :: "EInstruction \<Rightarrow> u8 list \<Rightarrow> int" where
  "load_value t bs =
     (let v = le_value bs; n = 8 * length bs
      in if t \<in> {I_LB, I_LH, I_LW} \<and> 2 ^ (n - 1) \<le> v then v - 2 ^ n else v)"

text \<open>Loads.\<close>

definition is_load :: "EInstruction \<Rightarrow> bool" where
  "is_load t \<longleftrightarrow> t \<in> {I_LB, I_LH, I_LW, I_LBU, I_LHU}"

text \<open>Stores.\<close>

definition is_store :: "EInstruction \<Rightarrow> bool" where
  "is_store t \<longleftrightarrow> t \<in> {I_SB, I_SH, I_SW}"

section \<open>C++ expressions and the manual\<close>

lemma shift_field: "unat (b AND 0x1f) = nat (uint b mod 32)" for b :: u32
proof -
  have "b AND 0x1f = take_bit 5 b" by (simp add: take_bit_eq_mask mask_numeral)
  then have "uint (b AND 0x1f) = uint b mod 32"
    using unsigned_take_bit_eq [of 5 b, where ?'a = int] by (simp add: take_bit_eq_mod)
  then show ?thesis by (metis nat_uint_eq)
qed

lemma word_of_int_sint [simp]: "word_of_int (sint a) = a" for a :: u32
  by simp

lemma sra_value: "cpp_sra a s = word_of_int (sint a div 2 ^ s)" 
  unfolding cpp_sra_def by (metis drop_bit_eq_div sint_signed_drop_bit_eq word_of_int_sint)

lemma srl_value: "drop_bit s a = word_of_int (uint a div 2 ^ s)" for a :: u32
proof -
  have "uint (drop_bit s a) = uint a div 2 ^ s"
    using take_bit_int_eq_self [of "uint a" 32] uint_bounded [of a]
    unfolding unsigned_drop_bit_eq by (simp add: drop_bit_eq_div [symmetric])
  then show ?thesis by (metis word_of_int_uint)
qed

lemma sll_value: "push_bit s a = word_of_int (uint a * 2 ^ s)" for a :: u32
  by (simp add: push_bit_eq_mult of_int_mult)

lemma low_half: "ucast (word_of_int k :: u64) = (word_of_int k :: u32)"
  by (rule bit_word_eqI) (simp add: bit_simps)

lemma high_half:
  "ucast (drop_bit 32 (word_of_int k :: u64)) = (word_of_int (k div 2 ^ 32) :: u32)"
  "ucast (signed_drop_bit 32 (word_of_int k :: u64)) = (word_of_int (k div 2 ^ 32) :: u32)"
  unfolding drop_bit_eq_div [symmetric] by (rule bit_word_eqI; auto simp: bit_simps)+

lemma widen: "(scast a :: u64) = word_of_int (sint a)" "(ucast a :: u64) = word_of_int (uint a)" for a :: u32
  by simp_all

lemma mul_values:
  "cpp_mul a b = word_of_int (sint a * sint b)"
  "cpp_mulh a b = word_of_int (sint a * sint b div 2 ^ 32)"
  "cpp_mulhsu a b = word_of_int (sint a * uint b div 2 ^ 32)"
  "cpp_mulhu a b = word_of_int (uint a * uint b div 2 ^ 32)"
proof -
  have "cpp_mul a b = ucast ((ucast a :: u64) * ucast b)"
    unfolding cpp_mul_def by (rule u32_bit_eqI) (simp add: all_less_32 bit_simps)
  also have "\<dots> = ucast (word_of_int (uint a * uint b) :: u64)"
    unfolding widen by simp
  also have "\<dots> = a * b"
    unfolding low_half by simp
  finally show "cpp_mul a b = word_of_int (sint a * sint b)" by simp
  show "cpp_mulh a b = word_of_int (sint a * sint b div 2 ^ 32)"
   "cpp_mulhsu a b = word_of_int (sint a * uint b div 2 ^ 32)"
   "cpp_mulhu a b = word_of_int (uint a * uint b div 2 ^ 32)"
    unfolding cpp_mulh_def cpp_mulhsu_def cpp_mulhu_def widen wi_hom_mult high_half by (rule refl)+
qed

lemma div_overflow: "sint (0x80000000 :: u32) sdiv sint (0xFFFFFFFF :: u32) = 0x80000000"
  "sint (0x80000000 :: u32) smod sint (0xFFFFFFFF :: u32) = 0"
  by (simp_all add: sint_uint signed_divide_int_def signed_modulo_int_def)

lemma bitwise_values:
  "a XOR b = word_of_int (uint a XOR uint b)" "a OR b = word_of_int (uint a OR uint b)"
  "a AND b = word_of_int (uint a AND uint b)" for a b :: u32
  by (rule bit_word_eqI; simp add: bit_simps)+

lemma alu_cpp_value: "alu_value t a b = Some v \<Longrightarrow> alu_cpp t a b = word_of_int v"
  by (cases t)
    (auto simp: alu_value_def alu_cpp_def Let_def shift_field sra_value srl_value sll_value mul_values cpp_slt_def bool_u32_def word_less_def 
     cpp_sdiv_def cpp_srem_def signed_modulo_int_def bitwise_values [of a b] word_div_def word_mod_def split: if_splits)

lemma unprofiled_log [simp]:
  "unprofiled (logRegister u a b c m) = unprofiled m" "unprofiled (logInstruction t m) = unprofiled m"
  "unprofiled (logJump x m) = unprofiled m"
  by (simp_all add: unprofiled_def logRegister_def logInstruction_def logJump_def)

lemma unprofiled_upd:
  "unprofiled (set_reg r v m) = set_reg r v (unprofiled m)" "unprofiled (m\<lparr>pc := x\<rparr>) = (unprofiled m)\<lparr>pc := x\<rparr>"
  "unprofiled (m\<lparr>memory := y\<rparr>) = (unprofiled m)\<lparr>memory := y\<rparr>"
  by (simp_all add: unprofiled_def set_reg_def)

lemma unprofiled_finish: "omap unprofiled (obind x finish) = obind (omap unprofiled x) finish"
  by (cases x) (simp_all add: finish_def unprofiled_def)

lemma predecoded_alu:
  assumes "alu_value (itype inst) (reg m (rs1 inst)) (reg m (rs2 inst)) = Some v"
  shows "predecoded_arms h m inst = Running (logInstruction (itype inst)
     (set_reg (rd inst) (word_of_int v) m))"
  using assms alu_cpp_value [OF assms]
  by (cases "itype inst") (auto simp: alu_value_def alu_cpp_def predecoded_arms_def predecoded_groups Let_def)

lemma predecoded_imm:
  assumes "imm_base (itype inst) = Some t" "alu_value t (reg m (rs1 inst)) (immediate inst) = Some v"
  shows "predecoded_arms h m inst = Running (logInstruction (itype inst)
     (set_reg (rd inst) (word_of_int v) m))"
  using assms(1) alu_cpp_value [OF assms(2)]
  by (cases "itype inst") (auto simp: imm_base_def alu_cpp_def predecoded_arms_def predecoded_groups Let_def)

lemma predecoded_branch_spec:
  assumes "branch_taken (itype inst) (reg m (rs1 inst)) (reg m (rs2 inst)) = Some c"
  shows "predecoded_arms h m inst = Running ((logInstruction (itype inst) m)\<lparr>pc := if c then pc m + (immediate inst - 4) else pc m\<rparr>)"
  using assms
  by (cases "itype inst") (auto simp: branch_taken_def predecoded_arms_def predecoded_groups Let_def cpp_slt_def word_less_def word_le_def not_less)

lemma target_value:
  assumes "even (uint (a + imm))"
  shows "word_of_int ((uint a + sint imm) div 2 * 2) = (a + imm :: u32)"
proof -
  have w: "word_of_int (uint a + sint imm) = a + imm" by simp
  then have "uint (a + imm) = (uint a + sint imm) mod 2 ^ 32"
    using uint_word_of_int [of "uint a + sint imm", where ?'a = 32] by simp
  with assms have "even ((uint a + sint imm) mod 2 ^ 32)" by simp
  then have "even (uint a + sint imm)"
    by (simp add: dvd_mod_iff)
  then show ?thesis using w by simp
qed

lemma predecoded_jump_spec:
  assumes "jump_effect (itype inst) (pc m) (reg m (rs1 inst)) (immediate inst) = Some (v, next)"
    and "itype inst = I_JALR \<Longrightarrow> rs1 inst \<noteq> rd inst \<and> even (uint (reg m (rs1 inst) + immediate inst))"
  shows "omap unprofiled (predecoded_arms h m inst) =
    Running ((set_reg (rd inst) (word_of_int v) (unprofiled m))\<lparr>pc := word_of_int next - 4\<rparr>)"
proof (cases "itype inst = I_JALR")
  case True
  with assms(1) have "word_of_int v = pc m + 4" "word_of_int next = reg m (rs1 inst) + immediate inst"
    using target_value assms(2) by (auto simp: jump_effect_def)
  with assms(2) [OF True] True show ?thesis
    by (simp add: predecoded_arms_def predecoded_groups Let_def unprofiled_upd algebra_simps)
next
  case False
  with assms(1) show ?thesis
    by (cases "itype inst")
      (auto simp: jump_effect_def predecoded_arms_def predecoded_groups Let_def unprofiled_upd
        push_bit_eq_mult algebra_simps set_reg_def unprofiled_def)
qed

lemma isa_arms:
  assumes "isa_exec (itype inst) (pc m) (reg m (rs1 inst)) (reg m (rs2 inst)) (immediate inst) = Some (v, next)"
    and "itype inst = I_JALR \<Longrightarrow> rs1 inst \<noteq> rd inst \<and> even (uint (reg m (rs1 inst) + immediate inst))"
  shows "omap unprofiled (predecoded_arms h m inst) =
    Running ((isa_next (unprofiled m) (rd inst) v next)\<lparr>pc := word_of_int next - 4\<rparr>)"
proof (cases "alu_value (itype inst) (reg m (rs1 inst)) (reg m (rs2 inst))")
  case (Some x)
  with assms(1) have "v = Some x" "next = uint (pc m) + 4" by (simp_all add: isa_exec_def)
  then show ?thesis
    unfolding predecoded_alu [OF Some]
    by (simp add: isa_next_def unprofiled_def set_reg_def logInstruction_def)
next
  case no_alu: None
  show ?thesis
  proof (cases "imm_base (itype inst)")
    case (Some t)
    with no_alu assms(1) obtain x where "v = Some x" "next = uint (pc m) + 4"
      "alu_value t (reg m (rs1 inst)) (immediate inst) = Some x" by (auto simp: isa_exec_def)
    with predecoded_imm [OF Some this(3), of h] show ?thesis
      by (simp add: isa_next_def unprofiled_def set_reg_def logInstruction_def)
  next
    case no_imm: None
    show ?thesis
    proof (cases "branch_taken (itype inst) (reg m (rs1 inst)) (reg m (rs2 inst))")
      case (Some c)
      with no_alu no_imm assms(1) have "v = None"
        "word_of_int next - 4 = (if c then pc m + (immediate inst - 4) else pc m)"
        by (auto simp: isa_exec_def)
      with predecoded_branch_spec [OF Some, of h] show ?thesis
        by (simp add: isa_next_def unprofiled_upd)
    next
      case None
      with no_alu no_imm assms(1) obtain x where
        "jump_effect (itype inst) (pc m) (reg m (rs1 inst)) (immediate inst) = Some (x, next)" "v = Some x"
        by (auto simp: isa_exec_def)
      with predecoded_jump_spec [OF this(1) assms(2), of h] show ?thesis by (simp add: isa_next_def)
    qed
  qed
qed

lemma isa_register:
  assumes "isa_exec (itype inst) (pc m) (reg m (rs1 inst)) (reg m (rs2 inst)) (immediate inst) = Some (v, next)"
    and "itype inst = I_JALR \<Longrightarrow> rs1 inst \<noteq> rd inst \<and> even (uint (reg m (rs1 inst) + immediate inst))"
  shows "omap unprofiled (runInstructionPredecoded h m inst) =
    Running (set_reg REG_x0 0 (isa_next (unprofiled m) (rd inst) v next))"
  unfolding runInstructionPredecoded_def unprofiled_finish
  by (subst isa_arms [of _ _ v "next"]) (use assms in \<open>simp_all add: finish_def isa_next_def set_reg_def split: option.splits\<close>)

lemma le_value_bounds: "0 \<le> le_value bs" "le_value bs < 2 ^ (8 * length bs)"
proof (induction bs)
  case (Cons b bs)
  { case 1 then show ?case using Cons by simp }
  { case 2
    have "uint b < 256" using uint_bounded [of b] by simp
    moreover have "le_value bs + 1 \<le> 2 ^ (8 * length bs)" using Cons(2) by simp
    ultimately show ?case by (simp add: power_add) }
qed simp_all

lemma uint_le_word: "8 * length bs \<le> LENGTH('a) \<Longrightarrow> uint (le_word bs :: 'a::len word) = le_value bs"
proof (induction bs)
  case (Cons b bs)
  have ub: "uint b < 256" using uint_bounded [of b] by simp
  have v: "uint (le_word bs :: 'a word) = le_value bs" using Cons by simp
  have "(ucast b :: 'a word) OR push_bit 8 (le_word bs) = ucast b + push_bit 8 (le_word bs)"
    by (rule disjunctive_add [symmetric]) (auto simp: bit_simps dest: bit_imp_le_length)
  then have "le_word (b # bs) = (word_of_int (le_value (b # bs)) :: 'a word)"
    by (simp add: push_bit_eq_mult flip: v)
  moreover have "le_value (b # bs) < 2 ^ LENGTH('a)"
    using le_value_bounds(2) [of "b # bs"] power_increasing [OF Cons.prems, of "2 :: int"] by linarith
  ultimately show ?case
    using le_value_bounds(1) [of "b # bs"] by (simp add: uint_word_of_int del: le_word.simps le_value.simps)
qed simp

lemma sint_cases: "sint w = (if 2 ^ (LENGTH('a) - 1) \<le> uint w then uint w - 2 ^ LENGTH('a) else uint w)"
  for w :: "'a::len word"
proof -
  obtain n where n: "LENGTH('a) = Suc n" using len_gt_0 [where ?'a = 'a] by (metis gr0_implies_Suc)
  have b: "uint w < 2 ^ Suc n" "0 \<le> uint w" using uint_bounded [of w] n by simp_all
  show ?thesis
  proof (cases "2 ^ n \<le> uint w")
    case True
    then have "(uint w + 2 ^ n) mod 2 ^ Suc n = uint w - 2 ^ n"
      using b mod_pos_pos_trivial [of "uint w - 2 ^ n" "2 ^ Suc n"] mod_add_self2 [of "uint w - 2 ^ n" "2 ^ Suc n"]
      by (simp add: add.commute)
    with True show ?thesis
      by (simp add: sint_uint n signed_take_bit_eq_take_bit_shift take_bit_eq_mod)
  next
    case False
    have "- (2 ^ n) \<le> (0::int)" by simp
    also note b(2)
    finally have "signed_take_bit n (uint w) = uint w"
      using False by (intro signed_take_bit_int_eq_self) simp_all
    with False show ?thesis by (simp add: sint_uint n)
  qed
qed

lemma le_bytes_ucast:
  "le_bytes 1 (ucast v :: u8) = le_bytes 1 (v :: u32)" "le_bytes 2 (ucast v :: u16) = le_bytes 2 (v :: u32)"
proof -
  have "ucast (ucast v :: u16) = (ucast v :: u8)" "ucast (drop_bit 8 (ucast v :: u16)) = (ucast (drop_bit 8 v) :: u8)"
    by (rule u8_bit_eqI, simp add: all_less_8 bit_simps)+
  then show "le_bytes 2 (ucast v :: u16) = le_bytes 2 v" by (simp add: numeral_2_eq_2)
qed simp

lemma sint_le_word:
  assumes "8 * length bs = LENGTH('a)" "t \<in> {I_LB, I_LH, I_LW}"
  shows "sint (le_word bs :: 'a::len word) = load_value t bs"
  using assms sint_cases [of "le_word bs :: 'a word"] uint_le_word [of bs, where ?'a = 'a]
  by (simp add: load_value_def Let_def)

lemma load_values:
  "length bs = 1 \<Longrightarrow> scast (le_word bs :: u8) = (word_of_int (load_value I_LB bs) :: u32)"
  "length bs = 1 \<Longrightarrow> ucast (le_word bs :: u8) = (word_of_int (load_value I_LBU bs) :: u32)"
  "length bs = 2 \<Longrightarrow> scast (le_word bs :: u16) = (word_of_int (load_value I_LH bs) :: u32)"
  "length bs = 2 \<Longrightarrow> ucast (le_word bs :: u16) = (word_of_int (load_value I_LHU bs) :: u32)"
  "length bs = 4 \<Longrightarrow> (le_word bs :: u32) = word_of_int (load_value I_LW bs)"
proof -
  have u: "load_value I_LBU bs = le_value bs" "load_value I_LHU bs = le_value bs"
    by (simp_all add: load_value_def)
  { assume l: "length bs = 1"
    show "scast (le_word bs :: u8) = (word_of_int (load_value I_LB bs) :: u32)"
      by (subst sint_le_word [of bs I_LB, where ?'a = 8, symmetric]) (use l in simp_all)
    show "ucast (le_word bs :: u8) = (word_of_int (load_value I_LBU bs) :: u32)"
      unfolding u by (subst uint_le_word [where ?'a = 8, symmetric]) (use l in simp_all) }
  { assume l: "length bs = 2"
    show "scast (le_word bs :: u16) = (word_of_int (load_value I_LH bs) :: u32)"
      by (subst sint_le_word [of bs I_LH, where ?'a = 16, symmetric]) (use l in simp_all)
    show "ucast (le_word bs :: u16) = (word_of_int (load_value I_LHU bs) :: u32)"
      unfolding u by (subst uint_le_word [where ?'a = 16, symmetric]) (use l in simp_all) }
  show "(le_word bs :: u32) = word_of_int (load_value I_LW bs)" if "length bs = 4"
    by (subst sint_le_word [of bs I_LW, where ?'a = 32, symmetric]) (use that in simp_all)
qed

lemma isa_load:
  assumes "is_load (itype inst)"
    and "mem_read (memory m) (reg m (rs1 inst) + immediate inst) (mem_width (itype inst)) = Some bs"
  shows "omap unprofiled (runInstructionPredecoded h m inst) =
    Running (set_reg REG_x0 0 (isa_next (unprofiled m) (rd inst) (Some (load_value (itype inst) bs)) (uint (pc m) + 4)))"
  using assms length_mem_read [OF assms(2)]
  unfolding runInstructionPredecoded_def unprofiled_finish is_load_def
  by (cases "itype inst") (simp_all add: predecoded_arms_def predecoded_groups Let_def load_then_def read_defs mem_width_def
      load_values unprofiled_upd finish_def isa_next_def set_reg_def unprofiled_def)

lemma isa_store:
  assumes "is_store (itype inst)"
    and "mem_write (memory m) (reg m (rs1 inst) + immediate inst) (le_bytes (mem_width (itype inst)) (reg m (rs2 inst))) = Some mem'"
  shows "omap unprofiled (runInstructionPredecoded h m inst) =
    Running (set_reg REG_x0 0 (isa_next (unprofiled m\<lparr>memory := mem'\<rparr>) (rd inst) None (uint (pc m) + 4)))"
  using assms 
  unfolding runInstructionPredecoded_def unprofiled_finish is_store_def
  by (cases "itype inst") (simp_all add: predecoded_arms_def predecoded_groups Let_def store_then_def write_defs mem_width_def le_bytes_ucast
      unprofiled_upd finish_def isa_next_def set_reg_def unprofiled_def del: le_bytes.simps One_nat_def)

lemma isa_memory_fault:
  assumes "is_load (itype inst) \<or> is_store (itype inst)"
    and "\<not> in_bounds (reg m (rs1 inst) + immediate inst) (mem_width (itype inst))"
  shows "runInstructionPredecoded h m inst = OutOfBounds (reg m (rs1 inst) + immediate inst)"
  using assms
  unfolding runInstructionPredecoded_def is_store_def is_load_def
  by (cases "itype inst") (simp_all add: predecoded_arms_def predecoded_groups Let_def store_then_def load_then_def write_defs read_defs mem_width_def
      mem_read_def mem_write_def)

lemma jalr_supported:
  assumes "itype (decode w a) = I_JALR"
  shows "supported_word w"
proof -
  have "list_all (\<lambda>spec. spec_type spec = I_JALR \<longrightarrow> spec_opcode spec = 0b1100111) all_specs" by code_simp
  moreover obtain spec where "spec \<in> set all_specs" "spec_matches w spec" "decode w a = decode_spec w a spec"
    using decode_not_invalid [of w a] assms by auto
  ultimately have "getOpcode w = 0b1100111" using assms by (simp add: list_all_iff spec_matches_def)
  then show ?thesis using itype_decode [of w a 0] assms by (simp add: supported_word_def)
qed

section \<open>Properties\<close>

text \<open>C4: Arithmetic, shifts, comparisons, multiplication and division, branches, jumps and upper
  immediates do what the manual says: an instruction word that decodes to one of them puts the
  manual's value into \<^verbatim>\<open>rd\<close> (never into \<^verbatim>\<open>x0\<close>), moves the program counter as the manual does and
  changes nothing else but the profile, in the fetching as in the predecoded engine.  For
  \<^verbatim>\<open>jalr\<close> this needs an even target and a link register other than the base register.\<close>

theorem engines_implement_isa:
  fixes m :: "'w machine" and i a :: u32
  defines "inst \<equiv> decode i a"
  assumes "isa_exec (itype inst) (pc m) (reg m (rs1 inst)) (reg m (rs2 inst)) (immediate inst) = Some (v, next)"
    and "itype inst = I_JALR \<Longrightarrow> rs1 inst \<noteq> rd inst \<and> even (uint (reg m (rs1 inst) + immediate inst))"
  shows "omap unprofiled (runInstructionPredecoded h m inst) =
      Running (set_reg REG_x0 0 (isa_next (unprofiled m) (rd inst) v next)) \<and>
    runInstruction_word h m i = runInstructionPredecoded h m inst"
proof -
  have "itype inst \<noteq> I_INVALID"
    using assms(2) by (auto simp: isa_exec_def alu_value_def imm_base_def branch_taken_def jump_effect_def)
  then show ?thesis
    using isa_register [OF assms(2,3), of h] runInstruction_predecoded [of i a m h] by (simp add: inst_def)
qed

theorem engines_implement_isa_witness:
  "omap unprofiled (runInstructionPredecoded recording_host addi_demo (decode 0x00500513 0)) =
     Running (set_reg REG_x0 0 (isa_next (unprofiled addi_demo) 10 (Some 5) 4))"
proof -
  have "isa_exec I_ADDI (pc addi_demo) 0 (reg addi_demo 5) 5 = Some (Some 5, 4)"
    by (simp add: isa_exec_def alu_value_def imm_base_def addi_demo_def boot_machine_def)
  moreover have "reg addi_demo 0 = 0" by (simp add: addi_demo_def)
  ultimately show ?thesis
    using engines_implement_isa [of "0x00500513" 0 addi_demo "Some 5" 4 recording_host]
    by (simp add: addi_decoded)
qed

text \<open>C7: Loads put into \<^verbatim>\<open>rd\<close> the number that the bytes at \<^verbatim>\<open>rs1 + imm\<close> denote in little-endian order,
  sign- or zero-extended; stores replace exactly the bytes there by the low bytes of \<^verbatim>\<open>rs2\<close>; an
  access outside the guest array stops the engine.\<close>

theorem engines_access_memory:
  fixes m :: "'w machine" and i a :: u32
  defines "inst \<equiv> decode i a"
  defines "addr \<equiv> reg m (rs1 inst) + immediate inst"
  shows "(is_load (itype inst) \<and> mem_read (memory m) addr (mem_width (itype inst)) = Some bs \<longrightarrow>
      omap unprofiled (runInstructionPredecoded h m inst) =
        Running (set_reg REG_x0 0 (isa_next (unprofiled m) (rd inst) (Some (load_value (itype inst) bs)) (uint (pc m) + 4)))) \<and>
    (is_store (itype inst) \<and> mem_write (memory m) addr (le_bytes (mem_width (itype inst)) (reg m (rs2 inst))) = Some mem' \<longrightarrow>
      omap unprofiled (runInstructionPredecoded h m inst) =
        Running (set_reg REG_x0 0 (isa_next (unprofiled m\<lparr>memory := mem'\<rparr>) (rd inst) None (uint (pc m) + 4)))) \<and>
    ((is_load (itype inst) \<or> is_store (itype inst)) \<and> \<not> in_bounds addr (mem_width (itype inst)) \<longrightarrow>
      runInstructionPredecoded h m inst = OutOfBounds addr)"
  unfolding addr_def using isa_load isa_store isa_memory_fault by blast

theorem engines_access_memory_witness:
  "omap unprofiled (runInstructionPredecoded recording_host addi_demo (decode 0x00000503 0)) =
     Running (set_reg REG_x0 0 (isa_next (unprofiled addi_demo) 10 (Some 0x13) 4))"
proof -
  let ?s = "mk_spec I_LB FMT_I 0b0000011 True 0 False 0 0 0"
  have "?s \<in> set all_specs" by (simp add: spec_tables)
  moreover have "spec_matches 0x00000503 ?s" by (simp add: spec_matches_def getOpcode_def getFunct3_def)
  ultimately have d: "decode 0x00000503 0 = \<lparr>itype = I_LB, instruction = 0x00000503, immediate = 0,
      address = 0, rs1 = 0, rs2 = 0, rd = 10, handler = None\<rparr>"
    by (simp add: decode_eq_spec decode_spec_def I_FMT_imm_def getRS1_def getRS2_def getRD_def)
  have "mem_read (memory addi_demo) 0 1 = Some [0x13]" by (simp add: addi_demo_def mem_eval)
  moreover have "load_value I_LB [0x13] = 0x13" by (simp add: load_value_def)
  moreover have "reg addi_demo 0 = 0" "pc addi_demo = 0" by (simp_all add: addi_demo_def boot_machine_def)
  ultimately show ?thesis
    using engines_access_memory [of "0x00000503" 0 addi_demo "[0x13]" recording_host "memory addi_demo"]
    by (simp add: d is_load_def mem_width_def)
qed

text \<open>C36: \<^verbatim>\<open>jalr\<close> whose link register is also its base register does not jump where it should, in any of the five
  engines: the link is written first and then read as the base, so that all of them continue at an offset from the
  instruction itself, whatever address the register held.\<close>

theorem jalr_clobbers_base:
  assumes "itype (decode w (pc m)) = I_JALR" and "rd (decode w (pc m)) = rs1 (decode w (pc m))"
    and "fetch_instruction insts textStart (pc m) = Some (decode w (pc m))" and "table_ok insts"
  shows "\<forall>r\<in>{runInstruction_word h m w, runInstructionSwitch_word h m w, runInstructionPredecoded h m (decode w (pc m)),
      threaded_step h (set_handlers insts) textStart m, indirect_step h insts textStart m}.
    \<exists>m'. r = Running m' \<and> pc m' = pc m + 4 + immediate (decode w (pc m))"
proof -
  have "supported_word w" using assms(1) jalr_supported by simp
  then have "runInstructionSwitch_word h m w = runInstruction_word h m w" by (rule switch_chain_word)
  moreover have "runInstruction_word h m w = runInstructionPredecoded h m (decode w (pc m))"
    by (rule runInstruction_predecoded) (simp add: assms(1))
  moreover have "predecoded_step h insts textStart m = runInstructionPredecoded h m (decode w (pc m))"
    using assms(3) by (simp add: predecoded_step_def load_then_def)
  moreover have "\<exists>m'. runInstructionPredecoded h m (decode w (pc m)) = Running m' \<and> pc m' = pc m + 4 + immediate (decode w (pc m))"
    using assms(1,2) by (simp add: runInstructionPredecoded_def predecoded_arms_def predecoded_groups finish_def Let_def algebra_simps)
  ultimately show ?thesis by (simp add: threaded_step_predecoded [OF assms(4)] indirect_step_predecoded [OF assms(4)])
qed

theorem jalr_clobbers_base_witness:
  "\<exists>m'. threaded_step recording_host (set_handlers [decode 0x000080E7 0]) 0 (set_reg REG_ra 0x2000 addi_demo) = Running m' \<and> pc m' = 4"
proof -
  let ?m = "set_reg REG_ra 0x2000 addi_demo"
  have d: "decode 0x000080E7 a = \<lparr>itype = I_JALR, instruction = 0x000080E7, immediate = 0, address = a, rs1 = 1, rs2 = 0, rd = 1, handler = None\<rparr>" for a
  proof -
    let ?s = "mk_spec I_JALR FMT_I 0b1100111 True 0 False 0 0 0"
    have "?s \<in> set all_specs" by (simp add: spec_tables)
    moreover have "spec_matches 0x000080E7 ?s" by (simp add: spec_matches_def getOpcode_def getFunct3_def)
    ultimately show ?thesis
      by (simp add: decode_eq_spec decode_spec_def I_FMT_imm_def getRS1_def getRS2_def getRD_def)
  qed
  have p: "pc ?m = 0" by (simp add: addi_demo_def boot_machine_def)
  with jalr_clobbers_base [of "0x000080E7" ?m "[decode 0x000080E7 0]" 0 recording_host] show ?thesis
    by (simp add: d table_ok_def fetch_instruction_def)
qed

end
