(* ===== verification/Text_Format.thy ===== *)
theory Text_Format
  imports RV_Prelude
begin

text \<open>
  Numbers as text, the way the sources print and read them: \<^verbatim>\<open>std::format\<close> with \<^verbatim>\<open>{}\<close> and \<^verbatim>\<open>{:X}\<close>,
  the zero-padded hexadecimal of \<^verbatim>\<open>formatAddress\<close>, and \<^verbatim>\<open>std::stoul(value, nullptr, 0)\<close> of
  \<^verbatim>\<open>parseAddress\<close>, both in \<^verbatim>\<open>lib/ProfilingInfo.cpp\<close>.  Proved here: reading back what was printed.
\<close>

section \<open>Printing\<close>

text \<open>Digits of a number, most significant first.\<close>

function digits :: "nat \<Rightarrow> nat \<Rightarrow> nat list" where
  "digits b n = (if b < 2 \<or> n < b then [n] else digits b (n div b) @ [n mod b])"
  by pat_completeness auto
termination by (relation "measure snd") auto

declare digits.simps [simp del]

definition lower_digit :: "nat \<Rightarrow> char" where
  "lower_digit d = ''0123456789abcdef'' ! d"

definition upper_digit :: "nat \<Rightarrow> char" where
  "upper_digit d = ''0123456789ABCDEF'' ! d"

definition format_nat :: "nat \<Rightarrow> string" where
  "format_nat n = map lower_digit (digits 10 n)"

definition format_int :: "int \<Rightarrow> string" where
  "format_int k = (if k < 0 then ''-'' @ format_nat (nat (- k)) else format_nat (nat k))"

definition format_HEX :: "u32 \<Rightarrow> string" where
  "format_HEX w = map upper_digit (digits 16 (unat w))"

definition pad_left :: "nat \<Rightarrow> char \<Rightarrow> string \<Rightarrow> string" where
  "pad_left n c s = replicate (n - length s) c @ s"

definition formatAddress :: "u32 \<Rightarrow> string" where
  "formatAddress addr = ''0x'' @ pad_left 8 (CHR ''0'') (map lower_digit (digits 16 (unat addr)))"

section \<open>Reading\<close>

definition is_space :: "char \<Rightarrow> bool" where
  "is_space c \<longleftrightarrow> of_char c = (32::nat) \<or> (9::nat) \<le> of_char c \<and> of_char c \<le> (13::nat)"

text \<open>The value of a digit in any base up to 36.\<close>

definition digit_value :: "char \<Rightarrow> nat option" where
  "digit_value c =
     (let k = of_char c :: nat in
      if 48 \<le> k \<and> k \<le> 57 then Some (k - 48)
      else if 97 \<le> k \<and> k \<le> 122 then Some (k - 87)
      else if 65 \<le> k \<and> k \<le> 90 then Some (k - 55)
      else None)"

definition is_digit :: "nat \<Rightarrow> char \<Rightarrow> bool" where
  "is_digit b c \<longleftrightarrow> (case digit_value c of None \<Rightarrow> False | Some d \<Rightarrow> d < b)"

fun value_of :: "nat \<Rightarrow> nat \<Rightarrow> string \<Rightarrow> nat" where
  "value_of b acc [] = acc"
| "value_of b acc (c # cs) = value_of b (acc * b + the (digit_value c)) cs"

text \<open>
  The longest run of digits; \<open>None\<close> is \<^verbatim>\<open>std::invalid_argument\<close> or \<^verbatim>\<open>std::out_of_range\<close>.
\<close>

definition read_digits :: "nat \<Rightarrow> string \<Rightarrow> nat option" where
  "read_digits b s =
     (let run = takeWhile (is_digit b) s
      in if run = [] \<or> 2 ^ 64 \<le> value_of b 0 run then None else Some (value_of b 0 run))"

definition read_prefixed :: "string \<Rightarrow> nat option" where
  "read_prefixed s =
     (if 3 \<le> length s \<and> hd s = CHR ''0'' \<and> s ! 1 \<in> {CHR ''x'', CHR ''X''} \<and> is_digit 16 (s ! 2)
      then read_digits 16 (drop 2 s)
      else if s \<noteq> [] \<and> hd s = CHR ''0'' then read_digits 8 s
      else read_digits 10 s)"

definition stoul :: "string \<Rightarrow> u64 option" where
  "stoul s =
     (let t = dropWhile is_space s
      in if t \<noteq> [] \<and> hd t = CHR ''-'' then map_option (\<lambda>n. - of_nat n) (read_prefixed (tl t))
         else if t \<noteq> [] \<and> hd t = CHR ''+'' then map_option of_nat (read_prefixed (tl t))
         else map_option of_nat (read_prefixed t))"

definition parseAddress :: "string \<Rightarrow> u32 option" where
  "parseAddress value = map_option ucast (stoul value)"

section \<open>Reading back\<close>

lemma all_less_16: "(\<forall>n<16::nat. P n) \<longleftrightarrow> P 0 \<and> P 1 \<and> P 2 \<and> P 3 \<and> P 4 \<and> P 5 \<and> P 6 \<and> P 7 \<and> P 8 \<and> P 9
    \<and> P 10 \<and> P 11 \<and> P 12 \<and> P 13 \<and> P 14 \<and> P 15"
  by (simp add: numeral_eq_Suc All_less_Suc) blast

lemma digit_value_lower: "d < 16 \<Longrightarrow> digit_value (lower_digit d) = Some d"
proof -
  have "\<forall>d<16. digit_value (lower_digit d) = Some d"
    unfolding all_less_16 by (simp add: lower_digit_def digit_value_def)
  then show "d < 16 \<Longrightarrow> digit_value (lower_digit d) = Some d" by blast
qed

lemma digits_less: "2 \<le> b \<Longrightarrow> d \<in> set (digits b n) \<Longrightarrow> d < b"
proof (induction b n rule: digits.induct)
  case (1 b n)
  show ?case
  proof (cases "n < b")
    case True
    with 1 show ?thesis by (simp add: digits.simps [of b n])
  next
    case False
    with 1 show ?thesis by (auto simp: digits.simps [of b n])
  qed
qed

lemma value_of_append: "value_of b acc (xs @ ys) = value_of b (value_of b acc xs) ys"
  by (induction xs arbitrary: acc) simp_all

lemma value_of_digits:
  assumes "2 \<le> b" "b \<le> 16"
  shows "value_of b 0 (map lower_digit (digits b n)) = n"
  using assms
proof (induction b n rule: digits.induct)
  case (1 b n)
  show ?case
  proof (cases "n < b")
    case True
    with 1 show ?thesis by (simp add: digits.simps [of b n] digit_value_lower)
  next
    case False
    have "n mod b < b" using 1(2) by (intro mod_less_divisor) simp
    then have "n mod b < 16" using 1(3) by simp
    with 1 False show ?thesis
      by (simp add: digits.simps [of b n] value_of_append digit_value_lower)
  qed
qed

lemma value_of_zeros: "value_of b 0 (replicate k (CHR ''0'') @ s) = value_of b 0 s"
  by (induction k) (simp_all add: digit_value_def)

lemma is_digit_lower: "d < b \<Longrightarrow> b \<le> 16 \<Longrightarrow> is_digit b (lower_digit d)"
  by (simp add: is_digit_def digit_value_lower)

lemma formatAddress_digits:
  "\<exists>run. formatAddress a = ''0x'' @ run \<and> run \<noteq> [] \<and> list_all (is_digit 16) run
     \<and> value_of 16 0 run = unat a"
proof -
  let ?ds = "map lower_digit (digits 16 (unat a))"
  let ?run = "pad_left 8 (CHR ''0'') ?ds"
  have "digits 16 (unat a) \<noteq> []" by (subst digits.simps) simp
  then have "?run \<noteq> []" by (simp add: pad_left_def)
  moreover have "is_digit 16 (CHR ''0'')" by (simp add: is_digit_def digit_value_def)
  then have "list_all (is_digit 16) ?run"
    using digits_less [of 16] by (auto simp: pad_left_def list_all_iff intro: is_digit_lower)
  moreover have "value_of 16 0 ?run = unat a"
    by (simp add: pad_left_def value_of_zeros value_of_digits)
  ultimately show ?thesis by (auto simp: formatAddress_def)
qed

lemma parse_formatAddress: "parseAddress (formatAddress a) = Some a"
proof -
  obtain run where run: "formatAddress a = ''0x'' @ run" "run \<noteq> []" "list_all (is_digit 16) run"
    "value_of 16 0 run = unat a" using formatAddress_digits by blast
  then obtain c cs where c: "run = c # cs" "is_digit 16 c" by (cases run) auto
  have tw: "takeWhile (is_digit 16) run = run"
    using run(3) by (simp add: takeWhile_eq_all_conv list_all_iff)
  have "\<not> 2 ^ 64 \<le> unat a" using unsigned_less [of a, where ?'a = nat] by simp
  with run have "read_digits 16 run = Some (unat a)"
    unfolding read_digits_def Let_def tw by simp
  then have "stoul (formatAddress a) = Some (of_nat (unat a))"
    using run c by (simp add: stoul_def read_prefixed_def is_space_def)
  moreover have "ucast (ucast a :: u64) = a" by (rule bit_word_eqI) (simp add: bit_simps)
  ultimately show ?thesis by (simp add: parseAddress_def)
qed

lemma formatAddress_inject: "formatAddress a = formatAddress b \<longleftrightarrow> a = b"
  using parse_formatAddress by (metis option.inject)

end
