(* ===== verification/Cpp.thy ===== *)
theory Cpp
  imports Text_Format Machine
begin

text \<open>
  The fragment of C++ that the translator emits, as syntax with its text and its meaning.  Integer
  types, literals and conversions are those of C++20 on an LP64 host: a decimal literal is an
  \<^verbatim>\<open>int\<close> or a \<^verbatim>\<open>long\<close>, operands are brought to a common type, signed overflow, division by
  zero and oversized shifts are undefined (\<open>None\<close>), and unsigned arithmetic and conversions wrap.
\<close>

unbundle bit_operations_syntax

section \<open>Types and values\<close>

datatype ctype = C_int | C_uint | C_long | C_ulong

fun bit_width :: "ctype \<Rightarrow> nat" where
  "bit_width C_int = 32" | "bit_width C_uint = 32" | "bit_width C_long = 64" | "bit_width C_ulong = 64"

fun is_signed :: "ctype \<Rightarrow> bool" where
  "is_signed C_int = True" | "is_signed C_uint = False" | "is_signed C_long = True" | "is_signed C_ulong = False"

definition convert :: "ctype \<Rightarrow> int \<Rightarrow> int" where
  "convert t k = (if is_signed t then signed_take_bit (bit_width t - 1) k else take_bit (bit_width t) k)"

text \<open>Usual arithmetic conversions.\<close>

definition common :: "ctype \<Rightarrow> ctype \<Rightarrow> ctype" where
  "common s t =
     (if s = C_ulong \<or> t = C_ulong then C_ulong
      else if s = C_long \<or> t = C_long then C_long
      else if s = C_uint \<or> t = C_uint then C_uint
      else C_int)"

type_synonym cvalue = "ctype \<times> int"

section \<open>Expressions\<close>

datatype binop = Add | Sub | Mul | Div | Mod | BitAnd | BitOr | BitXor | Shl | Shr | Lt | Ge | Eq | Ne | And

text \<open>
  A number printed by \<open>{}\<close> (a negative one is a literal after a minus sign); one printed by
  \<^verbatim>\<open>0x{:X}\<close> from an unsigned argument or written in hexadecimal, with upper- or lower-case digits;
  one printed by \<^verbatim>\<open>0x{:X}\<close> from an \<^verbatim>\<open>int32_t\<close>, which is not C++ if it is negative, because the
  minus sign follows the \<^verbatim>\<open>0x\<close>; the variables of generated code, casts, parentheses and operators.
\<close>

datatype expr =
    Dec int
  | Hex u32
  | Hex_lower u32
  | Hex_int i32
  | Host u8
  | CtxReg u8
  | CtxPc
  | Address
  | Cast ctype expr
  | Paren expr
  | Neg expr
  | Bin binop expr expr

text \<open>A value of type \<open>t\<close> computed exactly: undefined if \<open>t\<close> is signed and cannot hold it.\<close>

definition arith :: "ctype \<Rightarrow> int \<Rightarrow> cvalue option" where
  "arith t k = (if is_signed t \<and> convert t k \<noteq> k then None else Some (t, convert t k))"

definition truth :: "bool \<Rightarrow> cvalue option" where
  "truth b = Some (C_int, if b then 1 else 0)"

definition apply_bin :: "binop \<Rightarrow> cvalue \<Rightarrow> cvalue \<Rightarrow> cvalue option" where
  "apply_bin f v w =
     (let t = common (fst v) (fst w); a = convert t (snd v); b = convert t (snd w) in
      case f of
        Add \<Rightarrow> arith t (a + b)
      | Sub \<Rightarrow> arith t (a - b)
      | Mul \<Rightarrow> arith t (a * b)
      | Div \<Rightarrow> if b = 0 then None else arith t (a sdiv b)
      | Mod \<Rightarrow> if b = 0 \<or> arith t (a sdiv b) = None then None else arith t (a smod b)
      | BitAnd \<Rightarrow> Some (t, convert t (a AND b))
      | BitOr \<Rightarrow> Some (t, convert t (a OR b))
      | BitXor \<Rightarrow> Some (t, convert t (a XOR b))
      | Shl \<Rightarrow> if snd w < 0 \<or> int (bit_width (fst v)) \<le> snd w then None
               else Some (fst v, convert (fst v) (snd v * 2 ^ nat (snd w)))
      | Shr \<Rightarrow> if snd w < 0 \<or> int (bit_width (fst v)) \<le> snd w then None
               else Some (fst v, snd v div 2 ^ nat (snd w))
      | Lt \<Rightarrow> truth (a < b)
      | Ge \<Rightarrow> truth (b \<le> a)
      | Eq \<Rightarrow> truth (a = b)
      | Ne \<Rightarrow> truth (a \<noteq> b)
      | And \<Rightarrow> truth (snd v \<noteq> 0 \<and> snd w \<noteq> 0))"

definition decimal_literal :: "int \<Rightarrow> cvalue option" where
  "decimal_literal k =
     (let t = (if \<bar>k\<bar> < 2 ^ 31 then C_int else C_long) in if k < 0 then arith t (- \<bar>k\<bar>) else Some (t, k))"

definition hex_literal :: "u32 \<Rightarrow> cvalue" where
  "hex_literal w = (if uint w < 2 ^ 31 then C_int else C_uint, uint w)"

text \<open>What the variables hold; all of them are \<^verbatim>\<open>uint32_t\<close>.\<close>

record env =
  v_host :: "u8 \<Rightarrow> u32"
  v_reg :: "u8 \<Rightarrow> u32"
  v_pc :: u32
  v_address :: u32

fun eval :: "env \<Rightarrow> expr \<Rightarrow> cvalue option" where
  "eval s (Dec k) = decimal_literal k"
| "eval s (Hex w) = Some (hex_literal w)"
| "eval s (Hex_lower w) = Some (hex_literal w)"
| "eval s (Hex_int i) = (if sint i < 0 then None else Some (hex_literal i))"
| "eval s (Host r) = Some (C_uint, uint (v_host s r))"
| "eval s (CtxReg r) = Some (C_uint, uint (v_reg s r))"
| "eval s CtxPc = Some (C_uint, uint (v_pc s))"
| "eval s Address = Some (C_uint, uint (v_address s))"
| "eval s (Cast t e) = map_option (\<lambda>v. (t, convert t (snd v))) (eval s e)"
| "eval s (Paren e) = eval s e"
| "eval s (Neg e) = (case eval s e of None \<Rightarrow> None | Some v \<Rightarrow> arith (fst v) (- snd v))"
| "eval s (Bin f e e') =
     (case eval s e of
        None \<Rightarrow> None
      | Some v \<Rightarrow>
          if f = And \<and> snd v = 0 then truth False
          else (case eval s e' of None \<Rightarrow> None | Some w \<Rightarrow> apply_bin f v w))"

text \<open>The value converted to \<^verbatim>\<open>uint32_t\<close>, as an assignment to a register does.\<close>

definition eval_u32 :: "env \<Rightarrow> expr \<Rightarrow> u32 option" where
  "eval_u32 s e = map_option (\<lambda>v. word_of_int (snd v)) (eval s e)"

definition eval_cond :: "env \<Rightarrow> expr \<Rightarrow> bool option" where
  "eval_cond s e = map_option (\<lambda>v. snd v \<noteq> 0) (eval s e)"

section \<open>Text of expressions\<close>

fun binop_text :: "binop \<Rightarrow> string" where
  "binop_text Add = ''+''" | "binop_text Sub = ''-''" | "binop_text Mul = ''*''" | "binop_text Div = ''/''"
| "binop_text Mod = ''%''" | "binop_text BitAnd = ''&''" | "binop_text BitOr = ''|''"
| "binop_text BitXor = ''^''" | "binop_text Shl = ''<<''" | "binop_text Shr = ''>>''"
| "binop_text Lt = ''<''" | "binop_text Ge = ''>=''" | "binop_text Eq = ''==''" | "binop_text Ne = ''!=''"
| "binop_text And = ''&&''"

fun ctype_text :: "ctype \<Rightarrow> string" where
  "ctype_text C_int = ''int32_t''" | "ctype_text C_uint = ''uint32_t''"
| "ctype_text C_long = ''int64_t''" | "ctype_text C_ulong = ''uint64_t''"

fun expr_text :: "expr \<Rightarrow> string" where
  "expr_text (Dec k) = format_int k"
| "expr_text (Hex w) = ''0x'' @ format_HEX w"
| "expr_text (Hex_lower w) = ''0x'' @ map lower_digit (digits 16 (unat w))"
| "expr_text (Hex_int i) =
     ''0x'' @ (if sint i < 0 then ''-'' @ map upper_digit (digits 16 (nat (- sint i))) else format_HEX i)"
| "expr_text (Host r) = ''x'' @ format_nat (unat r)"
| "expr_text (CtxReg r) = ''ctx.reg['' @ format_nat (unat r) @ '']''"
| "expr_text CtxPc = ''ctx.pc''"
| "expr_text Address = ''address''"
| "expr_text (Cast t e) = ''static_cast<'' @ ctype_text t @ ''>('' @ expr_text e @ '')''"
| "expr_text (Paren e) = ''('' @ expr_text e @ '')''"
| "expr_text (Neg e) = ''- '' @ expr_text e"
| "expr_text (Bin f e e') = expr_text e @ '' '' @ binop_text f @ '' '' @ expr_text e'"

end
