(* ===== verification/Emitter.thy ===== *)
theory Emitter
  imports Cpp
begin

text \<open>
  The output side of the translator: command line options (\<^verbatim>\<open>sbt/Options.cpp\<close>), the emitter with its
  register map (\<^verbatim>\<open>sbt/codegen/Emitter.cpp\<close>), and the statements of generated code with their text.
  The emitter's output is kept as the list of statements it prints, each with its indentation;
  \<open>output_text\<close> is the text of the file.
\<close>

section \<open>Options\<close>

record TranslationOptions =
  profileIndirect :: bool
  translationChaining :: bool
  useProfilingData :: bool
  softwareBranchPrediction :: bool
  pinRegisters :: bool

definition default_options :: TranslationOptions where
  "default_options = \<lparr>profileIndirect = False, translationChaining = False, useProfilingData = False,
     softwareBranchPrediction = False, pinRegisters = True\<rparr>"

text \<open>The loop over \<^verbatim>\<open>argv[1..]\<close>.\<close>

fun parse_args :: "string list \<Rightarrow> TranslationOptions \<Rightarrow> TranslationOptions \<times> string list" where
  "parse_args [] opts = (opts, [])"
| "parse_args (arg # args) opts =
     (if arg = ''--translation-chaining'' then parse_args args (opts\<lparr>translationChaining := True\<rparr>)
      else if arg = ''--profile-indirect'' then parse_args args (opts\<lparr>profileIndirect := True\<rparr>)
      else if arg = ''--software-branch-prediction'' then parse_args args (opts\<lparr>softwareBranchPrediction := True\<rparr>)
      else if arg = ''--use-profiling-data'' then parse_args args (opts\<lparr>useProfilingData := True\<rparr>)
      else if arg = ''--pin-registers'' then parse_args args (opts\<lparr>pinRegisters := True\<rparr>)
      else (let (opts', positional) = parse_args args opts in (opts', arg # positional)))"

definition parseArguments :: "string list \<Rightarrow> TranslationOptions \<Rightarrow> TranslationOptions \<times> string list" where
  "parseArguments arguments opts = parse_args (tl arguments) opts"

section \<open>Statements of generated code\<close>

text \<open>The type argument of \<^verbatim>\<open>memory.read\<close> and \<^verbatim>\<open>memory.write\<close>.\<close>

datatype access = A_i8 | A_i16 | A_i32 | A_u8 | A_u16 | A_u32

datatype stmt =
    Label u32
  | Assign expr expr
  | OpAssign binop expr expr
  | Load expr access expr
  | Store access expr expr
  | Branches "(expr \<times> expr \<times> expr) list" expr expr
  | IfGoto expr u32
  | Goto u32
  | Handle
  | HandleNum u32
  | PrintUnsupported u32
  | StartTimer
  | Continue
  | SetDispatchIndex u32
  | GotoDispatch

fun access_text :: "access \<Rightarrow> string" where
  "access_text A_i8 = ''int8_t''" | "access_text A_i16 = ''int16_t''" | "access_text A_i32 = ''int32_t''"
| "access_text A_u8 = ''uint8_t''" | "access_text A_u16 = ''uint16_t''" | "access_text A_u32 = ''uint32_t''"

definition newline :: string where "newline = [CHR 0x0A]"

definition label_text :: "u32 \<Rightarrow> string" where "label_text a = CHR ''L'' # format_HEX a"

text \<open>The right-hand side of a load: signed bytes and half words are cast, unsigned bytes go through \<^verbatim>\<open>ctx\<close>.\<close>

fun load_text :: "access \<Rightarrow> string \<Rightarrow> string" where
  "load_text A_i8 a = ''static_cast<int32_t>(memory.read<int8_t>('' @ a @ ''))''"
| "load_text A_i16 a = ''static_cast<int32_t>(memory.read<int16_t>('' @ a @ ''))''"
| "load_text A_u8 a = ''ctx.memory.read<uint8_t>('' @ a @ '')''"
| "load_text t a = ''memory.read<'' @ access_text t @ ''>('' @ a @ '')''"

definition blanks :: "nat \<Rightarrow> string" where "blanks n = replicate n (CHR '' '')"

text \<open>The raw strings of the divisions: arms \<open>(condition, target, value)\<close> and a last assignment.\<close>

fun arms_text :: "(expr \<times> expr \<times> expr) list \<Rightarrow> expr \<Rightarrow> expr \<Rightarrow> string" where
  "arms_text [] l e =
     ''{'' @ newline @ blanks 20 @ expr_text l @ '' = '' @ expr_text e @ '';'' @ newline @ blanks 16 @ ''}'' @ newline @ blanks 12"
| "arms_text ((c, l', e') # arms) l e =
     ''if ('' @ expr_text c @ '') {'' @ newline @ blanks 20 @ expr_text l' @ '' = '' @ expr_text e' @ '';'' @ newline
       @ blanks 16 @ ''} else '' @ arms_text arms l e"

fun stmt_text :: "stmt \<Rightarrow> string" where
  "stmt_text (Label a) = label_text a @ '':'' @ newline"
| "stmt_text (Assign l e) = expr_text l @ '' = '' @ expr_text e @ '';'' @ newline"
| "stmt_text (OpAssign f l e) = expr_text l @ '' '' @ binop_text f @ ''= '' @ expr_text e @ '';'' @ newline"
| "stmt_text (Load l t e) = expr_text l @ '' = '' @ load_text t (expr_text e) @ '';'' @ newline"
| "stmt_text (Store t a e) = ''memory.write<'' @ access_text t @ ''>('' @ expr_text a @ '', '' @ expr_text e @ '');'' @ newline"
| "stmt_text (Branches arms l e) = newline @ blanks 16 @ arms_text arms l e"
| "stmt_text (IfGoto c a) = ''if ('' @ expr_text c @ '') goto '' @ label_text a @ '';'' @ newline"
| "stmt_text (Goto a) = ''goto '' @ label_text a @ '';'' @ newline"
| "stmt_text Handle = ''Syscall::handle(ctx);'' @ newline"
| "stmt_text (HandleNum n) = ''Syscall::handle(ctx, '' @ format_nat (unat n) @ '');'' @ newline"
| "stmt_text (PrintUnsupported a) =
     ''printf('' @ [CHR 0x22] @ ''Unsupported instruction at 0x'' @ format_HEX a @ [CHR 0x5C] @ ''n'' @ [CHR 0x22] @ '');'' @ newline"
| "stmt_text StartTimer = ''timerActive = true; timer = __rdtsc();'' @ newline"
| "stmt_text Continue = ''continue;'' @ newline"
| "stmt_text (SetDispatchIndex a) = ''pcDispatchIndex = (ctx.pc - 0x'' @ format_HEX a @ '') / 4;'' @ newline"
| "stmt_text GotoDispatch = ''goto *dispatch[pcDispatchIndex];'' @ newline"

section \<open>The emitter\<close>

type_synonym RegisterMap = "(u8 \<times> string) list"

record Emitter =
  emitted :: "(nat \<times> stmt) list"
  options :: TranslationOptions
  registerMap :: RegisterMap
  indent :: nat

definition new_Emitter :: "TranslationOptions \<Rightarrow> RegisterMap \<Rightarrow> Emitter" where
  "new_Emitter opts rm = \<lparr>emitted = [], options = opts, registerMap = rm, indent = 0\<rparr>"

definition setIndent :: "nat \<Rightarrow> Emitter \<Rightarrow> Emitter" where
  "setIndent level em = em\<lparr>indent := level\<rparr>"

definition emit :: "stmt \<Rightarrow> Emitter \<Rightarrow> Emitter" where
  "emit s em = em\<lparr>emitted := emitted em @ [(indent em, s)]\<rparr>"

definition emitRegisterStore :: "Emitter \<Rightarrow> Emitter" where
  "emitRegisterStore em =
     (if \<not> pinRegisters (options em) then em
      else fold (\<lambda>(s, hst) em. emit (Assign (CtxReg s) (Host s)) em) (registerMap em) em)"

definition emitRegisterLoad :: "Emitter \<Rightarrow> Emitter" where
  "emitRegisterLoad em =
     (if \<not> pinRegisters (options em) then em
      else fold (\<lambda>(s, hst) em. emit (Assign (Host s) (CtxReg s)) em) (registerMap em) em)"

fun getHostRegister_in :: "RegisterMap \<Rightarrow> u8 \<Rightarrow> string option" where
  "getHostRegister_in [] r = None"
| "getHostRegister_in ((s, hst) # rest) r = (if s = r then Some hst else getHostRegister_in rest r)"

definition getHostRegister :: "Emitter \<Rightarrow> u8 \<Rightarrow> string option" where
  "getHostRegister em r = getHostRegister_in (registerMap em) r"

text \<open>\<^verbatim>\<open>register uint32_t x1 asm ("r8");\<close> for every pinned register.\<close>

definition emitPinnedRegisters :: "Emitter \<Rightarrow> string list" where
  "emitPinnedRegisters em =
     (if \<not> pinRegisters (options em) then []
      else map (\<lambda>(s, hst). ''register uint32_t x'' @ format_nat (unat s) @ '' asm ('' @ [CHR 0x22] @ hst @ [CHR 0x22] @ '');'' @ newline)
             (registerMap em))"

definition output_text :: "Emitter \<Rightarrow> string" where
  "output_text em = concat (map (\<lambda>(n, s). replicate n (CHR 0x09) @ stmt_text s) (emitted em))"

text \<open>The map that \<^verbatim>\<open>sbt/main.cpp\<close> passes on x86-64.\<close>

definition x86RegisterMap :: RegisterMap where
  "x86RegisterMap = [(1, ''r8''), (2, ''r9''), (15, ''r10''), (14, ''r11''), (10, ''r12''), (8, ''r13''),
     (13, ''r14''), (12, ''r15'')]"

section \<open>Templates\<close>

text \<open>
  \<^verbatim>\<open>fillTemplate\<close>: replace the first occurrence of the token until there is none.  \<open>fuel\<close> bounds the
  replacements; a value that contains its own token would make the program loop, which is \<open>None\<close>.
\<close>

fun replace_first :: "string \<Rightarrow> string \<Rightarrow> string \<Rightarrow> string option" where
  "replace_first token value [] = (if token = [] then Some value else None)"
| "replace_first token value (c # cs) =
     (if take (length token) (c # cs) = token then Some (value @ drop (length token) (c # cs))
      else map_option (Cons c) (replace_first token value cs))"

fun replace_all :: "nat \<Rightarrow> string \<Rightarrow> string \<Rightarrow> string \<Rightarrow> string option" where
  "replace_all fuel token value s =
     (case replace_first token value s of
        None \<Rightarrow> Some s
      | Some s' \<Rightarrow> (case fuel of 0 \<Rightarrow> None | Suc n \<Rightarrow> replace_all n token value s'))"

fun fillTemplate :: "string \<Rightarrow> (string \<times> string) list \<Rightarrow> string option" where
  "fillTemplate tmpl [] = Some tmpl"
| "fillTemplate tmpl ((key, value) # values) =
     (case replace_all (length tmpl) (''%%'' @ key @ ''%%'') value tmpl of
        None \<Rightarrow> None
      | Some tmpl' \<Rightarrow> fillTemplate tmpl' values)"

end
