(* ===== verification/InstructionEmitter.thy ===== *)
theory InstructionEmitter
  imports Emitter
begin

text \<open>
  The translation of single instructions, \<^verbatim>\<open>sbt/codegen/InstructionEmitter.cpp\<close>: operands with
  the constants the emitter has tracked, the helpers, and \<^verbatim>\<open>emitInstruction\<close>, arm by arm in the order
  of the source.  \<open>rest\<close> stands for the arms that follow a group.
\<close>

unbundle bit_operations_syntax

section \<open>State\<close>

datatype InstructionField = RS1 | RS2 | RD | IMMEDIATE

text \<open>\<open>untracked\<close> collects the addresses reported as \<^verbatim>\<open>a7 not tracked\<close> during translation.\<close>

record InstructionEmitter =
  emitter :: Emitter
  profilingInfo :: ProfilingInfo
  leaders :: "u32 set"
  textStartAddress :: u32
  current :: "Instruction option"
  regValues :: "u8 \<Rightarrow> u32"
  regKnown :: "u8 \<Rightarrow> bool"
  untracked :: "u32 list"

definition new_InstructionEmitter :: "Emitter \<Rightarrow> ProfilingInfo \<Rightarrow> u32 set \<Rightarrow> u32 \<Rightarrow> InstructionEmitter" where
  "new_InstructionEmitter em info lds start =
     \<lparr>emitter = em, profilingInfo = info, leaders = lds, textStartAddress = start, current = None,
      regValues = (\<lambda>_. 0), regKnown = (\<lambda>_. False), untracked = []\<rparr>"

definition on_emitter :: "(Emitter \<Rightarrow> Emitter) \<Rightarrow> InstructionEmitter \<Rightarrow> InstructionEmitter" where
  "on_emitter f ie = ie\<lparr>emitter := f (emitter ie)\<rparr>"

section \<open>Helpers\<close>

fun field_index :: "InstructionField \<Rightarrow> Instruction \<Rightarrow> u8" where
  "field_index RS1 inst = rs1 inst"
| "field_index RS2 inst = rs2 inst"
| "field_index RD inst = rd inst"
| "field_index IMMEDIATE inst = ucast (immediate inst)"

definition REG :: "InstructionEmitter \<Rightarrow> InstructionField \<Rightarrow> expr" where
  "REG ie field =
     (case current ie of
        None \<Rightarrow> Dec 0
      | Some inst \<Rightarrow>
          (let index = field_index field inst in
           if index = 0 then Dec 0
           else if field \<noteq> RD \<and> regKnown ie index then Dec (uint (regValues ie index))
           else if pinRegisters (options (emitter ie)) \<and> getHostRegister (emitter ie) index \<noteq> None then Host index
           else CtxReg index))"

definition ie_emit :: "stmt \<Rightarrow> InstructionEmitter \<Rightarrow> InstructionEmitter" where
  "ie_emit s ie = on_emitter (emit s) ie"

text \<open>\<^verbatim>\<open>emit(text, rd)\<close>: skip writes to \<^verbatim>\<open>x0\<close>; the register is no longer known.\<close>

definition emit_rd :: "stmt \<Rightarrow> u8 \<Rightarrow> InstructionEmitter \<Rightarrow> InstructionEmitter" where
  "emit_rd s d ie =
     (let ie1 = (if 0 < d then ie_emit s ie else ie) in ie1\<lparr>regKnown := (regKnown ie1)(d := False)\<rparr>)"

definition emitLoadSaveAddress :: "Instruction \<Rightarrow> InstructionEmitter \<Rightarrow> InstructionEmitter" where
  "emitLoadSaveAddress inst ie =
     (if immediate inst = 0 then ie_emit (Assign Address (REG ie RS1)) ie
      else ie_emit (Assign Address (Bin Add (REG ie RS1) (Dec (sint (immediate inst))))) ie)"

definition emitOp :: "binop \<Rightarrow> bool \<Rightarrow> InstructionEmitter \<Rightarrow> InstructionEmitter" where
  "emitOp f ordered ie =
     (case current ie of
        None \<Rightarrow> ie
      | Some inst \<Rightarrow>
          if rd inst = rs1 inst then emit_rd (OpAssign f (REG ie RD) (REG ie RS2)) (rd inst) ie
          else if rd inst = rs2 inst \<and> \<not> ordered then emit_rd (OpAssign f (REG ie RD) (REG ie RS1)) (rd inst) ie
          else if rd inst = rs2 inst \<and> rs1 inst = 0 then emit_rd (Assign (REG ie RD) (Neg (REG ie RS2))) (rd inst) ie
          else emit_rd (Assign (REG ie RD) (Bin f (REG ie RS1) (REG ie RS2))) (rd inst) ie)"

definition track :: "u8 \<Rightarrow> u32 \<Rightarrow> InstructionEmitter \<Rightarrow> InstructionEmitter" where
  "track r v ie = ie\<lparr>regValues := (regValues ie)(r := v), regKnown := (regKnown ie)(r := True)\<rparr>"

definition resetTracked :: "InstructionEmitter \<Rightarrow> InstructionEmitter" where
  "resetTracked ie = ie\<lparr>regKnown := (\<lambda>_. False)\<rparr>"

section \<open>Arms of \<open>emitInstruction\<close>\<close>

text \<open>Register-register arithmetic.\<close>

definition emit_op :: "Instruction \<Rightarrow> InstructionEmitter \<Rightarrow> InstructionEmitter \<Rightarrow> InstructionEmitter" where
  "emit_op inst ie rest =
    (let a = REG ie RS1; b = REG ie RS2; d = REG ie RD in
     case itype inst of
       I_ADD \<Rightarrow> emitOp Add False ie
     | I_SUB \<Rightarrow> emitOp Sub True ie
     | I_XOR \<Rightarrow> emitOp BitXor False ie
     | I_OR \<Rightarrow> emitOp BitOr False ie
     | I_AND \<Rightarrow> emitOp BitAnd False ie
     | I_SLL \<Rightarrow> emit_rd (Assign d (Bin Shl a (Paren (Bin BitAnd b (Hex_lower 0x1f))))) (rd inst) ie
     | I_SRL \<Rightarrow> emit_rd (Assign d (Bin Shr a (Paren (Bin BitAnd b (Hex_lower 0x1f))))) (rd inst) ie
     | I_SRA \<Rightarrow> emit_rd (Assign d (Cast C_uint (Bin Shr (Cast C_int a) (Paren (Bin BitAnd b (Hex_lower 0x1f)))))) (rd inst) ie
     | I_SLT \<Rightarrow> emit_rd (Assign d (Bin Lt (Cast C_int a) (Cast C_int b))) (rd inst) ie
     | I_SLTU \<Rightarrow> emit_rd (Assign d (Bin Lt a b)) (rd inst) ie
     | _ \<Rightarrow> rest)"

text \<open>
  Register-immediate arithmetic; \<^verbatim>\<open>addi rd, x0, imm\<close> is the only instruction whose result is tracked.
\<close>

definition emit_op_imm :: "Instruction \<Rightarrow> InstructionEmitter \<Rightarrow> InstructionEmitter \<Rightarrow> InstructionEmitter" where
  "emit_op_imm inst ie rest =
    (let a = REG ie RS1; d = REG ie RD; imm = Dec (sint (immediate inst)); shift = Dec (uint (rs2 inst)) in
     case itype inst of
       I_ADDI \<Rightarrow>
         if immediate inst = 0 then emit_rd (Assign d a) (rd inst) ie
         else if rs1 inst = 0 then
           track (rd inst) (immediate inst) (emit_rd (Assign d imm) (rd inst) ie)
         else if sint (immediate inst) < 0 then
           (if rs1 inst = rd inst then emit_rd (OpAssign Sub d (Dec (- sint (immediate inst)))) (rd inst) ie
            else emit_rd (Assign d (Bin Sub a (Dec (- sint (immediate inst))))) (rd inst) ie)
         else
           (if rs1 inst = rd inst then emit_rd (OpAssign Add d imm) (rd inst) ie
            else emit_rd (Assign d (Bin Add a imm)) (rd inst) ie)
     | I_XORI \<Rightarrow> emit_rd (Assign d (Bin BitXor a imm)) (rd inst) ie
     | I_ORI \<Rightarrow> emit_rd (Assign d (Bin BitOr a imm)) (rd inst) ie
     | I_ANDI \<Rightarrow> emit_rd (Assign d (Bin BitAnd a imm)) (rd inst) ie
     | I_SLLI \<Rightarrow> emit_rd (Assign d (Bin Shl a shift)) (rd inst) ie
     | I_SRLI \<Rightarrow> emit_rd (Assign d (Bin Shr a shift)) (rd inst) ie
     | I_SRAI \<Rightarrow> emit_rd (Assign d (Cast C_uint (Bin Shr (Cast C_int a) shift))) (rd inst) ie
     | I_SLTI \<Rightarrow> emit_rd (Assign d (Bin Lt (Cast C_int a) imm)) (rd inst) ie
     | I_SLTIU \<Rightarrow> emit_rd (Assign d (Bin Lt a (Dec (uint (immediate inst))))) (rd inst) ie
     | _ \<Rightarrow> rest)"

text \<open>Loads and stores.\<close>

definition emit_mem :: "Instruction \<Rightarrow> InstructionEmitter \<Rightarrow> InstructionEmitter \<Rightarrow> InstructionEmitter" where
  "emit_mem inst ie rest =
    (let b = REG ie RS2; d = REG ie RD; ie1 = emitLoadSaveAddress inst ie in
     case itype inst of
       I_LB \<Rightarrow> emit_rd (Load d A_i8 Address) (rd inst) ie1
     | I_LH \<Rightarrow> emit_rd (Load d A_i16 Address) (rd inst) ie1
     | I_LW \<Rightarrow> emit_rd (Load d A_i32 Address) (rd inst) ie1
     | I_LBU \<Rightarrow> emit_rd (Load d A_u8 Address) (rd inst) ie1
     | I_LHU \<Rightarrow> emit_rd (Load d A_u16 Address) (rd inst) ie1
     | I_SB \<Rightarrow> ie_emit (Store A_u8 Address b) ie1
     | I_SH \<Rightarrow> ie_emit (Store A_u16 Address b) ie1
     | I_SW \<Rightarrow> ie_emit (Store A_u32 Address b) ie1
     | _ \<Rightarrow> rest)"

text \<open>Branches.\<close>

definition emit_branch :: "Instruction \<Rightarrow> InstructionEmitter \<Rightarrow> InstructionEmitter \<Rightarrow> InstructionEmitter" where
  "emit_branch inst ie rest =
    (let a = REG ie RS1; b = REG ie RS2; target = address inst + immediate inst in
     case itype inst of
       I_BEQ \<Rightarrow> ie_emit (IfGoto (Bin Eq a b) target) ie
     | I_BNE \<Rightarrow> ie_emit (IfGoto (Bin Ne a b) target) ie
     | I_BLT \<Rightarrow> ie_emit (IfGoto (Bin Lt (Cast C_int a) (Cast C_int b)) target) ie
     | I_BGE \<Rightarrow> ie_emit (IfGoto (Bin Ge (Cast C_int a) (Cast C_int b)) target) ie
     | I_BLTU \<Rightarrow> ie_emit (IfGoto (Bin Lt a b) target) ie
     | I_BGEU \<Rightarrow> ie_emit (IfGoto (Bin Ge a b) target) ie
     | _ \<Rightarrow> rest)"

text \<open>
  The hard-coded targets of an indirect jump: up to three times take the first entry with the
  largest count, emit a direct jump if it is a leader, and erase it.
\<close>

fun max_element :: "(u32 \<times> u64) \<Rightarrow> (u32 \<times> u64) list \<Rightarrow> (u32 \<times> u64)" where
  "max_element best [] = best"
| "max_element best (x # xs) = (if snd best < snd x then max_element x xs else max_element best xs)"

fun emit_predictions :: "nat \<Rightarrow> BranchDestinations \<Rightarrow> InstructionEmitter \<Rightarrow> InstructionEmitter" where
  "emit_predictions 0 dests ie = ie"
| "emit_predictions (Suc n) [] ie = ie"
| "emit_predictions (Suc n) (x # xs) ie =
     (let m = max_element x xs;
          ie1 = (if fst m \<in> leaders ie then ie_emit (IfGoto (Bin Eq CtxPc (Hex (fst m))) (fst m)) ie else ie)
      in emit_predictions n (remove1 m (x # xs)) ie1)"

text \<open>Jumps and upper immediates.\<close>

definition emit_jump :: "Instruction \<Rightarrow> InstructionEmitter \<Rightarrow> InstructionEmitter \<Rightarrow> InstructionEmitter" where
  "emit_jump inst ie rest =
    (let a = REG ie RS1; d = REG ie RD; opts = options (emitter ie) in
     case itype inst of
       I_JAL \<Rightarrow>
         ie_emit (Goto (address inst + immediate inst)) (emit_rd (Assign d (Hex (address inst + 4))) (rd inst) ie)
     | I_JALR \<Rightarrow>
         (let ie1 = ie_emit (Assign CtxPc (Bin Add (Dec (sint (immediate inst))) a)) ie;
              ie2 = emit_rd (Assign d (Hex (address inst + 4))) (rd inst) ie1;
              ie3 = (if profileIndirect opts \<and> \<not> translationChaining opts then ie_emit StartTimer ie2 else ie2);
              ie4 = (if softwareBranchPrediction opts
                     then emit_predictions 3 (getIndirectBranchTargets (profilingInfo ie3) (address inst)) ie3
                     else ie3)
          in if translationChaining opts
             then ie_emit GotoDispatch (ie_emit (SetDispatchIndex (textStartAddress ie4)) ie4)
             else ie_emit Continue ie4)
     | I_LUI \<Rightarrow> emit_rd (Assign d (Dec (sint (push_bit 12 (immediate inst))))) (rd inst) ie
     | I_AUIPC \<Rightarrow> emit_rd (Assign d (Bin Add (Hex (address inst)) (Hex_int (push_bit 12 (immediate inst))))) (rd inst) ie
     | _ \<Rightarrow> rest)"

text \<open>System instructions.\<close>

definition emit_system :: "Instruction \<Rightarrow> InstructionEmitter \<Rightarrow> InstructionEmitter \<Rightarrow> InstructionEmitter" where
  "emit_system inst ie rest =
    (case itype inst of
       I_ECALL \<Rightarrow>
         (let ie1 = on_emitter emitRegisterStore ie;
              ie2 = (if \<not> regKnown ie1 REG_a7
                     then ie_emit Handle (ie1\<lparr>untracked := untracked ie1 @ [address inst]\<rparr>)
                     else ie_emit (HandleNum (regValues ie1 REG_a7)) ie1);
              ie3 = on_emitter emitRegisterLoad ie2
          in ie3\<lparr>regKnown := (regKnown ie3)(REG_a0 := False)\<rparr>)
     | I_EBREAK \<Rightarrow> ie
     | I_FENCE \<Rightarrow> ie
     | _ \<Rightarrow> rest)"

text \<open>Multiplication and division.\<close>

definition emit_muldiv :: "Instruction \<Rightarrow> InstructionEmitter \<Rightarrow> InstructionEmitter \<Rightarrow> InstructionEmitter" where
  "emit_muldiv inst ie rest =
    (let a = REG ie RS1; b = REG ie RS2; d = REG ie RD;
         zero = Bin Eq b (Dec 0);
         overflow = Bin And (Bin Eq a (Hex 0x80000000)) (Bin Eq b (Hex 0xFFFFFFFF)) in
     case itype inst of
       I_MUL \<Rightarrow> emit_rd (Assign d (Bin BitAnd (Bin Mul (Cast C_ulong a) (Cast C_ulong b)) (Hex 0xFFFFFFFF))) (rd inst) ie
     | I_MULH \<Rightarrow> emit_rd (Assign d (Bin Shr (Paren (Bin Mul (Cast C_long (Cast C_int a)) (Cast C_long (Cast C_int b)))) (Dec 32))) (rd inst) ie
     | I_MULHSU \<Rightarrow> emit_rd (Assign d (Bin Shr (Paren (Bin Mul (Cast C_long (Cast C_int a)) (Cast C_ulong b))) (Dec 32))) (rd inst) ie
     | I_MULHU \<Rightarrow> emit_rd (Assign d (Bin Shr (Paren (Bin Mul (Cast C_ulong a) (Cast C_ulong b))) (Dec 32))) (rd inst) ie
     | I_DIV \<Rightarrow> emit_rd (Branches [(zero, d, Dec (- 1)), (overflow, d, Hex 0x80000000)]
                   d (Cast C_uint (Bin Div (Cast C_int a) (Cast C_int b)))) (rd inst) ie
     | I_DIVU \<Rightarrow> emit_rd (Branches [(zero, d, Hex 0xFFFFFFFF)] d (Bin Div a b)) (rd inst) ie
     | I_REM \<Rightarrow> emit_rd (Branches [(zero, d, a), (overflow, d, Hex 0x80000000)]
                   d (Cast C_uint (Bin Mod (Cast C_int a) (Cast C_int b)))) (rd inst) ie
     | I_REMU \<Rightarrow> emit_rd (Branches [(zero, d, a)] d (Bin Mod a b)) (rd inst) ie
     | _ \<Rightarrow> rest)"

text \<open>Load-reserved, store-conditional and what the decoder rejected.\<close>

definition emit_atomic :: "Instruction \<Rightarrow> InstructionEmitter \<Rightarrow> InstructionEmitter \<Rightarrow> InstructionEmitter" where
  "emit_atomic inst ie rest =
    (let a = REG ie RS1; b = REG ie RS2; d = REG ie RD in
     case itype inst of
       I_LR_W \<Rightarrow> emit_rd (Load d A_u32 a) (rd inst) ie
     | I_SC_W \<Rightarrow> emit_rd (Assign d (Dec 0)) (rd inst) (ie_emit (Store A_u32 a b) ie)
     | I_INVALID \<Rightarrow>
         on_emitter emitRegisterLoad (ie_emit (PrintUnsupported (address inst)) (on_emitter emitRegisterStore ie))
     | _ \<Rightarrow> rest)"

definition emit_arms :: "Instruction \<Rightarrow> InstructionEmitter \<Rightarrow> InstructionEmitter" where
  "emit_arms inst ie =
     emit_op inst ie (emit_op_imm inst ie (emit_mem inst ie (emit_branch inst ie (emit_jump inst ie
       (emit_system inst ie (emit_muldiv inst ie (emit_atomic inst ie ie)))))))"

text \<open>The label of a leader, where nothing is known about the registers.\<close>

definition emit_label :: "Instruction \<Rightarrow> InstructionEmitter \<Rightarrow> InstructionEmitter" where
  "emit_label inst ie =
     (let ie1 = on_emitter (setIndent 1) ie;
          ie2 = (if address inst \<in> leaders ie1 then resetTracked (ie_emit (Label (address inst)) ie1) else ie1)
      in on_emitter (setIndent 2) ie2)"

definition emitInstruction :: "Instruction \<Rightarrow> InstructionEmitter \<Rightarrow> InstructionEmitter" where
  "emitInstruction inst ie =
     (let ie1 = (emit_label inst ie)\<lparr>current := Some inst\<rparr>
      in (emit_arms inst ie1)\<lparr>current := None\<rparr>)"

end
