(* ===== verification/Translated.thy ===== *)
theory Translated
  imports InstructionEmitter Engines
begin

text \<open>
  The meaning of generated code: the state of \<^verbatim>\<open>runTranslated\<close> (the context, the pinned host
  registers and its two local variables), the effect of every statement, and sequences of
  statements.  A statement either falls through to the next one or transfers control.
\<close>

unbundle bit_operations_syntax

section \<open>State and control flow\<close>

text \<open>
  The pinned registers are named by the guest register they hold.  Calling a compiled function
  leaves some other values in them (most are caller-saved on x86-64): \<open>clobber\<close>, of which nothing
  is assumed.  The last three fields are the globals of \<^verbatim>\<open>profiling_globals.cpp.in\<close> that decide when a
  time is taken.
\<close>

record 'w tstate =
  ctx :: "'w machine"
  host_reg :: "u8 \<Rightarrow> u32"
  clobber :: "(u8 \<Rightarrow> u32) \<Rightarrow> u8 \<Rightarrow> u32"
  address_var :: u32
  pcDispatchIndex :: u32
  timerActive :: bool
  heatup :: u8
  indirectMeasured :: u64

datatype flow =
    Fall
  | ToLabel u32
  | ToLoop
  | ToDispatch

definition env_of :: "'w tstate \<Rightarrow> env" where
  "env_of s = \<lparr>v_host = host_reg s, v_reg = reg (ctx s), v_pc = pc (ctx s), v_address = address_var s\<rparr>"

text \<open>Assignment to one of the variables an emitted assignment has on its left.\<close>

fun assign :: "expr \<Rightarrow> u32 \<Rightarrow> 'w tstate \<Rightarrow> 'w tstate option" where
  "assign (Host r) v s = Some (s\<lparr>host_reg := (host_reg s)(r := v)\<rparr>)"
| "assign (CtxReg r) v s = Some (s\<lparr>ctx := set_reg r v (ctx s)\<rparr>)"
| "assign CtxPc v s = Some (s\<lparr>ctx := (ctx s)\<lparr>pc := v\<rparr>\<rparr>)"
| "assign Address v s = Some (s\<lparr>address_var := v\<rparr>)"
| "assign _ v s = None"

definition assign_value :: "expr \<Rightarrow> u32 option \<Rightarrow> 'w tstate \<Rightarrow> ('w tstate \<times> flow) outcome" where
  "assign_value l v s =
     (case v of None \<Rightarrow> Undefined
      | Some x \<Rightarrow> (case assign l x s of None \<Rightarrow> Undefined | Some s' \<Rightarrow> Running (s', Fall)))"

definition read_access :: "access \<Rightarrow> Memory \<Rightarrow> u32 \<Rightarrow> u32 option" where
  "read_access t m a =
     (case t of
        A_i8 \<Rightarrow> map_option scast (read_u8 m a)
      | A_i16 \<Rightarrow> map_option scast (read_u16 m a)
      | A_i32 \<Rightarrow> read_u32 m a
      | A_u8 \<Rightarrow> map_option ucast (read_u8 m a)
      | A_u16 \<Rightarrow> map_option ucast (read_u16 m a)
      | A_u32 \<Rightarrow> read_u32 m a)"

definition write_access :: "access \<Rightarrow> Memory \<Rightarrow> u32 \<Rightarrow> u32 \<Rightarrow> Memory option" where
  "write_access t m a v =
     (case t of
        A_i8 \<Rightarrow> write_u8 m a v
      | A_i16 \<Rightarrow> write_u16 m a v
      | A_i32 \<Rightarrow> write_u32 m a v
      | A_u8 \<Rightarrow> write_u8 m a v
      | A_u16 \<Rightarrow> write_u16 m a v
      | A_u32 \<Rightarrow> write_u32 m a v)"

text \<open>An inlined operation on the context, and a function called on it.\<close>

definition on_ctx :: "'w tstate \<Rightarrow> 'w machine outcome \<Rightarrow> ('w tstate \<times> flow) outcome" where
  "on_ctx s r = omap (\<lambda>m. (s\<lparr>ctx := m\<rparr>, Fall)) r"

definition call_ctx :: "'w tstate \<Rightarrow> 'w machine outcome \<Rightarrow> ('w tstate \<times> flow) outcome" where
  "call_ctx s r = omap (\<lambda>m. (s\<lparr>ctx := m, host_reg := clobber s (host_reg s)\<rparr>, Fall)) r"

fun exec_arms ::
  "(expr \<times> expr \<times> expr) list \<Rightarrow> expr \<Rightarrow> expr \<Rightarrow> 'w tstate \<Rightarrow> ('w tstate \<times> flow) outcome" where
  "exec_arms [] l e s = assign_value l (eval_u32 (env_of s) e) s"
| "exec_arms ((c, l', e') # arms) l e s =
     (case eval_cond (env_of s) c of
        None \<Rightarrow> Undefined
      | Some True \<Rightarrow> assign_value l' (eval_u32 (env_of s) e') s
      | Some False \<Rightarrow> exec_arms arms l e s)"

fun exec :: "'w host \<Rightarrow> stmt \<Rightarrow> 'w tstate \<Rightarrow> ('w tstate \<times> flow) outcome" where
  "exec h (Label a) s = Running (s, Fall)"
| "exec h (Assign l e) s = assign_value l (eval_u32 (env_of s) e) s"
| "exec h (OpAssign f l e) s = assign_value l (eval_u32 (env_of s) (Bin f l e)) s"
| "exec h (Load l t e) s =
     (case eval_u32 (env_of s) e of
        None \<Rightarrow> Undefined
      | Some a \<Rightarrow> (case read_access t (memory (ctx s)) a of
                     None \<Rightarrow> OutOfBounds a
                   | Some v \<Rightarrow> assign_value l (Some v) s))"
| "exec h (Store t ea e) s =
     (case (eval_u32 (env_of s) ea, eval_u32 (env_of s) e) of
        (Some a, Some v) \<Rightarrow> on_ctx s (store_then a (write_access t (memory (ctx s)) a v) (ctx s))
      | _ \<Rightarrow> Undefined)"
| "exec h (Branches arms l e) s = exec_arms arms l e s"
| "exec h (IfGoto c a) s =
     (case eval_cond (env_of s) c of
        None \<Rightarrow> Undefined
      | Some b \<Rightarrow> Running (s, if b then ToLabel a else Fall))"
| "exec h (Goto a) s = Running (s, ToLabel a)"
| "exec h Handle s = call_ctx s (handle h (ctx s))"
| "exec h (HandleNum n) s = call_ctx s (handle_num h (ctx s) n)"
| "exec h (PrintUnsupported a) s = call_ctx s (Running (print (Unsupported_instruction a) (ctx s)))"
| "exec h StartTimer s = Running (s\<lparr>timerActive := True\<rparr>, Fall)"
| "exec h Continue s = Running (s, ToLoop)"
| "exec h (SetDispatchIndex a) s = Running (s\<lparr>pcDispatchIndex := (pc (ctx s) - a) div 4\<rparr>, Fall)"
| "exec h GotoDispatch s = Running (s, ToDispatch)"

fun exec_list :: "'w host \<Rightarrow> stmt list \<Rightarrow> 'w tstate \<Rightarrow> ('w tstate \<times> flow) outcome" where
  "exec_list h [] s = Running (s, Fall)"
| "exec_list h (x # xs) s =
     obind (exec h x s) (\<lambda>(s', fl). if fl = Fall then exec_list h xs s' else Running (s', fl))"

section \<open>Correspondence with the guest\<close>

text \<open>The guest registers that live in host registers.\<close>

definition pins :: "Emitter \<Rightarrow> u8 set" where
  "pins em = (if pinRegisters (options em) then fst ` set (registerMap em) else {})"

definition guest_reg :: "u8 set \<Rightarrow> 'w tstate \<Rightarrow> u8 \<Rightarrow> u32" where
  "guest_reg P s r = (if r \<in> P then host_reg s r else reg (ctx s) r)"

text \<open>
  The translated program is in the state of the guest machine \<open>m\<close>: the register values are spread
  over host registers and the context, the program counter is implicit in the position in the code,
  and everything else in the context is the same.
\<close>

definition represents :: "u8 set \<Rightarrow> 'w tstate \<Rightarrow> 'w machine \<Rightarrow> bool" where
  "represents P s m \<longleftrightarrow> (\<forall>r. guest_reg P s r = reg m r) \<and> reg m REG_x0 = 0 \<and> REG_x0 \<notin> P
     \<and> memory (ctx s) = memory m \<and> world (ctx s) = world m \<and> exitCallbacks (ctx s) = exitCallbacks m
     \<and> messages (ctx s) = messages m \<and> profile (ctx s) = profile m"

text \<open>What the emitter believes about registers is true, and small enough for the literals it prints.\<close>

definition tracked_ok :: "InstructionEmitter \<Rightarrow> 'w machine \<Rightarrow> bool" where
  "tracked_ok ie m \<longleftrightarrow> (\<forall>r. regKnown ie r \<and> r \<noteq> 0 \<longrightarrow> reg m r = regValues ie r
     \<and> - 2048 \<le> sint (regValues ie r) \<and> sint (regValues ie r) < 2048)"

text \<open>
  Where control goes from the instruction at \<open>a\<close> is where the guest goes; a dispatch has computed the
  index into the table, which starts with the address \<open>base\<close>.
\<close>

fun flow_ok :: "u32 \<Rightarrow> flow \<Rightarrow> u32 \<Rightarrow> 'w tstate \<Rightarrow> 'w machine \<Rightarrow> bool" where
  "flow_ok base Fall a s m \<longleftrightarrow> pc m = a + 4"
| "flow_ok base (ToLabel l) a s m \<longleftrightarrow> pc m = l"
| "flow_ok base ToLoop a s m \<longleftrightarrow> pc m = pc (ctx s)"
| "flow_ok base ToDispatch a s m \<longleftrightarrow> pc m = pc (ctx s) \<and> pcDispatchIndex s = (pc m - base) div 4"

text \<open>Operands as the decoder produces them.\<close>

definition operands_ok :: "Instruction \<Rightarrow> bool" where
  "operands_ok inst \<longleftrightarrow>
     (itype inst \<in> {I_ADDI, I_XORI, I_ORI, I_ANDI, I_SLTI, I_SLTIU, I_LB, I_LH, I_LW, I_LBU, I_LHU, I_SB, I_SH, I_SW, I_JALR} \<longrightarrow>
        - 2048 \<le> sint (immediate inst) \<and> sint (immediate inst) < 2048) \<and>
     (itype inst \<in> {I_SLLI, I_SRLI, I_SRAI} \<longrightarrow> unat (rs2 inst) = unat (immediate inst AND 0x1f))"

text \<open>
  The instructions on which generated code and the interpreter are meant to agree but do not are
  left out: a \<^verbatim>\<open>jalr\<close> that overwrites its base, the signed remainder that overflows, \<^verbatim>\<open>ebreak\<close>
  and \<^verbatim>\<open>fence\<close>, which only the interpreter reports, and an \<^verbatim>\<open>auipc\<close> whose literals are not C++ or
  whose sum is not an \<^verbatim>\<open>int\<close>, which needs an address beyond the guest memory.
\<close>

definition agreeing :: "Instruction \<Rightarrow> 'w machine \<Rightarrow> bool" where
  "agreeing inst m \<longleftrightarrow>
     (itype inst = I_JALR \<longrightarrow> rd inst \<noteq> rs1 inst) \<and>
     (itype inst = I_REM \<longrightarrow> \<not> (reg m (rs1 inst) = 0x80000000 \<and> reg m (rs2 inst) = 0xFFFFFFFF)) \<and>
     (itype inst = I_AUIPC \<longrightarrow> 0 \<le> sint (push_bit 12 (immediate inst))
        \<and> uint (address inst) + sint (push_bit 12 (immediate inst)) < 2 ^ 31) \<and>
     itype inst \<notin> {I_EBREAK, I_FENCE, I_TYPE_COUNT}"

text \<open>The statements in the output, and those an operation added to it.\<close>

definition stmts :: "InstructionEmitter \<Rightarrow> stmt list" where
  "stmts ie = map snd (emitted (emitter ie))"

definition added :: "InstructionEmitter \<Rightarrow> InstructionEmitter \<Rightarrow> stmt list" where
  "added ie ie' = drop (length (stmts ie)) (stmts ie')"

end
