(* ===== verification/Cpp_Facts.thy ===== *)
theory Cpp_Facts
  imports Cpp ISA
begin

text \<open>
  The arithmetic of generated code: what the conversions and operators of the emitted expressions
  compute, for operands that hold a 32-bit guest value as an unsigned variable, a small
  \<^verbatim>\<open>int\<close> literal or a \<^verbatim>\<open>long\<close> literal.  Each expression the translator emits for an arithmetic
  instruction has the value the interpreter computes for it.
\<close>

unbundle bit_operations_syntax

section \<open>Operands and results\<close>

text \<open>A C++ value that stands for a guest value.\<close>

definition opnd :: "cvalue \<Rightarrow> u32 \<Rightarrow> bool" where
  "opnd v x \<longleftrightarrow> snd v = uint x \<and> (fst v = C_uint \<or> fst v = C_int \<and> uint x < 2048 \<or> fst v = C_long)"

definition u32_result :: "cvalue option \<Rightarrow> u32 option" where
  "u32_result r = map_option (\<lambda>v. word_of_int (snd v)) r"

text \<open>The expressions emitted for the instructions that have one form.\<close>

definition alu_expr_of :: "EInstruction \<Rightarrow> expr \<Rightarrow> expr \<Rightarrow> expr" where
  "alu_expr_of t a b = (case t of
     I_SLL \<Rightarrow> Bin Shl a (Paren (Bin BitAnd b (Hex_lower 0x1f)))
   | I_SRL \<Rightarrow> Bin Shr a (Paren (Bin BitAnd b (Hex_lower 0x1f)))
   | I_SRA \<Rightarrow> Cast C_uint (Bin Shr (Cast C_int a) (Paren (Bin BitAnd b (Hex_lower 0x1f))))
   | I_SLT \<Rightarrow> Bin Lt (Cast C_int a) (Cast C_int b)
   | I_SLTU \<Rightarrow> Bin Lt a b
   | I_MUL \<Rightarrow> Bin BitAnd (Bin Mul (Cast C_ulong a) (Cast C_ulong b)) (Hex 0xFFFFFFFF)
   | I_MULH \<Rightarrow> Bin Shr (Paren (Bin Mul (Cast C_long (Cast C_int a)) (Cast C_long (Cast C_int b)))) (Dec 32)
   | I_MULHSU \<Rightarrow> Bin Shr (Paren (Bin Mul (Cast C_long (Cast C_int a)) (Cast C_ulong b))) (Dec 32)
   | _ \<Rightarrow> Bin Shr (Paren (Bin Mul (Cast C_ulong a) (Cast C_ulong b))) (Dec 32))"

definition alu_types :: "EInstruction set" where
  "alu_types = {I_SLL, I_SRL, I_SRA, I_SLT, I_SLTU, I_MUL, I_MULH, I_MULHSU, I_MULHU}"

definition imm_expr_of :: "EInstruction \<Rightarrow> expr \<Rightarrow> i32 \<Rightarrow> u8 \<Rightarrow> expr" where
  "imm_expr_of t a imm sh = (case t of
     I_XORI \<Rightarrow> Bin BitXor a (Dec (sint imm))
   | I_ORI \<Rightarrow> Bin BitOr a (Dec (sint imm))
   | I_ANDI \<Rightarrow> Bin BitAnd a (Dec (sint imm))
   | I_SLLI \<Rightarrow> Bin Shl a (Dec (uint sh))
   | I_SRLI \<Rightarrow> Bin Shr a (Dec (uint sh))
   | I_SRAI \<Rightarrow> Cast C_uint (Bin Shr (Cast C_int a) (Dec (uint sh)))
   | I_SLTI \<Rightarrow> Bin Lt (Cast C_int a) (Dec (sint imm))
   | _ \<Rightarrow> Bin Lt a (Dec (uint imm)))"

definition shift_imm_types :: "EInstruction set" where
  "shift_imm_types = {I_SLLI, I_SRLI, I_SRAI}"

definition logic_imm_types :: "EInstruction set" where
  "logic_imm_types = {I_XORI, I_ORI, I_ANDI, I_SLTI, I_SLTIU}"

section \<open>Conversions and operators\<close>

lemma convert_word [simp]: "word_of_int (convert t k) = (word_of_int k :: u32)"
proof (rule bit_word_eqI)
  fix n assume "n < LENGTH(32)"
  then show "bit (word_of_int (convert t k) :: u32) n = bit (word_of_int k :: u32) n"
    by (cases t; cases "n = 31") (auto simp: convert_def bit_simps min_def)
qed

lemma convert_int: "- 2147483648 \<le> k \<Longrightarrow> k < 2147483648 \<Longrightarrow> convert C_int k = k"
  by (simp add: convert_def signed_take_bit_int_eq_self)

lemma convert_long:
  "- 9223372036854775808 \<le> k \<Longrightarrow> k < 9223372036854775808 \<Longrightarrow> convert C_long k = k"
  by (simp add: convert_def signed_take_bit_int_eq_self)

lemma convert_uint: "0 \<le> k \<Longrightarrow> k < 4294967296 \<Longrightarrow> convert C_uint k = k"
  by (simp add: convert_def take_bit_int_eq_self)

lemma convert_ulong: "0 \<le> k \<Longrightarrow> k < 18446744073709551616 \<Longrightarrow> convert C_ulong k = k"
  by (simp add: convert_def take_bit_int_eq_self)

lemmas converts = convert_int convert_long convert_uint convert_ulong

lemma uint32_less: "uint (x :: u32) < 4294967296"
  using uint_bounded [of x] by simp

lemma convert_reg [simp]:
  "convert C_uint (uint x) = uint x" "convert C_long (uint x) = uint x" "convert C_ulong (uint x) = uint x"
  "uint x < 2048 \<Longrightarrow> convert C_int (uint x) = uint x"
  "convert C_long (uint x + uint y) = uint x + uint y" "convert C_long (uint x - uint y) = uint x - uint y"
  "uint x < 2048 \<Longrightarrow> uint y < 2048 \<Longrightarrow> convert C_int (uint x + uint y) = uint x + uint y"
  "uint x < 2048 \<Longrightarrow> uint y < 2048 \<Longrightarrow> convert C_int (uint x - uint y) = uint x - uint y" for x y :: u32
  by (rule converts; use uint32_less [of x] uint_ge_0 [of x] uint32_less [of y] uint_ge_0 [of y] in linarith)+

lemma opndE:
  assumes "opnd v x"
  obtains "v = (C_uint, uint x)" | "v = (C_int, uint x)" "uint x < 2048" | "v = (C_long, uint x)"
  using assms by (cases v) (auto simp: opnd_def)

lemma and_word: "word_of_int (a AND b) = (word_of_int a AND word_of_int b :: u32)"
  "word_of_int (a OR b) = (word_of_int a OR word_of_int b :: u32)"
  "word_of_int (a XOR b) = (word_of_int a XOR word_of_int b :: u32)"
  by (rule bit_word_eqI; simp add: bit_simps)+

lemmas bin_simps = apply_bin_def common_def u32_result_def arith_def

lemma bin_add: assumes "opnd v x" "opnd w y" shows "u32_result (apply_bin Add v w) = Some (x + y)"
  by (rule opndE [OF assms(1)]; rule opndE [OF assms(2)]) (simp_all add: bin_simps)

lemma bin_sub: assumes "opnd v x" "opnd w y" shows "u32_result (apply_bin Sub v w) = Some (x - y)"
  by (rule opndE [OF assms(1)]; rule opndE [OF assms(2)]) (simp_all add: bin_simps)

lemma bin_bits: assumes "opnd v x" "opnd w y"
  shows "u32_result (apply_bin BitAnd v w) = Some (x AND y)" "u32_result (apply_bin BitOr v w) = Some (x OR y)"
    "u32_result (apply_bin BitXor v w) = Some (x XOR y)"
  subgoal by (rule opndE [OF assms(1)]; rule opndE [OF assms(2)]) (simp_all add: bin_simps and_word)
  subgoal by (rule opndE [OF assms(1)]; rule opndE [OF assms(2)]) (simp_all add: bin_simps and_word)
  subgoal by (rule opndE [OF assms(1)]; rule opndE [OF assms(2)]) (simp_all add: bin_simps and_word)
  done

lemma bin_compare: assumes "opnd v x" "opnd w y"
  shows "apply_bin Lt v w = truth (x < y)" "apply_bin Ge v w = truth (y \<le> x)"
    "apply_bin Eq v w = truth (x = y)" "apply_bin Ne v w = truth (x \<noteq> y)"
  subgoal by (rule opndE [OF assms(1)]; rule opndE [OF assms(2)]) (simp_all add: bin_simps word_less_def)
  subgoal by (rule opndE [OF assms(1)]; rule opndE [OF assms(2)]) (simp_all add: bin_simps word_le_def)
  subgoal by (rule opndE [OF assms(1)]; rule opndE [OF assms(2)]) (simp_all add: bin_simps flip: word_uint_eq_iff)
  subgoal by (rule opndE [OF assms(1)]; rule opndE [OF assms(2)]) (simp_all add: bin_simps flip: word_uint_eq_iff)
  done

lemma convert_imm:
  fixes x :: u32
  assumes "- 2048 \<le> k" "k \<le> 2048"
  shows "convert C_int k = k" "convert C_long k = k"
    "convert C_long (uint x + k) = uint x + k" "convert C_long (uint x - k) = uint x - k"
    "convert C_long (k + uint x) = k + uint x"
    "uint x < 2048 \<Longrightarrow> convert C_int (uint x + k) = uint x + k"
    "uint x < 2048 \<Longrightarrow> convert C_int (uint x - k) = uint x - k"
    "uint x < 2048 \<Longrightarrow> convert C_int (k + uint x) = k + uint x"
  by (rule converts; use uint32_less [of x] uint_ge_0 [of x] assms in linarith)+

lemma bin_imm: assumes "opnd v x" "- 2048 \<le> k" "k \<le> 2048"
  shows "u32_result (apply_bin Add v (C_int, k)) = Some (x + word_of_int k)"
    "u32_result (apply_bin Add (C_int, k) v) = Some (word_of_int k + x)"
    "u32_result (apply_bin Sub v (C_int, k)) = Some (x - word_of_int k)"
    "u32_result (apply_bin BitAnd v (C_int, k)) = Some (x AND word_of_int k)"
    "u32_result (apply_bin BitOr v (C_int, k)) = Some (x OR word_of_int k)"
    "u32_result (apply_bin BitXor v (C_int, k)) = Some (x XOR word_of_int k)"
  subgoal by (rule opndE [OF assms(1)]) (simp_all add: bin_simps convert_imm assms)
  subgoal by (rule opndE [OF assms(1)]) (simp_all add: bin_simps convert_imm assms)
  subgoal by (rule opndE [OF assms(1)]) (simp_all add: bin_simps convert_imm assms)
  subgoal by (rule opndE [OF assms(1)]) (simp_all add: bin_simps convert_imm assms and_word)
  subgoal by (rule opndE [OF assms(1)]) (simp_all add: bin_simps convert_imm assms and_word)
  subgoal by (rule opndE [OF assms(1)]) (simp_all add: bin_simps convert_imm assms and_word)
  done

lemma shift_mask: assumes "opnd w y"
  shows "\<exists>t. apply_bin BitAnd w (C_int, 31) = Some (t, uint (y AND 0x1f))"
proof -
  have *: "uint y AND 31 = uint (y AND 0x1f)" by (simp add: unsigned_and_eq)
  have l: "uint (y AND 0x1f) < 2048"
    using word_and_le1 [of y "0x1f"] by (simp add: word_le_def)
  have c: "convert t 31 = 31" for t by (cases t) (simp_all add: converts)
  show ?thesis
    by (rule opndE [OF assms]) (simp_all add: bin_simps c l *)
qed

lemma shift_mask_less: "uint (y AND 0x1f) < 32" for y :: u32
  using word_and_le1 [of y "0x1f"] by (simp add: word_le_def)

lemma bin_shift:
  assumes "opnd v x" "0 \<le> n" "n < 32"
  shows "u32_result (apply_bin Shl v (t, n)) = Some (push_bit (nat n) x)"
    "u32_result (apply_bin Shr v (t, n)) = Some (drop_bit (nat n) x)"
  subgoal by (rule opndE [OF assms(1)]) (use assms(2,3) in \<open>simp_all add: bin_simps sll_value\<close>)
  subgoal by (rule opndE [OF assms(1)]) (use assms(2,3) in \<open>simp_all add: bin_simps srl_value\<close>)
  done

lemma convert_int_uint: "convert C_int (uint x) = sint x" for x :: u32
  by (simp add: convert_def sint_uint)

lemma convert_sint [simp]: "convert C_int (sint x) = sint x" "convert C_long (sint x) = sint x" for x :: u32
proof -
  have b: "- 2147483648 \<le> sint x" "sint x < 2147483648" using sint_greater_eq [of x] sint_less [of x] by simp_all
  then show "convert C_int (sint x) = sint x" by (rule convert_int)
  show "convert C_long (sint x) = sint x" by (rule convert_long) (use b in linarith)+
qed

lemma bin_sra:
  assumes "0 \<le> n" "n < 32"
  shows "u32_result (apply_bin Shr (C_int, sint x) (t, n)) = Some (cpp_sra x (nat n))"
  using assms by (simp add: bin_simps sra_value)

lemma bin_slt: "apply_bin Lt (C_int, sint x) (C_int, sint y) = truth (sint x < sint y)"
  "apply_bin Ge (C_int, sint x) (C_int, sint y) = truth (sint y \<le> sint x)" for x y :: u32
  by (simp_all add: bin_simps)

lemma bin_slti: "- 2048 \<le> k \<Longrightarrow> k < 2048 \<Longrightarrow> apply_bin Lt (C_int, sint x) (C_int, k) = truth (sint x < k)" for x :: u32
  by (simp add: bin_simps convert_imm)

lemma sint32_bounds: "- 2147483648 \<le> sint x" "sint x < 2147483648" for x :: u32
  using sint_greater_eq [of x] sint_less [of x] by simp_all

lemma convert_ulong_word: "convert C_ulong k = uint (word_of_int k :: u64)"
  by (simp add: convert_def uint_word_of_int take_bit_eq_mod)

lemma bin_mul: "u32_result (case apply_bin Mul (C_ulong, uint x) (C_ulong, uint y) of None \<Rightarrow> None
      | Some v \<Rightarrow> apply_bin BitAnd v (C_uint, 0xFFFFFFFF)) = Some (cpp_mul x y)" for x y :: u32
proof -
  have "(0xFFFFFFFF :: u32) = - 1" by simp
  then have "word_of_int (k AND 0xFFFFFFFF) = (word_of_int k :: u32)" for k
    by (simp only: and_word of_int_numeral) simp
  moreover have "convert C_ulong 0xFFFFFFFF = 0xFFFFFFFF" by (rule convert_ulong) simp_all
  ultimately show ?thesis by (simp add: bin_simps mul_values)
qed

lemma bin_mulhu: "u32_result (case apply_bin Mul (C_ulong, uint x) (C_ulong, uint y) of None \<Rightarrow> None
      | Some v \<Rightarrow> apply_bin Shr v (C_int, 32)) = Some (cpp_mulhu x y)" for x y :: u32
proof -
  have "uint x * uint y < 4294967296 * 4294967296"
    by (rule mult_strict_mono) (use uint32_less [of x] uint32_less [of y] in simp_all)
  then have "convert C_ulong (uint x * uint y) = uint x * uint y"
    by (intro convert_ulong) simp_all
  then show ?thesis by (simp add: bin_simps mul_values)
qed

lemma bin_mulh: "u32_result (case apply_bin Mul (C_long, sint x) (C_long, sint y) of None \<Rightarrow> None
      | Some v \<Rightarrow> apply_bin Shr v (C_int, 32)) = Some (cpp_mulh x y)" for x y :: u32
proof -
  have "\<bar>sint x\<bar> * \<bar>sint y\<bar> \<le> 2147483648 * 2147483648"
    by (rule mult_mono) (use sint32_bounds [of x] sint32_bounds [of y] in auto)
  then have "\<bar>sint x * sint y\<bar> \<le> 4611686018427387904" by (simp add: abs_mult)
  then have "convert C_long (sint x * sint y) = sint x * sint y"
    by (intro convert_long) linarith+
  then show ?thesis by (simp add: bin_simps mul_values)
qed

lemma uint_high_half: "uint (drop_bit 32 w) = uint w div 4294967296" for w :: u64
  using take_bit_int_eq_self [of "uint w" 64] uint_bounded [of w]
  unfolding unsigned_drop_bit_eq by (simp add: drop_bit_eq_div)

lemma bin_mulhsu: "u32_result (case apply_bin Mul (C_long, sint x) (C_ulong, uint y) of None \<Rightarrow> None
      | Some v \<Rightarrow> apply_bin Shr v (C_int, 32)) = Some (cpp_mulhsu x y)" for x y :: u32
proof -
  have *: "convert C_ulong (convert C_ulong (sint x) * uint y) = uint ((scast x :: u64) * ucast y)"
    unfolding convert_ulong_word by simp
  have "cpp_mulhsu x y = word_of_int (uint (drop_bit 32 ((scast x :: u64) * ucast y)))"
    unfolding cpp_mulhsu_def by (rule ucast_eq)
  then show ?thesis
    unfolding uint_high_half by (simp add: bin_simps *)
qed

lemma sdiv_bounds:
  fixes x y :: u32
  assumes "y \<noteq> 0" "\<not> (x = 0x80000000 \<and> y = 0xFFFFFFFF)"
  shows "- 2147483648 \<le> sint x sdiv sint y" "sint x sdiv sint y < 2147483648"
proof -
  have range: "- \<bar>sint x\<bar> \<le> sint x sdiv sint y" "sint x sdiv sint y \<le> \<bar>sint x\<bar>"
    using sdiv_int_range [of "sint x" "sint y"] by simp_all
  then show "- 2147483648 \<le> sint x sdiv sint y" using sint32_bounds [of x] by linarith
  show "sint x sdiv sint y < 2147483648"
  proof (cases "sint x = - 2147483648")
    case False
    then show ?thesis using range(2) sint32_bounds [of x] by linarith
  next
    case True
    then have "x = word_of_int (- 2147483648)" by (metis word_of_int_sint)
    then have "x = 0x80000000" by simp
    with assms(2) have "y \<noteq> 0xFFFFFFFF" by simp
    have "sint y \<noteq> - 1"
    proof
      assume "sint y = - 1"
      then have "y = word_of_int (- 1)" by (metis word_of_int_sint)
      with \<open>y \<noteq> 0xFFFFFFFF\<close> show False by simp
    qed
    then have "0 \<le> sint y \<or> 2 \<le> \<bar>sint y\<bar>" by linarith
    moreover have "(2147483648 :: int) div (- sint y) < 2147483648" if "2 \<le> - sint y"
      using zdiv_mono2 [of 2147483648 2 "- sint y"] that by simp
    moreover have "0 \<le> (2147483648 :: int) div \<bar>sint y\<bar>" by (simp add: pos_imp_zdiv_nonneg_iff div_int_pos_iff)
    ultimately show ?thesis
      unfolding signed_divide_int_def True by (auto simp: sgn_if)
  qed
qed

lemma bin_div: 
  fixes x y :: u32
  assumes "y \<noteq> 0" "\<not> (x = 0x80000000 \<and> y = 0xFFFFFFFF)"
  shows "u32_result (apply_bin Div (C_int, sint x) (C_int, sint y)) = Some (cpp_sdiv x y)"
    "u32_result (apply_bin Mod (C_int, sint x) (C_int, sint y)) = Some (cpp_srem x y)"
proof -
  have nz: "sint y \<noteq> 0"
  proof
    assume "sint y = 0"
    then have "y = word_of_int 0" by (metis word_of_int_sint)
    with assms(1) show False by simp
  qed
  have q: "convert C_int (sint x sdiv sint y) = sint x sdiv sint y"
    by (rule convert_int) (rule sdiv_bounds [OF assms])+
  have "convert C_int (sint x smod sint y) = sint x smod sint y"
    by (rule convert_int) (use smod_int_range [OF nz, of "sint x"] sint32_bounds [of y] in auto)
  with q nz show "u32_result (apply_bin Div (C_int, sint x) (C_int, sint y)) = Some (cpp_sdiv x y)"
    "u32_result (apply_bin Mod (C_int, sint x) (C_int, sint y)) = Some (cpp_srem x y)"
    by (simp_all add: bin_simps cpp_sdiv_def cpp_srem_def)
qed

lemma bin_divu: 
  assumes "opnd v x" "opnd w y" "y \<noteq> 0"
  shows "u32_result (apply_bin Div v w) = Some (x div y)" "u32_result (apply_bin Mod v w) = Some (x mod y)"
proof -
  have pos: "0 < uint y" using assms(3) by (simp add: word_neq_0_conv word_less_def)
  have le: "uint x div uint y \<le> uint x" "uint x mod uint y \<le> uint x" "0 \<le> uint x div uint y" "0 \<le> uint x mod uint y"
    using pos zdiv_mono2 [of "uint x" 1 "uint y"] by (simp_all add: zmod_le_nonneg_dividend pos_imp_zdiv_nonneg_iff)
  have s: "uint x sdiv uint y = uint x div uint y" "uint x smod uint y = uint x mod uint y"
    using pos uint_ge_0 [of x] by (auto simp: signed_divide_int_eq_divide_int smod_mod_positive)
  have c: "convert C_uint (uint x div uint y) = uint x div uint y" "convert C_long (uint x div uint y) = uint x div uint y"
    "convert C_uint (uint x mod uint y) = uint x mod uint y" "convert C_long (uint x mod uint y) = uint x mod uint y"
    "uint x < 2048 \<Longrightarrow> convert C_int (uint x div uint y) = uint x div uint y"
    "uint x < 2048 \<Longrightarrow> convert C_int (uint x mod uint y) = uint x mod uint y"
    by (rule converts; use uint32_less [of x] le in linarith)+
  have w: "word_of_int (uint x div uint y) = x div y" "word_of_int (uint x mod uint y) = x mod y"
    by (simp_all add: word_div_def word_mod_def)
  show "u32_result (apply_bin Div v w) = Some (x div y)"
    by (rule opndE [OF assms(1)]; rule opndE [OF assms(2)]) (use pos in \<open>simp_all add: bin_simps s c w\<close>)
  show "u32_result (apply_bin Mod v w) = Some (x mod y)"
    by (rule opndE [OF assms(1)]; rule opndE [OF assms(2)]) (use pos in \<open>simp_all add: bin_simps s c w\<close>)
qed

section \<open>Expressions\<close>

lemma dec_zero: "decimal_literal 0 = Some (C_int, 0)"
  by (simp add: decimal_literal_def)

lemma dec_imm: "- 2048 \<le> k \<Longrightarrow> k \<le> 2048 \<Longrightarrow> decimal_literal k = Some (C_int, k)"
  by (auto simp: decimal_literal_def arith_def convert_imm)

lemma dec_tracked:
  fixes w :: u32
  assumes "- 2048 \<le> sint w" "sint w < 2048"
  shows "\<exists>v. decimal_literal (uint w) = Some v \<and> opnd v w"
proof (cases "uint w < 2147483648")
  case True
  then have "uint w = sint w" using sint_cases [of w] by simp
  with True assms have "opnd (C_int, uint w) w" by (simp add: opnd_def)
  with True show ?thesis by (simp add: decimal_literal_def)
next
  case False
  then show ?thesis by (simp add: decimal_literal_def opnd_def)
qed

lemma opnd_reg [simp]: "opnd (C_uint, uint x) x"
  by (simp add: opnd_def)

lemma opnd_zero: "opnd (C_int, 0) 0" and opnd_hex: "opnd (hex_literal w) w \<or> uint w < 2147483648"
  by (simp_all add: opnd_def hex_literal_def)

lemma eval_u32_bin:
  "eval s ea = Some va \<Longrightarrow> eval s eb = Some vb \<Longrightarrow> f \<noteq> And \<Longrightarrow> eval_u32 s (Bin f ea eb) = u32_result (apply_bin f va vb)"
  by (simp add: eval_u32_def u32_result_def)

lemma eval_u32_neg:
  assumes "eval s e = Some v" "opnd v x"
  shows "eval_u32 s (Neg e) = Some (- x)"
proof -
  have "convert C_long (- uint x) = - uint x" "uint x < 2048 \<Longrightarrow> convert C_int (- uint x) = - uint x"
    by (rule converts; use uint32_less [of x] uint_ge_0 [of x] in linarith)+
  with assms(1) show ?thesis
    by (cases rule: opndE [OF assms(2)]) (simp_all add: eval_u32_def arith_def)
qed

lemma eval_u32_cast [simp]: "eval_u32 s (Cast C_uint e) = eval_u32 s e"
  by (simp add: eval_u32_def option.map_comp comp_def)

lemma eval_u32_opnd: "eval s e = Some v \<Longrightarrow> opnd v x \<Longrightarrow> eval_u32 s e = Some x"
  by (simp add: eval_u32_def opnd_def)

lemma eval_literals [simp]:
  "eval_u32 s (Hex w) = Some w" "eval_u32 s (Dec (- 1)) = Some (- 1)" "eval_u32 s (Dec 0) = Some 0"
  by (simp_all add: eval_u32_def hex_literal_def decimal_literal_def arith_def converts)

lemma u32_result_truth [simp]: "u32_result (truth b) = Some (bool_u32 b)"
  by (simp add: u32_result_def truth_def bool_u32_def)

lemma hex_31: "hex_literal 0x1f = (C_int, 31)"
  by (simp add: hex_literal_def)

lemma eval_shift_amount:
  assumes "eval s e = Some w" "opnd w y"
  obtains t where "eval s (Paren (Bin BitAnd e (Hex_lower 0x1f))) = Some (t, uint (y AND 0x1f))"
  using assms shift_mask [OF assms(2)] by (auto simp: hex_31)

lemma eval_int:
  assumes "eval s e = Some v" "opnd v x"
  shows "eval s (Cast C_int e) = Some (C_int, sint x)"
  using assms by (cases v) (auto simp: opnd_def convert_int_uint)

lemma eval_long:
  assumes "eval s e = Some v" "opnd v x"
  shows "eval s (Cast C_long (Cast C_int e)) = Some (C_long, sint x)" "eval s (Cast C_ulong e) = Some (C_ulong, uint x)"
  using assms by (cases v; auto simp: opnd_def convert_int_uint)+

lemma eval_u32_shift:
  assumes "eval s ea = Some v" "opnd v x" "eval s eb = Some (t, n)" "0 \<le> n" "n < 32"
  shows "eval_u32 s (Bin Shl ea eb) = Some (push_bit (nat n) x)"
    "eval_u32 s (Bin Shr ea eb) = Some (drop_bit (nat n) x)"
    "eval_u32 s (Cast C_uint (Bin Shr (Cast C_int ea) eb)) = Some (cpp_sra x (nat n))"
proof -
  show "eval_u32 s (Bin Shl ea eb) = Some (push_bit (nat n) x)" "eval_u32 s (Bin Shr ea eb) = Some (drop_bit (nat n) x)"
    using eval_u32_bin [OF assms(1,3)] bin_shift [OF assms(2,4,5)] by simp_all
  have "eval_u32 s (Bin Shr (Cast C_int ea) eb) = Some (cpp_sra x (nat n))"
    using eval_u32_bin [OF eval_int [OF assms(1,2)] assms(3), of Shr] bin_sra [OF assms(4,5)] by simp
  then show "eval_u32 s (Cast C_uint (Bin Shr (Cast C_int ea) eb)) = Some (cpp_sra x (nat n))"
    by (auto simp: eval_u32_def simp del: eval.simps(12))
qed

lemma nat_uint_mask: "nat (uint (y AND 0x1f)) = unat (y AND 0x1f)" for y :: u32
  by simp

lemma alu_expr:
  assumes "eval s ea = Some va" "opnd va x" "eval s eb = Some vb" "opnd vb y"
  shows "eval_u32 s (Bin Shl ea (Paren (Bin BitAnd eb (Hex_lower 0x1f)))) = Some (push_bit (unat (y AND 0x1f)) x)"
    "eval_u32 s (Bin Shr ea (Paren (Bin BitAnd eb (Hex_lower 0x1f)))) = Some (drop_bit (unat (y AND 0x1f)) x)"
    "eval_u32 s (Cast C_uint (Bin Shr (Cast C_int ea) (Paren (Bin BitAnd eb (Hex_lower 0x1f))))) = Some (cpp_sra x (unat (y AND 0x1f)))"
    "eval_u32 s (Bin Lt (Cast C_int ea) (Cast C_int eb)) = Some (bool_u32 (cpp_slt x y))"
    "eval_u32 s (Bin Lt ea eb) = Some (bool_u32 (x < y))"
proof -
  obtain t where "eval s (Paren (Bin BitAnd eb (Hex_lower 0x1f))) = Some (t, uint (y AND 0x1f))"
    using eval_shift_amount [OF assms(3,4)] by blast
  note e = eval_u32_shift [OF assms(1,2) this _ shift_mask_less, unfolded nat_uint_mask, simplified]
  show "eval_u32 s (Bin Shl ea (Paren (Bin BitAnd eb (Hex_lower 0x1f)))) = Some (push_bit (unat (y AND 0x1f)) x)"
    "eval_u32 s (Bin Shr ea (Paren (Bin BitAnd eb (Hex_lower 0x1f)))) = Some (drop_bit (unat (y AND 0x1f)) x)"
    "eval_u32 s (Cast C_uint (Bin Shr (Cast C_int ea) (Paren (Bin BitAnd eb (Hex_lower 0x1f))))) = Some (cpp_sra x (unat (y AND 0x1f)))"
    by (simp_all only: e eval_u32_cast)
  show "eval_u32 s (Bin Lt (Cast C_int ea) (Cast C_int eb)) = Some (bool_u32 (cpp_slt x y))"
    using eval_u32_bin [OF eval_int [OF assms(1,2)] eval_int [OF assms(3,4)], of Lt] by (simp add: bin_slt cpp_slt_def)
  show "eval_u32 s (Bin Lt ea eb) = Some (bool_u32 (x < y))"
    using eval_u32_bin [OF assms(1,3), of Lt] by (simp add: bin_compare [OF assms(2,4)])
qed

lemma mul_expr:
  assumes "eval s ea = Some va" "opnd va x" "eval s eb = Some vb" "opnd vb y"
  shows "eval_u32 s (Bin BitAnd (Bin Mul (Cast C_ulong ea) (Cast C_ulong eb)) (Hex 0xFFFFFFFF)) = Some (cpp_mul x y)"
    "eval_u32 s (Bin Shr (Paren (Bin Mul (Cast C_long (Cast C_int ea)) (Cast C_long (Cast C_int eb)))) (Dec 32)) = Some (cpp_mulh x y)"
    "eval_u32 s (Bin Shr (Paren (Bin Mul (Cast C_long (Cast C_int ea)) (Cast C_ulong eb))) (Dec 32)) = Some (cpp_mulhsu x y)"
    "eval_u32 s (Bin Shr (Paren (Bin Mul (Cast C_ulong ea) (Cast C_ulong eb))) (Dec 32)) = Some (cpp_mulhu x y)"
proof -
  note a = eval_long [OF assms(1,2)] and b = eval_long [OF assms(3,4)]
  have lit: "eval s (Hex 0xFFFFFFFF) = Some (C_uint, 0xFFFFFFFF)" "eval s (Dec 32) = Some (C_int, 32)"
    by (simp_all add: hex_literal_def decimal_literal_def)
  have *: "eval_u32 s (Bin f (Bin Mul e e') l) = u32_result (case apply_bin Mul v w of None \<Rightarrow> None | Some u \<Rightarrow> apply_bin f u k)"
    if "eval s e = Some v" "eval s e' = Some w" "eval s l = Some k" "f \<noteq> And" for e e' v w l k f
    using that by (simp add: eval_u32_def u32_result_def split: option.splits)
  have paren: "eval_u32 s (Bin f (Paren e) l) = eval_u32 s (Bin f e l)" for e l f by (simp add: eval_u32_def)
  show "eval_u32 s (Bin BitAnd (Bin Mul (Cast C_ulong ea) (Cast C_ulong eb)) (Hex 0xFFFFFFFF)) = Some (cpp_mul x y)"
    using * [OF a(2) b(2) lit(1), of BitAnd] bin_mul [of x y] by simp
  show "eval_u32 s (Bin Shr (Paren (Bin Mul (Cast C_long (Cast C_int ea)) (Cast C_long (Cast C_int eb)))) (Dec 32)) = Some (cpp_mulh x y)"
    using * [OF a(1) b(1) lit(2), of Shr] bin_mulh [of x y] paren by simp
  show "eval_u32 s (Bin Shr (Paren (Bin Mul (Cast C_long (Cast C_int ea)) (Cast C_ulong eb))) (Dec 32)) = Some (cpp_mulhsu x y)"
    using * [OF a(1) b(2) lit(2), of Shr] bin_mulhsu [of x y] paren by simp
  show "eval_u32 s (Bin Shr (Paren (Bin Mul (Cast C_ulong ea) (Cast C_ulong eb))) (Dec 32)) = Some (cpp_mulhu x y)"
    using * [OF a(2) b(2) lit(2), of Shr] bin_mulhu [of x y] paren by simp
qed

lemma eval_cond_compare:
  assumes "eval s ea = Some va" "opnd va x" "eval s eb = Some vb" "opnd vb y"
  shows "eval_cond s (Bin Eq ea eb) = Some (x = y)" "eval_cond s (Bin Ne ea eb) = Some (x \<noteq> y)"
    "eval_cond s (Bin Lt ea eb) = Some (x < y)" "eval_cond s (Bin Ge ea eb) = Some (y \<le> x)"
    "eval_cond s (Bin Lt (Cast C_int ea) (Cast C_int eb)) = Some (cpp_slt x y)"
    "eval_cond s (Bin Ge (Cast C_int ea) (Cast C_int eb)) = Some (\<not> cpp_slt x y)"
  using assms(1,3) bin_compare [OF assms(2,4)] eval_int [OF assms(1,2)] eval_int [OF assms(3,4)] bin_slt [of x y]
  by (simp_all add: eval_cond_def truth_def cpp_slt_def not_less del: eval.simps(9))

lemma eval_cond_zero:
  assumes "eval s e = Some v" "opnd v x"
  shows "eval_cond s (Bin Eq e (Dec 0)) = Some (x = 0)"
  using eval_cond_compare(1) [OF assms _ opnd_zero, of "Dec 0"] dec_zero by simp

lemma eval_cond_overflow:
  assumes "eval s ea = Some va" "opnd va x" "eval s eb = Some vb" "opnd vb y"
  shows "eval_cond s (Bin And (Bin Eq ea (Hex 0x80000000)) (Bin Eq eb (Hex 0xFFFFFFFF)))
    = Some (x = 0x80000000 \<and> y = 0xFFFFFFFF)"
proof -
  have h: "opnd (hex_literal 0x80000000) 0x80000000" "opnd (hex_literal 0xFFFFFFFF) 0xFFFFFFFF"
    by (simp_all add: opnd_def hex_literal_def)
  have e: "eval s (Bin Eq ea (Hex 0x80000000)) = truth (x = 0x80000000)"
    "eval s (Bin Eq eb (Hex 0xFFFFFFFF)) = truth (y = 0xFFFFFFFF)"
    using assms(1,3) bin_compare(3) [OF assms(2) h(1)] bin_compare(3) [OF assms(4) h(2)] by simp_all
  have "eval s (Bin And p q) = truth (P \<and> Q)" if "eval s p = truth P" "eval s q = truth Q" for p q P Q
    using that by (simp add: truth_def apply_bin_def)
  from this [OF e] show ?thesis by (simp add: eval_cond_def truth_def)
qed

lemma eval_div:
  assumes "eval s ea = Some va" "opnd va x" "eval s eb = Some vb" "opnd vb y" "y \<noteq> 0"
  shows "\<not> (x = 0x80000000 \<and> y = 0xFFFFFFFF) \<Longrightarrow> eval_u32 s (Bin Div (Cast C_int ea) (Cast C_int eb)) = Some (cpp_sdiv x y)"
    "\<not> (x = 0x80000000 \<and> y = 0xFFFFFFFF) \<Longrightarrow> eval_u32 s (Bin Mod (Cast C_int ea) (Cast C_int eb)) = Some (cpp_srem x y)"
    "eval_u32 s (Bin Div ea eb) = Some (x div y)" "eval_u32 s (Bin Mod ea eb) = Some (x mod y)"
  using eval_u32_bin [OF eval_int [OF assms(1,2)] eval_int [OF assms(3,4)]] eval_u32_bin [OF assms(1,3)]
    bin_div [OF assms(5)] bin_divu [OF assms(2,4,5)] by simp_all

lemma eval_u32_imm:
  assumes "eval s e = Some v" "opnd v x" "- 2048 \<le> k" "k \<le> 2048"
  shows "eval_u32 s (Bin Add e (Dec k)) = Some (x + word_of_int k)"
    "eval_u32 s (Bin Add (Dec k) e) = Some (word_of_int k + x)"
    "eval_u32 s (Bin Sub e (Dec k)) = Some (x - word_of_int k)"
    "eval_u32 s (Bin BitAnd e (Dec k)) = Some (x AND word_of_int k)"
    "eval_u32 s (Bin BitOr e (Dec k)) = Some (x OR word_of_int k)"
    "eval_u32 s (Bin BitXor e (Dec k)) = Some (x XOR word_of_int k)"
    "eval_u32 s (Dec k) = Some (word_of_int k)"
proof -
  have k: "eval s (Dec k) = Some (C_int, k)" using assms by (simp add: dec_imm)
  show "eval_u32 s (Bin Add e (Dec k)) = Some (x + word_of_int k)"
    "eval_u32 s (Bin Add (Dec k) e) = Some (word_of_int k + x)"
    "eval_u32 s (Bin Sub e (Dec k)) = Some (x - word_of_int k)"
    "eval_u32 s (Bin BitAnd e (Dec k)) = Some (x AND word_of_int k)"
    "eval_u32 s (Bin BitOr e (Dec k)) = Some (x OR word_of_int k)"
    "eval_u32 s (Bin BitXor e (Dec k)) = Some (x XOR word_of_int k)"
    using eval_u32_bin [OF assms(1) k] eval_u32_bin [OF k assms(1)] bin_imm [OF assms(2-4)] by simp_all
  show "eval_u32 s (Dec k) = Some (word_of_int k)" using k by (simp add: eval_u32_def)
qed

lemma shift_imm_expr:
  assumes a: "eval s ea = Some v" "opnd v x" and t: "t \<in> shift_imm_types"
    and sh: "unat sh = unat (imm AND 0x1f)"
  shows "eval_u32 s (imm_expr_of t ea imm sh) = Some (alu_cpp (the (imm_base t)) x imm)"
proof -
  have "unat (imm AND 0x1f) < 32"
    unfolding nat_uint_eq [symmetric] using shift_mask_less [of imm] by linarith
  with sh have "uint sh < 32" unfolding uint_nat by linarith
  then have lit: "eval s (Dec (uint sh)) = Some (C_int, uint sh)" "uint sh < 32"
    by (simp_all add: decimal_literal_def)
  note e = eval_u32_shift [OF a lit(1) _ lit(2), unfolded nat_uint_eq, simplified]
  show ?thesis
    using t e sh unfolding shift_imm_types_def
    by (elim insertE emptyE) (simp_all add: imm_expr_of_def alu_cpp_def imm_base_def)
qed

lemma logic_imm_expr:
  assumes a: "eval s ea = Some v" "opnd v x" and t: "t \<in> logic_imm_types"
    and i: "- 2048 \<le> sint imm" "sint imm < 2048"
  shows "eval_u32 s (imm_expr_of t ea imm sh) = Some (alu_cpp (the (imm_base t)) x imm)"
proof -
  note e = eval_u32_imm [OF a i(1) order.strict_implies_order [OF i(2)]]
  have slti: "eval_u32 s (Bin Lt (Cast C_int ea) (Dec (sint imm))) = Some (bool_u32 (cpp_slt x imm))"
    using eval_u32_bin [OF eval_int [OF a], of "Dec (sint imm)" "(C_int, sint imm)" Lt] i
    by (simp add: dec_imm bin_slti cpp_slt_def)
  obtain w where w: "eval s (Dec (uint imm)) = Some w" "opnd w imm"
    using dec_tracked [OF i] by auto
  show ?thesis
    using t e slti alu_expr(5) [OF a w] unfolding logic_imm_types_def
    by (elim insertE emptyE) (simp_all add: imm_expr_of_def alu_cpp_def imm_base_def)
qed

lemma eval_Dec_sint: "eval_u32 s (Dec (sint w)) = Some w" for w :: u32
proof (cases "sint w = - 2147483648")
  case True
  then have "decimal_literal (sint w) = Some (C_long, sint w)"
    by (simp add: decimal_literal_def arith_def converts)
  then show ?thesis by (simp add: eval_u32_def)
next
  case False
  then have "decimal_literal (sint w) = Some (C_int, sint w)"
    using sint32_bounds [of w] by (auto simp: decimal_literal_def arith_def)
  then show ?thesis by (simp add: eval_u32_def)
qed

lemma eval_auipc:
  fixes a w :: u32
  assumes "0 \<le> sint w" "uint a + sint w < 2147483648"
  shows "eval_u32 s (Bin Add (Hex a) (Hex_int w)) = Some (a + w)"
proof -
  have w: "uint w = sint w" using assms sint_cases [of w] uint32_less [of w] by (auto split: if_splits)
  have c: "convert C_int (uint a) = uint a" "convert C_int (uint a + sint w) = uint a + sint w"
    by (rule convert_int; use assms uint_ge_0 [of a] in linarith)+
  have "eval s (Bin Add (Hex a) (Hex_int w)) = Some (C_int, uint a + sint w)"
    using assms w c uint_ge_0 [of a] sint32_bounds [of w] by (auto simp: hex_literal_def bin_simps)
  then show ?thesis by (simp add: eval_u32_def)
qed

end
