(* ===== verification/Translation.thy ===== *)
theory Translation
  imports Translated Cpp_Facts
begin

text \<open>
  Correctness of the translation of single instructions: the statements that \<^verbatim>\<open>emitInstruction\<close>
  emits, run from a state that represents the guest, reach a state that represents the guest after
  the instruction, with control where the guest's program counter is; what the emitter knows about
  registers stays true.
\<close>

unbundle bit_operations_syntax

section \<open>Definitions\<close>

text \<open>The guest after an instruction that sets \<open>d\<close> and goes on.\<close>

definition next_reg :: "u8 \<Rightarrow> u32 \<Rightarrow> 'w machine \<Rightarrow> 'w machine" where
  "next_reg d v m = m\<lparr>pc := pc m + 4, reg := (reg m)(d := v, REG_x0 := 0)\<rparr>"

text \<open>The state before an instruction.\<close>

definition ready :: "InstructionEmitter \<Rightarrow> Instruction \<Rightarrow> 'w tstate \<Rightarrow> 'w machine \<Rightarrow> bool" where
  "ready ie inst s m \<longleftrightarrow> represents (pins (emitter ie)) s m \<and> tracked_ok ie m \<and> current ie = Some inst
     \<and> profile m = None \<and> pc m = address inst"

text \<open>A load into \<^verbatim>\<open>x0\<close>: it is not emitted, so that only the interpreter accesses memory for it.\<close>

definition discarded_load :: "Instruction \<Rightarrow> bool" where
  "discarded_load inst \<longleftrightarrow> rd inst = 0 \<and> (is_load (itype inst) \<or> itype inst = I_LR_W)"

text \<open>
  Running the statements emitted for an instruction does what the interpreter does with it; where the interpreter
  faults in a discarded load, generated code goes on with the next instruction instead.
\<close>

definition simulates :: "'w host \<Rightarrow> Instruction \<Rightarrow> InstructionEmitter \<Rightarrow> 'w tstate \<Rightarrow> 'w machine \<Rightarrow> bool" where
  "simulates h inst ie s m \<longleftrightarrow>
     (let run = exec_list h (added ie (emit_arms inst ie)) s in
      case runInstructionPredecoded h m inst of
        Running m' \<Rightarrow> (\<exists>s' fl. run = Running (s', fl) \<and> represents (pins (emitter ie)) s' m'
          \<and> tracked_ok (emit_arms inst ie) m' \<and> flow_ok (textStartAddress ie) fl (address inst) s' m')
      | Exited c m' \<Rightarrow> (\<exists>s' fl. run = Exited c (s', fl) \<and> world (ctx s') = world m')
      | Execed m' \<Rightarrow> (\<exists>s' fl. run = Execed (s', fl) \<and> world (ctx s') = world m')
      | OutOfBounds a \<Rightarrow>
          if discarded_load inst
          then \<exists>s'. run = Running (s', Fall) \<and> represents (pins (emitter ie)) s' m \<and> tracked_ok (emit_arms inst ie) m
          else run = OutOfBounds a
      | Aborted \<Rightarrow> run = Aborted
      | Undefined \<Rightarrow> False)"

definition branch_cond :: "EInstruction \<Rightarrow> expr \<Rightarrow> expr \<Rightarrow> expr" where
  "branch_cond t a b = (case t of
     I_BEQ \<Rightarrow> Bin Eq a b | I_BNE \<Rightarrow> Bin Ne a b
   | I_BLT \<Rightarrow> Bin Lt (Cast C_int a) (Cast C_int b) | I_BGE \<Rightarrow> Bin Ge (Cast C_int a) (Cast C_int b)
   | I_BLTU \<Rightarrow> Bin Lt a b | _ \<Rightarrow> Bin Ge a b)"

definition branch_types :: "EInstruction set" where
  "branch_types = {I_BEQ, I_BNE, I_BLT, I_BGE, I_BLTU, I_BGEU}"

text \<open>Statements that change nothing but the timer and may only jump to the guest's program counter.\<close>

definition keeps_or_jumps :: "'w host \<Rightarrow> stmt list \<Rightarrow> bool" where
  "keeps_or_jumps h new \<longleftrightarrow> (\<forall>s :: 'w tstate. \<exists>b. exec_list h new s = Running (s\<lparr>timerActive := b\<rparr>, Fall)
     \<or> exec_list h new s = Running (s\<lparr>timerActive := b\<rparr>, ToLabel (pc (ctx s))))"

definition same_knowledge :: "InstructionEmitter \<Rightarrow> InstructionEmitter \<Rightarrow> bool" where
  "same_knowledge ie ie' \<longleftrightarrow> regKnown ie' = regKnown ie \<and> regValues ie' = regValues ie"

text \<open>What follows the link of an indirect jump.\<close>

definition jump_tail :: "Instruction \<Rightarrow> InstructionEmitter \<Rightarrow> InstructionEmitter" where
  "jump_tail inst ie2 =
     (let opts = options (emitter ie2);
          ie3 = (if profileIndirect opts \<and> \<not> translationChaining opts then ie_emit StartTimer ie2 else ie2);
          ie4 = (if softwareBranchPrediction opts
                 then emit_predictions 3 (getIndirectBranchTargets (profilingInfo ie3) (address inst)) ie3
                 else ie3)
      in if translationChaining opts
         then ie_emit GotoDispatch (ie_emit (SetDispatchIndex (textStartAddress ie4)) ie4)
         else ie_emit Continue ie4)"

definition load_access :: "EInstruction \<Rightarrow> access" where
  "load_access t = (case t of I_LB \<Rightarrow> A_i8 | I_LH \<Rightarrow> A_i16 | I_LW \<Rightarrow> A_i32 | I_LBU \<Rightarrow> A_u8 | _ \<Rightarrow> A_u16)"

definition store_access :: "EInstruction \<Rightarrow> access" where
  "store_access t = (case t of I_SB \<Rightarrow> A_u8 | I_SH \<Rightarrow> A_u16 | _ \<Rightarrow> A_u32)"

text \<open>The statements that move the pinned registers to and from the context.\<close>

definition spill :: "RegisterMap \<Rightarrow> stmt list" where
  "spill rm = map (\<lambda>(s, hst). Assign (CtxReg s) (Host s)) rm"

definition reload :: "RegisterMap \<Rightarrow> stmt list" where
  "reload rm = map (\<lambda>(s, hst). Assign (Host s) (CtxReg s)) rm"

definition pinned_map :: "Emitter \<Rightarrow> RegisterMap" where
  "pinned_map em = (if pinRegisters (options em) then registerMap em else [])"

text \<open>A translator about to emit an instruction at address 0, and the state it will run in.\<close>

definition demo_ie :: "u32 \<Rightarrow> InstructionEmitter" where
  "demo_ie w = (new_InstructionEmitter (new_Emitter default_options x86RegisterMap) (new_ProfilingInfo True) {} 0)
     \<lparr>current := Some (decode w 0)\<rparr>"

definition demo_guest :: "(u8 \<Rightarrow> u32) \<Rightarrow> u8 list machine" where
  "demo_guest regs = boot_machine new_Memory regs"

definition demo_state :: "(u8 \<Rightarrow> u32) \<Rightarrow> u8 list tstate" where
  "demo_state regs = \<lparr>ctx = demo_guest regs, host_reg = regs, clobber = (\<lambda>_ _. 0), address_var = 0, pcDispatchIndex = 0,
     timerActive = False, heatup = 5, indirectMeasured = 0\<rparr>"

section \<open>System calls are defined\<close>

lemma writev_defined: "writev_loop h fd iov n i sent m \<noteq> Undefined"
  by (induction n arbitrary: i sent m) (simp_all add: load_then_def Let_def split: prod.splits option.splits)

lemma store_defined: "store_then a r m \<noteq> Undefined" "(\<And>m. f m \<noteq> Undefined) \<Longrightarrow> obind (store_then a r m) f \<noteq> Undefined"
  by (simp_all add: store_then_def split: option.splits)

lemma load_defined: "(\<And>v. f v \<noteq> Undefined) \<Longrightarrow> load_then a r f \<noteq> Undefined"
  by (simp add: load_then_def split: option.splits)

lemma handle_num_defined: "handle_num h m n \<noteq> Undefined"
proof -
  have "sys_openat h m \<noteq> Undefined" "sys_read h m \<noteq> Undefined" "sys_write h m \<noteq> Undefined" "sys_writev h m \<noteq> Undefined"
    "sys_exit h m \<noteq> Undefined" "sys_execve h m \<noteq> Undefined"
    by (auto simp: sys_openat_def sys_read_def sys_write_def sys_writev_def writev_defined sys_exit_def sys_execve_def
        split: prod.splits option.splits intro!: load_defined store_defined)
  moreover have "sys_statx h m \<noteq> Undefined" "sys_clone h m \<noteq> Undefined" "sys_mmap h m \<noteq> Undefined" "sys_clock_gettime64 h m \<noteq> Undefined"
    by (auto simp: sys_statx_def sys_clone_def sys_mmap_def sys_clock_gettime64_def Let_def load_then_def store_then_def split: prod.splits option.splits)
  ultimately show ?thesis by (simp add: handle_num_def)
qed

lemma print_pc: "print x (m\<lparr>pc := y\<rparr>) = (print x m)\<lparr>pc := y\<rparr>"
  by (cases m) (simp add: print_def)

section \<open>Statements and registers\<close>

declare log_none [simp]

section \<open>Output\<close>

lemma stmts_emit [simp]:
  "stmts (ie_emit st ie) = stmts ie @ [st]"
  "stmts (emit_rd st d ie) = stmts ie @ (if 0 < d then [st] else [])"
  "stmts (track r v ie) = stmts ie" "stmts (resetTracked ie) = stmts ie"
  "stmts (ie\<lparr>current := c\<rparr>) = stmts ie" "stmts (ie\<lparr>regKnown := k\<rparr>) = stmts ie" "stmts (ie\<lparr>untracked := u\<rparr>) = stmts ie"
  "stmts (on_emitter (setIndent n) ie) = stmts ie"
  by (simp_all add: stmts_def ie_emit_def emit_rd_def on_emitter_def emit_def track_def resetTracked_def setIndent_def Let_def)

lemma added_append: "stmts ie' = stmts ie @ new \<Longrightarrow> added ie ie' = new"
  by (simp add: added_def)

lemma emitter_frame [simp]:
  "options (emit st em) = options em" "registerMap (emit st em) = registerMap em"
  "pins (emitter (ie_emit st ie)) = pins (emitter ie)"
  "pins (emitter (emit_rd st d ie)) = pins (emitter ie)"
  "current (ie_emit st ie) = current ie" "regKnown (ie_emit st ie) = regKnown ie" "regValues (ie_emit st ie) = regValues ie"
  "regKnown (emit_rd st d ie) = (regKnown ie)(d := False)" "regValues (emit_rd st d ie) = regValues ie"
  "current (emit_rd st d ie) = current ie"
  "leaders (ie_emit st ie) = leaders ie" "profilingInfo (ie_emit st ie) = profilingInfo ie"
  "textStartAddress (ie_emit st ie) = textStartAddress ie" "options (emitter (ie_emit st ie)) = options (emitter ie)"
  by (simp_all add: emit_def pins_def ie_emit_def emit_rd_def on_emitter_def Let_def)

lemma REG_ie_emit [simp]: "REG (ie_emit st ie) f = REG ie f"
  by (simp add: REG_def getHostRegister_def ie_emit_def on_emitter_def emit_def Let_def split: option.splits)

section \<open>Operands\<close>

lemma getHostRegister_pinned: "getHostRegister em r \<noteq> None \<longleftrightarrow> r \<in> fst ` set (registerMap em)"
proof -
  have "getHostRegister_in xs r \<noteq> None \<longleftrightarrow> r \<in> fst ` set xs" for xs
    by (induction xs) auto
  then show ?thesis by (simp add: getHostRegister_def)
qed

lemma eval_REG:
  assumes rep: "represents (pins (emitter ie)) s m" and tr: "tracked_ok ie m" and cur: "current ie = Some inst"
    and f: "field \<noteq> RD"
  shows "\<exists>v. eval (env_of s) (REG ie field) = Some v \<and> opnd v (reg m (field_index field inst))"
proof -
  let ?r = "field_index field inst"
  have reg: "reg m ?r = (if ?r \<in> pins (emitter ie) then host_reg s ?r else reg (ctx s) ?r)"
    using rep by (auto simp: represents_def guest_reg_def fun_eq_iff)
  consider "?r = 0" | "?r \<noteq> 0" "regKnown ie ?r" | "?r \<noteq> 0" "\<not> regKnown ie ?r" by blast
  then show ?thesis
  proof cases
    case 1
    then show ?thesis using rep cur by (simp add: REG_def dec_zero opnd_def represents_def)
  next
    case 2
    with tr have "reg m ?r = regValues ie ?r" "- 2048 \<le> sint (regValues ie ?r)" "sint (regValues ie ?r) < 2048"
      by (auto simp: tracked_ok_def)
    with 2 f cur show ?thesis using dec_tracked [of "regValues ie ?r"] by (simp add: REG_def)
  next
    case 3
    then have "REG ie field = (if ?r \<in> pins (emitter ie) then Host ?r else CtxReg ?r)"
      using f cur getHostRegister_pinned [of "emitter ie" ?r] by (auto simp: REG_def pins_def)
    then show ?thesis using reg by (simp add: env_of_def opnd_def)
  qed
qed

lemma REG_RD:
  assumes "current ie = Some inst" "rd inst \<noteq> 0"
  shows "REG ie RD = (if rd inst \<in> pins (emitter ie) then Host (rd inst) else CtxReg (rd inst))"
  using assms getHostRegister_pinned [of "emitter ie" "rd inst"] by (auto simp: REG_def pins_def)

lemma guest_reg_host [simp]:
  "guest_reg P (s\<lparr>host_reg := (host_reg s)(d := v)\<rparr>) r = (if r = d \<and> r \<in> P then v else guest_reg P s r)"
  by (simp add: guest_reg_def)

lemma guest_reg_ctx [simp]:
  "guest_reg P (s\<lparr>ctx := c\<lparr>reg := (reg (ctx s))(d := v)\<rparr>\<rparr>) r = (if r = d \<and> r \<notin> P then v else guest_reg P s r)"
  by (simp add: guest_reg_def)

lemma assign_RD:
  assumes "represents (pins (emitter ie)) s m" "current ie = Some inst" "rd inst \<noteq> 0"
  shows "\<exists>s'. assign (REG ie RD) v s = Some s' \<and> represents (pins (emitter ie)) s' (next_reg (rd inst) v m)
    \<and> pc (ctx s') = pc (ctx s)"
proof (cases "rd inst \<in> pins (emitter ie)")
  case True
  with assms show ?thesis by (auto simp: REG_RD represents_def next_reg_def)
next
  case False
  with assms show ?thesis by (auto simp: REG_RD represents_def next_reg_def set_reg_def)
qed

lemma represents_skip: "represents P s m \<Longrightarrow> represents P s (next_reg 0 v m)"
  by (auto simp: represents_def next_reg_def)

lemma tracked_next: "tracked_ok ie m \<Longrightarrow> regKnown ie' = (regKnown ie)(d := False) \<Longrightarrow> regValues ie' = regValues ie \<Longrightarrow> tracked_ok ie' (next_reg d v m)"
  by (auto simp: tracked_ok_def next_reg_def)

lemma run_set_reg:
  "profile m = None \<Longrightarrow> predecoded_arms h m inst = Running (set_reg (rd inst) v m) \<Longrightarrow>
   runInstructionPredecoded h m inst = Running (next_reg (rd inst) v m)"
  by (simp add: runInstructionPredecoded_def finish_def next_reg_def set_reg_def)

lemma exec_rd:
  assumes "represents (pins (emitter ie)) s m" "current ie = Some inst"
    and "rd inst \<noteq> 0 \<Longrightarrow> exec h st s = assign_value (REG ie RD) (Some v) s"
  shows "\<exists>s'. exec_list h (if 0 < rd inst then [st] else []) s = Running (s', Fall)
     \<and> represents (pins (emitter ie)) s' (next_reg (rd inst) v m) \<and> pc (ctx s') = pc (ctx s)"
proof (cases "rd inst = 0")
  case True
  then show ?thesis using represents_skip [OF assms(1)] by simp
next
  case False
  with assign_RD [OF assms(1,2) False, of v] assms(3) show ?thesis
    by (auto simp: assign_value_def word_gt_0)
qed

lemma translate_alu:
  assumes rep: "represents (pins (emitter ie)) s m" and tr: "tracked_ok ie m" and cur: "current ie = Some inst"
    and prof: "profile m = None" and pc: "pc m = address inst"
    and arms: "emit_arms inst ie = emit_rd st (rd inst) ie"
    and val: "rd inst \<noteq> 0 \<Longrightarrow> exec h st s = assign_value (REG ie RD) (Some v) s"
    and interp: "predecoded_arms h m inst = Running (set_reg (rd inst) v m)"
  shows "simulates h inst ie s m"
proof -
  have "added ie (emit_arms inst ie) = (if 0 < rd inst then [st] else [])"
    by (rule added_append) (simp add: arms)
  moreover have "tracked_ok (emit_arms inst ie) (next_reg (rd inst) v m)"
    by (rule tracked_next [OF tr]) (simp_all add: arms)
  moreover have "pc (next_reg (rd inst) v m) = address inst + 4" by (simp add: next_reg_def pc)
  ultimately show ?thesis
    using exec_rd [OF rep cur val] run_set_reg [OF prof interp] by (auto simp: simulates_def)
qed

lemma ready_operands:
  assumes "ready ie inst s m"
  obtains va vb where "eval (env_of s) (REG ie RS1) = Some va" "opnd va (reg m (rs1 inst))"
    "eval (env_of s) (REG ie RS2) = Some vb" "opnd vb (reg m (rs2 inst))"
  using assms eval_REG [of ie s m inst RS1] eval_REG [of ie s m inst RS2] by (auto simp: ready_def)

lemma ready_RD:
  assumes "ready ie inst s m" "rd inst \<noteq> 0"
  shows "eval (env_of s) (REG ie RD) = Some (C_uint, uint (reg m (rd inst)))"
proof -
  have "guest_reg (pins (emitter ie)) s (rd inst) = reg m (rd inst)"
    using assms(1) by (simp add: ready_def represents_def)
  then show ?thesis
    using assms by (auto simp: ready_def REG_RD env_of_def guest_reg_def)
qed

lemma alu_assign:
  assumes "ready ie inst s m"
    and "emit_arms inst ie = emit_rd (Assign (REG ie RD) e) (rd inst) ie"
    and "rd inst \<noteq> 0 \<Longrightarrow> eval_u32 (env_of s) e = Some v"
    and "predecoded_arms h m inst = Running (set_reg (rd inst) v m)"
  shows "simulates h inst ie s m"
  by (rule translate_alu [OF _ _ _ _ _ assms(2) _ assms(4)]) (use assms(1,3) in \<open>auto simp: ready_def\<close>)

lemma emitOp_simulates:
  assumes r: "ready ie inst s m"
    and arms: "emit_arms inst ie = emitOp f ordered ie" and f: "f \<noteq> And"
    and val: "\<And>v w x y. opnd v x \<Longrightarrow> opnd w y \<Longrightarrow> u32_result (apply_bin f v w) = Some (g x y)"
    and comm: "\<And>x y. \<not> ordered \<Longrightarrow> g x y = g y x" and neg: "\<And>x. ordered \<Longrightarrow> g 0 x = - x"
    and interp: "predecoded_arms h m inst = Running (set_reg (rd inst) (g (reg m (rs1 inst)) (reg m (rs2 inst))) m)"
  shows "simulates h inst ie s m"
proof -
  have cur: "current ie = Some inst" using r by (simp add: ready_def)
  obtain va vb where a: "eval (env_of s) (REG ie RS1) = Some va" "opnd va (reg m (rs1 inst))"
    and b: "eval (env_of s) (REG ie RS2) = Some vb" "opnd vb (reg m (rs2 inst))"
    by (rule ready_operands [OF r])
  have x0: "reg m 0 = 0" using r by (simp add: ready_def represents_def)
  note d = ready_RD [OF r]
  let ?v = "g (reg m (rs1 inst)) (reg m (rs2 inst))"
  consider "rd inst = rs1 inst" | "rd inst \<noteq> rs1 inst" "rd inst = rs2 inst" "\<not> ordered"
    | "rd inst \<noteq> rs1 inst" "rd inst = rs2 inst" "ordered" "rs1 inst = 0"
    | "rd inst \<noteq> rs1 inst" "rd inst \<noteq> rs2 inst \<or> ordered \<and> rs1 inst \<noteq> 0" by blast
  then obtain st where "emit_arms inst ie = emit_rd st (rd inst) ie"
    "rd inst \<noteq> 0 \<Longrightarrow> exec h st s = assign_value (REG ie RD) (Some ?v) s"
  proof cases
    case 1
    show ?thesis
    proof (rule that [of "OpAssign f (REG ie RD) (REG ie RS2)"])
      show "exec h (OpAssign f (REG ie RD) (REG ie RS2)) s = assign_value (REG ie RD) (Some ?v) s" if "rd inst \<noteq> 0"
        using eval_u32_bin [OF d [OF that] b(1) f] val [OF opnd_reg b(2)] 1 by simp
    qed (use 1 in \<open>simp add: arms emitOp_def cur\<close>)
  next
    case 2
    show ?thesis
    proof (rule that [of "OpAssign f (REG ie RD) (REG ie RS1)"])
      show "exec h (OpAssign f (REG ie RD) (REG ie RS1)) s = assign_value (REG ie RD) (Some ?v) s" if "rd inst \<noteq> 0"
        using eval_u32_bin [OF d [OF that] a(1) f] val [OF opnd_reg a(2)] comm 2 by simp
    qed (use 2 in \<open>simp add: arms emitOp_def cur\<close>)
  next
    case 3
    show ?thesis
    proof (rule that [of "Assign (REG ie RD) (Neg (REG ie RS2))"])
      show "exec h (Assign (REG ie RD) (Neg (REG ie RS2))) s = assign_value (REG ie RD) (Some ?v) s"
        using eval_u32_neg [OF b] neg 3 x0 by simp
    qed (use 3 in \<open>simp add: arms emitOp_def cur\<close>)
  next
    case 4
    show ?thesis
    proof (rule that [of "Assign (REG ie RD) (Bin f (REG ie RS1) (REG ie RS2))"])
      show "exec h (Assign (REG ie RD) (Bin f (REG ie RS1) (REG ie RS2))) s = assign_value (REG ie RD) (Some ?v) s"
        using eval_u32_bin [OF a(1) b(1) f] val [OF a(2) b(2)] by simp
    qed (use 4 in \<open>auto simp: arms emitOp_def cur\<close>)
  qed
  then show ?thesis
    by (rule translate_alu [where v = ?v, rotated 5]) (use r interp in \<open>simp_all add: ready_def\<close>)
qed

lemmas emit_groups = emit_op_def emit_op_imm_def emit_mem_def emit_branch_def emit_jump_def
  emit_system_def emit_muldiv_def emit_atomic_def

lemmas arms_defs = emit_arms_def emit_groups predecoded_arms_def predecoded_groups

lemma simulates_emitOp:
  assumes "ready ie inst s m" "itype inst \<in> {I_ADD, I_SUB, I_XOR, I_OR, I_AND}"
  shows "simulates h inst ie s m"
proof -
  have p: "profile m = None" using assms(1) by (simp add: ready_def)
  consider "itype inst = I_ADD" | "itype inst = I_SUB" | "itype inst = I_XOR" | "itype inst = I_OR" | "itype inst = I_AND"
    using assms(2) by blast
  then show ?thesis
  proof cases
    case 1
    show ?thesis
      by (rule emitOp_simulates [OF assms(1), of Add False "\<lambda>x y. x + y"])
        (use 1 p in \<open>simp_all add: arms_defs bin_add add.commute set_reg_def\<close>)
  next
    case 2
    show ?thesis
      by (rule emitOp_simulates [OF assms(1), of Sub True "\<lambda>x y. x - y"])
        (use 2 p in \<open>simp_all add: arms_defs bin_sub set_reg_def\<close>)
  next
    case 3
    show ?thesis
      by (rule emitOp_simulates [OF assms(1), of BitXor False "\<lambda>x y. x XOR y"])
        (use 3 p in \<open>simp_all add: arms_defs bin_bits ac_simps set_reg_def\<close>)
  next
    case 4
    show ?thesis
      by (rule emitOp_simulates [OF assms(1), of BitOr False "\<lambda>x y. x OR y"])
        (use 4 p in \<open>simp_all add: arms_defs bin_bits ac_simps set_reg_def\<close>)
  next
    case 5
    show ?thesis
      by (rule emitOp_simulates [OF assms(1), of BitAnd False "\<lambda>x y. x AND y"])
        (use 5 p in \<open>simp_all add: arms_defs bin_bits ac_simps set_reg_def\<close>)
  qed
qed

lemma simulates_alu:
  assumes r: "ready ie inst s m" and t: "itype inst \<in> alu_types"
  shows "simulates h inst ie s m"
proof -
  have p: "profile m = None" using r by (simp add: ready_def)
  obtain va vb where a: "eval (env_of s) (REG ie RS1) = Some va" "opnd va (reg m (rs1 inst))"
    and b: "eval (env_of s) (REG ie RS2) = Some vb" "opnd vb (reg m (rs2 inst))"
    by (rule ready_operands [OF r])
  have "eval_u32 (env_of s) (alu_expr_of (itype inst) (REG ie RS1) (REG ie RS2))
      = Some (alu_cpp (itype inst) (reg m (rs1 inst)) (reg m (rs2 inst)))"
    using t alu_expr [OF a b] mul_expr [OF a b] unfolding alu_types_def
    by (elim insertE emptyE) (simp_all only: alu_expr_of_def alu_cpp_def EInstruction.case)
  moreover have "emit_arms inst ie
      = emit_rd (Assign (REG ie RD) (alu_expr_of (itype inst) (REG ie RS1) (REG ie RS2))) (rd inst) ie"
    using t unfolding alu_types_def by (elim insertE emptyE) (simp_all add: arms_defs alu_expr_of_def)
  moreover have "predecoded_arms h m inst
      = Running (set_reg (rd inst) (alu_cpp (itype inst) (reg m (rs1 inst)) (reg m (rs2 inst))) m)"
    using t p unfolding alu_types_def by (elim insertE emptyE) (simp_all add: arms_defs alu_cpp_def set_reg_def)
  ultimately show ?thesis by (intro alu_assign [OF r])
qed

lemma simulates_div:
  assumes r: "ready ie inst s m" and t: "itype inst \<in> {I_DIV, I_DIVU, I_REM, I_REMU}" and ok: "agreeing inst m"
  shows "simulates h inst ie s m"
proof -
  have p: "profile m = None" using r by (simp add: ready_def)
  obtain va vb where a: "eval (env_of s) (REG ie RS1) = Some va" "opnd va (reg m (rs1 inst))"
    and b: "eval (env_of s) (REG ie RS2) = Some vb" "opnd vb (reg m (rs2 inst))"
    by (rule ready_operands [OF r])
  note facts = eval_cond_zero [OF b] eval_cond_overflow [OF a b] eval_div [OF a b] eval_u32_opnd [OF a]
  have "emit_arms inst ie = emit_rd st (rd inst) ie \<Longrightarrow>
      exec h st s = assign_value (REG ie RD) (Some (alu_cpp (itype inst) (reg m (rs1 inst)) (reg m (rs2 inst)))) s \<Longrightarrow>
      simulates h inst ie s m" for st
  proof (rule translate_alu)
    show "predecoded_arms h m inst = Running (set_reg (rd inst) (alu_cpp (itype inst) (reg m (rs1 inst)) (reg m (rs2 inst))) m)"
      using t p by (elim insertE emptyE) (auto simp: arms_defs alu_cpp_def set_reg_def Let_def)
  qed (use r in \<open>simp_all add: ready_def\<close>)
  note via = this
  let ?a = "REG ie RS1" and ?b = "REG ie RS2" and ?d = "REG ie RD"
  let ?zero = "Bin Eq ?b (Dec 0)" and ?over = "Bin And (Bin Eq ?a (Hex 0x80000000)) (Bin Eq ?b (Hex 0xFFFFFFFF))"
  consider "itype inst = I_DIV" | "itype inst = I_DIVU" | "itype inst = I_REM" | "itype inst = I_REMU" using t by blast
  then show ?thesis
  proof cases
    case 1
    then show ?thesis
      by (intro via [of "Branches [(?zero, ?d, Dec (- 1)), (?over, ?d, Hex 0x80000000)] ?d
            (Cast C_uint (Bin Div (Cast C_int ?a) (Cast C_int ?b)))"]) (simp add: arms_defs Let_def, auto simp: alu_cpp_def facts)
  next
    case 2
    then show ?thesis
      by (intro via [of "Branches [(?zero, ?d, Hex 0xFFFFFFFF)] ?d (Bin Div ?a ?b)"])
        (simp add: arms_defs Let_def, auto simp: alu_cpp_def facts)
  next
    case 3
    with ok have "\<not> (reg m (rs1 inst) = 0x80000000 \<and> reg m (rs2 inst) = 0xFFFFFFFF)" by (simp add: agreeing_def)
    with 3 show ?thesis
      by (intro via [of "Branches [(?zero, ?d, ?a), (?over, ?d, Hex 0x80000000)] ?d
            (Cast C_uint (Bin Mod (Cast C_int ?a) (Cast C_int ?b)))"]) (simp add: arms_defs Let_def, auto simp: alu_cpp_def facts)
  next
    case 4
    then show ?thesis
      by (intro via [of "Branches [(?zero, ?d, ?a)] ?d (Bin Mod ?a ?b)"])
        (simp add: arms_defs Let_def, auto simp: alu_cpp_def facts)
  qed
qed

lemma simulates_imm:
  assumes r: "ready ie inst s m" and t: "itype inst \<in> shift_imm_types \<union> logic_imm_types"
    and ok: "operands_ok inst"
  shows "simulates h inst ie s m"
proof -
  have p: "profile m = None" using r by (simp add: ready_def)
  obtain va vb where a: "eval (env_of s) (REG ie RS1) = Some va" "opnd va (reg m (rs1 inst))"
    by (rule ready_operands [OF r])
  have "eval_u32 (env_of s) (imm_expr_of (itype inst) (REG ie RS1) (immediate inst) (rs2 inst))
      = Some (alu_cpp (the (imm_base (itype inst))) (reg m (rs1 inst)) (immediate inst))"
  proof (cases "itype inst \<in> shift_imm_types")
    case True
    with ok show ?thesis
      by (intro shift_imm_expr [OF a]) (auto simp: operands_ok_def shift_imm_types_def)
  next
    case False
    with t ok show ?thesis
      by (intro logic_imm_expr [OF a]) (auto simp: operands_ok_def logic_imm_types_def)
  qed
  moreover have "emit_arms inst ie
      = emit_rd (Assign (REG ie RD) (imm_expr_of (itype inst) (REG ie RS1) (immediate inst) (rs2 inst))) (rd inst) ie"
    using t unfolding shift_imm_types_def logic_imm_types_def
    by (elim UnE insertE emptyE) (simp_all add: arms_defs imm_expr_of_def)
  moreover have "predecoded_arms h m inst
      = Running (set_reg (rd inst) (alu_cpp (the (imm_base (itype inst))) (reg m (rs1 inst)) (immediate inst)) m)"
    using t p unfolding shift_imm_types_def logic_imm_types_def
    by (elim UnE insertE emptyE) (simp_all add: arms_defs alu_cpp_def imm_base_def set_reg_def)
  ultimately show ?thesis by (intro alu_assign [OF r])
qed

lemma tracked_track:
  "tracked_ok ie m \<Longrightarrow> - 2048 \<le> sint v \<Longrightarrow> sint v < 2048 \<Longrightarrow> d \<noteq> 0 \<Longrightarrow> tracked_ok (track d v (emit_rd st d ie)) (next_reg d v m)"
  by (auto simp: tracked_ok_def next_reg_def track_def)

lemma simulates_li:
  assumes r: "ready ie inst s m" and t: "itype inst = I_ADDI" "immediate inst \<noteq> 0" "rs1 inst = 0"
    and ok: "operands_ok inst"
  shows "simulates h inst ie s m"
proof -
  let ?st = "Assign (REG ie RD) (Dec (sint (immediate inst)))"
  have i: "- 2048 \<le> sint (immediate inst)" "sint (immediate inst) < 2048" using t ok by (auto simp: operands_ok_def)
  have arms: "emit_arms inst ie = track (rd inst) (immediate inst) (emit_rd ?st (rd inst) ie)"
    using t by (simp add: arms_defs)
  have "reg m 0 = 0" using r by (simp add: ready_def represents_def)
  then have interp: "predecoded_arms h m inst = Running (set_reg (rd inst) (immediate inst) m)"
    using t r by (simp add: arms_defs ready_def set_reg_def)
  have "eval_u32 (env_of s) (Dec (sint (immediate inst))) = Some (immediate inst)"
    using i by (simp add: eval_u32_def dec_imm)
  then have "\<exists>s'. exec_list h (if 0 < rd inst then [?st] else []) s = Running (s', Fall)
     \<and> represents (pins (emitter ie)) s' (next_reg (rd inst) (immediate inst) m) \<and> pc (ctx s') = pc (ctx s)"
    using r by (intro exec_rd) (simp_all add: ready_def)
  moreover have "added ie (emit_arms inst ie) = (if 0 < rd inst then [?st] else [])"
    by (rule added_append) (simp add: arms)
  moreover have "tracked_ok (emit_arms inst ie) (next_reg (rd inst) (immediate inst) m)"
    using r i tracked_track [of ie m "immediate inst" "rd inst" ?st]
    by (cases "rd inst = 0") (auto simp: arms ready_def tracked_ok_def next_reg_def track_def)
  moreover have "pc (next_reg (rd inst) (immediate inst) m) = address inst + 4" using r by (simp add: next_reg_def ready_def)
  ultimately show ?thesis
    using run_set_reg [OF _ interp] r by (auto simp: simulates_def ready_def)
qed

lemma simulates_addi:
  assumes r: "ready ie inst s m" and t: "itype inst = I_ADDI" and ok: "operands_ok inst"
  shows "simulates h inst ie s m"
proof -
  have p: "profile m = None" using r by (simp add: ready_def)
  obtain va vb where a: "eval (env_of s) (REG ie RS1) = Some va" "opnd va (reg m (rs1 inst))"
    by (rule ready_operands [OF r])
  have i: "- 2048 \<le> sint (immediate inst)" "sint (immediate inst) < 2048" using t ok by (auto simp: operands_ok_def)
  note e = eval_u32_imm [OF a] and e' = eval_u32_imm [OF ready_RD [OF r] opnd_reg]
  have interp: "predecoded_arms h m inst = Running (set_reg (rd inst) (reg m (rs1 inst) + immediate inst) m)"
    using t p by (simp add: arms_defs set_reg_def)
  have via: "emit_arms inst ie = emit_rd st (rd inst) ie \<Longrightarrow>
      (rd inst \<noteq> 0 \<Longrightarrow> exec h st s = assign_value (REG ie RD) (Some (reg m (rs1 inst) + immediate inst)) s) \<Longrightarrow>
      simulates h inst ie s m" for st
    by (rule translate_alu [OF _ _ _ _ _ _ _ interp]) (use r in \<open>simp_all add: ready_def\<close>)
  consider "immediate inst \<noteq> 0" "rs1 inst = 0" | "immediate inst = 0"
    | "rs1 inst \<noteq> 0" "sint (immediate inst) < 0" "rs1 inst = rd inst"
    | "rs1 inst \<noteq> 0" "sint (immediate inst) < 0" "rs1 inst \<noteq> rd inst"
    | "rs1 inst \<noteq> 0" "immediate inst \<noteq> 0" "0 \<le> sint (immediate inst)" "rs1 inst = rd inst"
    | "rs1 inst \<noteq> 0" "immediate inst \<noteq> 0" "0 \<le> sint (immediate inst)" "rs1 inst \<noteq> rd inst"
    by linarith
  then show ?thesis
  proof cases
    case 1
    then show ?thesis using simulates_li [OF r t _ _ ok] by simp
  next
    case 2
    show ?thesis
      by (rule via [of "Assign (REG ie RD) (REG ie RS1)"])
        (use 2 t eval_u32_opnd [OF a] in \<open>simp_all add: arms_defs\<close>)
  next
    case 3
    then show ?thesis
      by (intro via [of "OpAssign Sub (REG ie RD) (Dec (- sint (immediate inst)))"])
        (use 3 t i e'(3) [of "- sint (immediate inst)"] in \<open>auto simp: arms_defs Let_def\<close>)
  next
    case 4
    then show ?thesis
      by (intro via [of "Assign (REG ie RD) (Bin Sub (REG ie RS1) (Dec (- sint (immediate inst))))"])
        (use 4 t i e(3) [of "- sint (immediate inst)"] in \<open>auto simp: arms_defs Let_def\<close>)
  next
    case 5
    then show ?thesis
      by (intro via [of "OpAssign Add (REG ie RD) (Dec (sint (immediate inst)))"])
        (use 5 t i e'(1) [of "sint (immediate inst)"] in \<open>auto simp: arms_defs Let_def\<close>)
  next
    case 6
    then show ?thesis
      by (intro via [of "Assign (REG ie RD) (Bin Add (REG ie RS1) (Dec (sint (immediate inst))))"])
        (use 6 t i e(1) [of "sint (immediate inst)"] in \<open>auto simp: arms_defs Let_def\<close>)
  qed
qed

lemma simulates_upper:
  assumes r: "ready ie inst s m" and t: "itype inst \<in> {I_LUI, I_AUIPC}" and ok: "agreeing inst m"
  shows "simulates h inst ie s m"
proof (cases "itype inst = I_LUI")
  case True
  show ?thesis
    by (rule alu_assign [OF r, of "Dec (sint (push_bit 12 (immediate inst)))" "push_bit 12 (immediate inst)"])
      (use True r in \<open>simp_all add: arms_defs eval_Dec_sint set_reg_def ready_def\<close>)
next
  case False
  with t have t: "itype inst = I_AUIPC" by simp
  with ok have "0 \<le> sint (push_bit 12 (immediate inst))" "uint (address inst) + sint (push_bit 12 (immediate inst)) < 2147483648"
    by (simp_all add: agreeing_def)
  note e = eval_auipc [OF this]
  show ?thesis
    by (rule alu_assign [OF r, of "Bin Add (Hex (address inst)) (Hex_int (push_bit 12 (immediate inst)))"
          "address inst + push_bit 12 (immediate inst)"])
      (use t r e in \<open>simp_all add: arms_defs set_reg_def ready_def\<close>)
qed

section \<open>Control transfer\<close>

lemma exec_list_append:
  "exec_list h (xs @ ys) s =
     obind (exec_list h xs s) (\<lambda>(s', fl). if fl = Fall then exec_list h ys s' else Running (s', fl))"
proof (induction xs arbitrary: s)
  case (Cons x xs)
  show ?case
  proof (cases "exec h x s")
    case (Running r)
    then show ?thesis using Cons by (cases r) auto
  qed auto
qed simp

lemma represents_pc [simp]: "represents P s (m\<lparr>pc := x\<rparr>) = represents P s m"
  by (simp add: represents_def)

lemma tracked_pc [simp]: "tracked_ok ie (m\<lparr>pc := x\<rparr>) = tracked_ok ie m"
  by (simp add: tracked_ok_def)

lemma keep_x0: "reg m 0 = 0 \<Longrightarrow> m\<lparr>pc := x, reg := (reg m)(0 := 0)\<rparr> = m\<lparr>pc := x\<rparr>"
  by (cases m) (simp add: fun_upd_idem)

lemma finish_x0: "reg m 0 = 0 \<Longrightarrow> finish m = Running (m\<lparr>pc := pc m + 4\<rparr>)"
  by (cases m) (simp add: finish_def set_reg_def fun_upd_idem)

lemma represents_x0: "represents P s m \<Longrightarrow> reg m 0 = 0"
  by (simp add: represents_def)

lemma simulates_branch:
  assumes r: "ready ie inst s m" and t: "itype inst \<in> branch_types"
  shows "simulates h inst ie s m"
proof -
  have p: "profile m = None" "pc m = address inst" "represents (pins (emitter ie)) s m" "tracked_ok ie m"
    using r by (simp_all add: ready_def)
  obtain va vb where a: "eval (env_of s) (REG ie RS1) = Some va" "opnd va (reg m (rs1 inst))"
    and b: "eval (env_of s) (REG ie RS2) = Some vb" "opnd vb (reg m (rs2 inst))"
    by (rule ready_operands [OF r])
  let ?c = "branch_cond (itype inst) (REG ie RS1) (REG ie RS2)"
  obtain c where c: "branch_taken (itype inst) (reg m (rs1 inst)) (reg m (rs2 inst)) = Some c"
    "eval_cond (env_of s) ?c = Some c"
    using t eval_cond_compare [OF a b] unfolding branch_types_def
    by (elim insertE emptyE)
      (simp_all add: branch_taken_def branch_cond_def cpp_slt_def not_less word_less_def word_le_def)
  have arms: "emit_arms inst ie = ie_emit (IfGoto ?c (address inst + immediate inst)) ie"
    using t unfolding branch_types_def by (elim insertE emptyE) (simp_all add: arms_defs branch_cond_def)
  then have "added ie (emit_arms inst ie) = [IfGoto ?c (address inst + immediate inst)]"
    by (intro added_append) simp
  moreover have "runInstructionPredecoded h m inst
      = Running (m\<lparr>pc := if c then address inst + immediate inst else address inst + 4\<rparr>)"
    using predecoded_branch_spec [OF c(1), of h] p keep_x0 [OF represents_x0 [OF p(3)]]
    by (auto simp: runInstructionPredecoded_def finish_def set_reg_def)
  moreover have "tracked_ok (emit_arms inst ie) m" using p(4) by (simp add: arms tracked_ok_def)
  ultimately show ?thesis using p c(2) by (simp add: simulates_def)
qed

lemma simulates_jal:
  assumes r: "ready ie inst s m" and t: "itype inst = I_JAL"
  shows "simulates h inst ie s m"
proof -
  have p: "profile m = None" "pc m = address inst" "represents (pins (emitter ie)) s m" "tracked_ok ie m"
    "current ie = Some inst"
    using r by (simp_all add: ready_def)
  let ?link = "Assign (REG ie RD) (Hex (address inst + 4))" and ?v = "address inst + 4"
  have arms: "emit_arms inst ie = ie_emit (Goto (address inst + immediate inst)) (emit_rd ?link (rd inst) ie)"
    using t by (simp add: arms_defs)
  then have "added ie (emit_arms inst ie) = (if 0 < rd inst then [?link] else []) @ [Goto (address inst + immediate inst)]"
    by (intro added_append) simp
  moreover obtain s' where s': "exec_list h (if 0 < rd inst then [?link] else []) s = Running (s', Fall)"
    "represents (pins (emitter ie)) s' (next_reg (rd inst) ?v m)"
    using exec_rd [OF p(3,5), of h ?link ?v] by auto
  moreover have "runInstructionPredecoded h m inst = Running ((next_reg (rd inst) ?v m)\<lparr>pc := address inst + immediate inst\<rparr>)"
    using t p by (simp add: runInstructionPredecoded_def predecoded_arms_def predecoded_groups finish_def next_reg_def set_reg_def)
  moreover have "tracked_ok (emit_arms inst ie) (next_reg (rd inst) ?v m)"
    by (rule tracked_next [OF p(4)]) (simp_all add: arms)
  ultimately show ?thesis by (simp add: simulates_def exec_list_append)
qed

section \<open>Indirect jumps\<close>

lemma represents_frame [simp]:
  "represents P (s\<lparr>pcDispatchIndex := i\<rparr>) m = represents P s m"
  "represents P (s\<lparr>address_var := a\<rparr>) m = represents P s m"
  "represents P (s\<lparr>timerActive := b\<rparr>) m = represents P s m"
  "represents P (s\<lparr>ctx := (ctx s)\<lparr>pc := x\<rparr>\<rparr>) m = represents P s m"
  by (simp_all add: represents_def guest_reg_def)

lemma eval_pc_is: "eval_cond (env_of s) (Bin Eq CtxPc (Hex w)) = Some (pc (ctx s) = w)"
  by (simp add: eval_cond_def env_of_def hex_literal_def bin_simps truth_def word_uint_eq_iff converts)

lemma keeps_or_jumps_append:
  assumes "keeps_or_jumps h xs" "keeps_or_jumps h ys"
  shows "keeps_or_jumps h (xs @ ys)"
  unfolding keeps_or_jumps_def exec_list_append
proof
  fix s :: "'a tstate"
  obtain b where b: "exec_list h xs s = Running (s\<lparr>timerActive := b\<rparr>, Fall) \<or> exec_list h xs s = Running (s\<lparr>timerActive := b\<rparr>, ToLabel (pc (ctx s)))"
    using assms(1) unfolding keeps_or_jumps_def by blast
  obtain b' where "exec_list h ys (s\<lparr>timerActive := b\<rparr>) = Running (s\<lparr>timerActive := b'\<rparr>, Fall)
      \<or> exec_list h ys (s\<lparr>timerActive := b\<rparr>) = Running (s\<lparr>timerActive := b'\<rparr>, ToLabel (pc (ctx s)))"
    using assms(2) [unfolded keeps_or_jumps_def, THEN spec, of "s\<lparr>timerActive := b\<rparr>"] by auto
  with b show "\<exists>b. obind (exec_list h xs s) (\<lambda>(s', fl). if fl = Fall then exec_list h ys s' else Running (s', fl)) = Running (s\<lparr>timerActive := b\<rparr>, Fall) \<or>
      obind (exec_list h xs s) (\<lambda>(s', fl). if fl = Fall then exec_list h ys s' else Running (s', fl)) = Running (s\<lparr>timerActive := b\<rparr>, ToLabel (pc (ctx s)))"
    by auto
qed

lemma keeps_or_jumps_simps [simp]:
  "keeps_or_jumps h []" "keeps_or_jumps h [IfGoto (Bin Eq CtxPc (Hex w)) w]" "keeps_or_jumps h [StartTimer]"
proof -
  have self: "\<exists>b. s = s\<lparr>timerActive := b\<rparr>" for s :: "'a tstate" by (rule exI [of _ "timerActive s"]) simp
  then show "keeps_or_jumps h []" "keeps_or_jumps h [IfGoto (Bin Eq CtxPc (Hex w)) w]"
    unfolding keeps_or_jumps_def by (auto simp: eval_pc_is)
  show "keeps_or_jumps h [StartTimer]" unfolding keeps_or_jumps_def by auto
qed

lemma predictions_added:
  "\<exists>new. stmts (emit_predictions n dests ie) = stmts ie @ new \<and> keeps_or_jumps h new
     \<and> same_knowledge ie (emit_predictions n dests ie)"
proof (induction n dests ie rule: emit_predictions.induct)
  case (3 n x xs ie)
  let ?m = "max_element x xs"
  let ?ie = "if fst ?m \<in> leaders ie then ie_emit (IfGoto (Bin Eq CtxPc (Hex (fst ?m))) (fst ?m)) ie else ie"
  obtain new where new: "stmts (emit_predictions n (remove1 ?m (x # xs)) ?ie) = stmts ?ie @ new" "keeps_or_jumps h new"
    "same_knowledge ?ie (emit_predictions n (remove1 ?m (x # xs)) ?ie)"
    using 3 [OF refl refl] by blast
  show ?case
  proof (cases "fst ?m \<in> leaders ie")
    case True
    with new show ?thesis
      by (intro exI [of _ "[IfGoto (Bin Eq CtxPc (Hex (fst ?m))) (fst ?m)] @ new"])
        (simp add: Let_def same_knowledge_def keeps_or_jumps_append del: append.simps)
  next
    case False
    with new show ?thesis by (intro exI [of _ new]) (simp add: Let_def)
  qed
qed (auto simp: same_knowledge_def)

lemma text_frame [simp]:
  "textStartAddress (ie_emit st ie) = textStartAddress ie" "textStartAddress (emit_rd st d ie) = textStartAddress ie"
  by (simp_all add: emit_rd_def ie_emit_def on_emitter_def Let_def)

lemma text_predictions [simp]: "textStartAddress (emit_predictions n dests ie) = textStartAddress ie"
  by (induction n dests ie rule: emit_predictions.induct) (simp_all add: Let_def)

lemma jump_tail_added:
  "\<exists>new. stmts (jump_tail inst ie) = stmts ie @ new \<and> same_knowledge ie (jump_tail inst ie)
     \<and> (\<forall>s :: 'w tstate. \<exists>i fl b. exec_list h new s = Running (s\<lparr>pcDispatchIndex := i, timerActive := b\<rparr>, fl)
          \<and> (fl = ToLabel (pc (ctx s)) \<or> fl = ToLoop \<or> fl = ToDispatch \<and> i = (pc (ctx s) - textStartAddress ie) div 4))"
proof -
  let ?opts = "options (emitter ie)"
  let ?ie3 = "if profileIndirect ?opts \<and> \<not> translationChaining ?opts then ie_emit StartTimer ie else ie"
  let ?ie4 = "if softwareBranchPrediction ?opts
    then emit_predictions 3 (getIndirectBranchTargets (profilingInfo ?ie3) (address inst)) ?ie3 else ?ie3"
  let ?fin = "\<lambda>a. if translationChaining ?opts then [SetDispatchIndex a, GotoDispatch] else [Continue]"
  obtain new3 where n3: "stmts ?ie3 = stmts ie @ new3" "keeps_or_jumps h new3" "same_knowledge ie ?ie3"
    by (cases "profileIndirect ?opts \<and> \<not> translationChaining ?opts") (auto simp: same_knowledge_def intro: that [of "[StartTimer]"] that [of "[]"])
  obtain new4 where n4: "stmts ?ie4 = stmts ?ie3 @ new4" "keeps_or_jumps h new4" "same_knowledge ?ie3 ?ie4"
  proof (cases "softwareBranchPrediction ?opts")
    case True
    then show ?thesis
      using that predictions_added [of 3 "getIndirectBranchTargets (profilingInfo ?ie3) (address inst)" ?ie3 h] by auto
  next
    case False
    then show ?thesis by (intro that [of "[]"]) (auto simp: same_knowledge_def)
  qed
  have base: "textStartAddress ?ie4 = textStartAddress ie" by simp
  have fin: "stmts (jump_tail inst ie) = stmts ?ie4 @ ?fin (textStartAddress ie) \<and> same_knowledge ?ie4 (jump_tail inst ie)"
    unfolding jump_tail_def Let_def same_knowledge_def base by auto
  have pre: "keeps_or_jumps h (new3 @ new4)" by (rule keeps_or_jumps_append) (fact n3 n4)+
  have run: "\<exists>i fl b. exec_list h ((new3 @ new4) @ ?fin a) s = Running (s\<lparr>pcDispatchIndex := i, timerActive := b\<rparr>, fl)
          \<and> (fl = ToLabel (pc (ctx s)) \<or> fl = ToLoop \<or> fl = ToDispatch \<and> i = (pc (ctx s) - a) div 4)" for s :: "'w tstate" and a
  proof -
    have self: "\<exists>i b'. s\<lparr>timerActive := b\<rparr> = s\<lparr>pcDispatchIndex := i, timerActive := b'\<rparr>" for b
      by (rule exI [of _ "pcDispatchIndex s"], rule exI [of _ b]) simp
    have swap: "\<exists>b'. s\<lparr>timerActive := b, pcDispatchIndex := i\<rparr> = s\<lparr>pcDispatchIndex := i, timerActive := b'\<rparr>" for i b
      by (rule exI [of _ b]) simp
    obtain b where "exec_list h (new3 @ new4) s = Running (s\<lparr>timerActive := b\<rparr>, Fall) \<or> exec_list h (new3 @ new4) s = Running (s\<lparr>timerActive := b\<rparr>, ToLabel (pc (ctx s)))"
      using pre unfolding keeps_or_jumps_def by blast
    then show ?thesis
      by (cases "translationChaining ?opts") (auto simp: exec_list_append [of h "new3 @ new4"] intro: self swap simp del: append_assoc)
  qed
  show ?thesis
    by (rule exI [of _ "(new3 @ new4) @ ?fin (textStartAddress ie)"])
      (use n3 n4 fin run in \<open>simp add: same_knowledge_def\<close>)
qed

lemma simulates_jalr:
  assumes r: "ready ie inst s m" and t: "itype inst = I_JALR" and ok: "operands_ok inst" and d: "rd inst \<noteq> rs1 inst"
  shows "simulates h inst ie s m"
proof -
  have p: "profile m = None" "pc m = address inst" "represents (pins (emitter ie)) s m" "tracked_ok ie m"
    "current ie = Some inst"
    using r by (simp_all add: ready_def)
  obtain va vb where a: "eval (env_of s) (REG ie RS1) = Some va" "opnd va (reg m (rs1 inst))"
    by (rule ready_operands [OF r])
  let ?target = "immediate inst + reg m (rs1 inst)" and ?v = "address inst + 4"
  let ?st = "Assign CtxPc (Bin Add (Dec (sint (immediate inst))) (REG ie RS1))"
  let ?link = "Assign (REG ie RD) (Hex ?v)"
  let ?ie1 = "ie_emit ?st ie"
  have i: "- 2048 \<le> sint (immediate inst)" "sint (immediate inst) < 2048" using t ok by (auto simp: operands_ok_def)
  let ?s1 = "s\<lparr>ctx := (ctx s)\<lparr>pc := ?target\<rparr>\<rparr>"
  have first: "exec h ?st s = Running (?s1, Fall)"
    using eval_u32_imm(2) [OF a i(1)] i(2) by (simp add: assign_value_def)
  have "represents (pins (emitter ?ie1)) ?s1 m" using p(3) by simp
  then obtain s2 where s2: "exec_list h (if 0 < rd inst then [?link] else []) ?s1 = Running (s2, Fall)"
    "represents (pins (emitter ie)) s2 (next_reg (rd inst) ?v m)" "pc (ctx s2) = ?target"
    using exec_rd [of ?ie1 ?s1 m inst h ?link ?v] p(5) by auto
  have arms: "emit_arms inst ie = jump_tail inst (emit_rd ?link (rd inst) ?ie1)"
    using t by (simp add: arms_defs jump_tail_def Let_def emit_rd_def)
  obtain new where new: "stmts (emit_arms inst ie) = stmts (emit_rd ?link (rd inst) ?ie1) @ new"
    "same_knowledge (emit_rd ?link (rd inst) ?ie1) (emit_arms inst ie)"
    "\<exists>i fl b. exec_list h new s2 = Running (s2\<lparr>pcDispatchIndex := i, timerActive := b\<rparr>, fl)
          \<and> (fl = ToLabel (pc (ctx s2)) \<or> fl = ToLoop \<or> fl = ToDispatch \<and> i = (pc (ctx s2) - textStartAddress ie) div 4)"
    using jump_tail_added [of inst "emit_rd ?link (rd inst) ?ie1" h] unfolding arms text_frame by blast
  then obtain i fl b where last: "exec_list h new s2 = Running (s2\<lparr>pcDispatchIndex := i, timerActive := b\<rparr>, fl)"
    "fl = ToLabel (pc (ctx s2)) \<or> fl = ToLoop \<or> fl = ToDispatch \<and> i = (pc (ctx s2) - textStartAddress ie) div 4" by blast
  have "added ie (emit_arms inst ie) = [?st] @ (if 0 < rd inst then [?link] else []) @ new"
    by (rule added_append) (simp add: new)
  then have "exec_list h (added ie (emit_arms inst ie)) s = Running (s2\<lparr>pcDispatchIndex := i, timerActive := b\<rparr>, fl)"
    using first s2(1) last(1) by (simp add: exec_list_append)
  moreover have "runInstructionPredecoded h m inst = Running ((next_reg (rd inst) ?v m)\<lparr>pc := ?target\<rparr>)"
    using t p d by (simp add: runInstructionPredecoded_def predecoded_arms_def predecoded_groups finish_def next_reg_def set_reg_def)
  moreover have "tracked_ok (emit_arms inst ie) (next_reg (rd inst) ?v m)"
    by (rule tracked_next [OF p(4)]) (use new(2) in \<open>simp_all add: same_knowledge_def\<close>)
  moreover have "represents (pins (emitter ie)) (s2\<lparr>pcDispatchIndex := i, timerActive := b\<rparr>) (next_reg (rd inst) ?v m)"
    using s2(2) by simp
  ultimately show ?thesis using last(2) s2(3) by (auto simp: simulates_def)
qed

section \<open>Memory\<close>

lemma run_load:
  assumes "profile m = None" "predecoded_arms h m inst = load_then a r (\<lambda>v. Running (set_reg (rd inst) v m))"
  shows "runInstructionPredecoded h m inst = load_then a r (\<lambda>v. Running (next_reg (rd inst) v m))"
  using assms by (simp add: runInstructionPredecoded_def finish_def next_reg_def set_reg_def load_then_def split: option.splits)

lemma simulates_load_at:
  assumes r: "ready ie inst s m"
    and arms: "emit_arms inst ie = emit_rd (Load (REG ie RD) t e) (rd inst) ie1"
    and ie1: "stmts ie1 = stmts ie @ pre" "same_knowledge ie ie1"
    and pre: "exec_list h pre s = Running (s1, Fall)" "represents (pins (emitter ie)) s1 m"
    and e: "eval_u32 (env_of s1) e = Some a"
    and interp: "predecoded_arms h m inst = load_then a (read_access t (memory m) a) (\<lambda>v. Running (set_reg (rd inst) v m))"
    and ld: "is_load (itype inst) \<or> itype inst = I_LR_W"
  shows "simulates h inst ie s m"
proof -
  have p: "profile m = None" "pc m = address inst" "tracked_ok ie m" "current ie = Some inst"
    using r by (simp_all add: ready_def)
  have new: "added ie (emit_arms inst ie) = pre @ (if 0 < rd inst then [Load (REG ie RD) t e] else [])"
    by (rule added_append) (simp add: arms ie1)
  have mem: "memory (ctx s1) = memory m" using pre(2) by (simp add: represents_def)
  note run = run_load [OF p(1) interp]
  show ?thesis
  proof (cases "read_access t (memory m) a")
    case None
    have "tracked_ok (emit_arms inst ie) m"
      using p(3) ie1(2) by (auto simp: arms same_knowledge_def tracked_ok_def)
    with None show ?thesis using run e mem pre new ld
      by (cases "rd inst = 0") (auto simp: simulates_def discarded_load_def load_then_def exec_list_append word_gt_0)
  next
    case (Some v)
    obtain s' where "exec_list h (if 0 < rd inst then [Load (REG ie RD) t e] else []) s1 = Running (s', Fall)"
      "represents (pins (emitter ie)) s' (next_reg (rd inst) v m)"
      using exec_rd [OF pre(2) p(4), of h "Load (REG ie RD) t e" v] e mem Some by auto
    moreover have "tracked_ok (emit_arms inst ie) (next_reg (rd inst) v m)"
      by (rule tracked_next [OF p(3)]) (use ie1 in \<open>simp_all add: arms same_knowledge_def\<close>)
    ultimately show ?thesis using run Some pre(1) new p(2)
      by (auto simp: simulates_def load_then_def exec_list_append next_reg_def)
  qed
qed

lemma address_assigned:
  assumes r: "ready ie inst s m" and i: "- 2048 \<le> sint (immediate inst)" "sint (immediate inst) < 2048"
  obtains st where "emitLoadSaveAddress inst ie = ie_emit st ie"
    "exec h st s = Running (s\<lparr>address_var := reg m (rs1 inst) + immediate inst\<rparr>, Fall)"
proof -
  obtain va vb where a: "eval (env_of s) (REG ie RS1) = Some va" "opnd va (reg m (rs1 inst))"
    by (rule ready_operands [OF r])
  show thesis
  proof (cases "immediate inst = 0")
    case True
    show thesis
      by (rule that [of "Assign Address (REG ie RS1)"])
        (use True eval_u32_opnd [OF a] in \<open>simp_all add: emitLoadSaveAddress_def assign_value_def\<close>)
  next
    case False
    show thesis
      by (rule that [of "Assign Address (Bin Add (REG ie RS1) (Dec (sint (immediate inst))))"])
        (use False eval_u32_imm(1) [OF a i(1)] i in \<open>simp_all add: emitLoadSaveAddress_def assign_value_def\<close>)
  qed
qed

lemma eval_Address: "eval_u32 (env_of (s\<lparr>address_var := a\<rparr>)) Address = Some a"
  by (simp add: eval_u32_def env_of_def)

lemma load_then_map: "load_then a (map_option f x) g = load_then a x (\<lambda>v. g (f v))"
  by (simp add: load_then_def option.case_eq_if option.map_sel)

lemma simulates_load:
  assumes r: "ready ie inst s m" and t: "is_load (itype inst)" and ok: "operands_ok inst"
  shows "simulates h inst ie s m"
proof -
  let ?a = "reg m (rs1 inst) + immediate inst"
  have t: "itype inst \<in> {I_LB, I_LH, I_LW, I_LBU, I_LHU}" using t by (cases "itype inst") (simp_all add: is_load_def)
  then have i: "- 2048 \<le> sint (immediate inst)" "sint (immediate inst) < 2048"
    using ok by (auto simp: operands_ok_def)
  obtain st where st: "emitLoadSaveAddress inst ie = ie_emit st ie" "exec h st s = Running (s\<lparr>address_var := ?a\<rparr>, Fall)"
    by (rule address_assigned [OF r i])
  show ?thesis
  proof (rule simulates_load_at [OF r, of "load_access (itype inst)" Address "ie_emit st ie" "[st]" h "s\<lparr>address_var := ?a\<rparr>" ?a])
    show "emit_arms inst ie = emit_rd (Load (REG ie RD) (load_access (itype inst)) Address) (rd inst) (ie_emit st ie)"
      using t by (elim insertE emptyE) (simp_all add: arms_defs st load_access_def)
    show "predecoded_arms h m inst = load_then ?a (read_access (load_access (itype inst)) (memory m) ?a) (\<lambda>v. Running (set_reg (rd inst) v m))"
      using t r by (elim insertE emptyE)
        (simp_all add: arms_defs load_access_def read_access_def ready_def load_then_map set_reg_def Let_def)
  qed (use r st(2) \<open>is_load (itype inst)\<close> in \<open>simp_all add: same_knowledge_def eval_Address ready_def\<close>)
qed

lemma simulates_lr:
  assumes r: "ready ie inst s m" and t: "itype inst = I_LR_W"
  shows "simulates h inst ie s m"
proof -
  obtain va vb where a: "eval (env_of s) (REG ie RS1) = Some va" "opnd va (reg m (rs1 inst))"
    by (rule ready_operands [OF r])
  show ?thesis
    by (rule simulates_load_at [OF r, of A_u32 "REG ie RS1" ie "[]" h s "reg m (rs1 inst)"])
      (use r t eval_u32_opnd [OF a] in \<open>simp_all add: arms_defs same_knowledge_def read_access_def ready_def set_reg_def\<close>)
qed

lemma represents_memory:
  assumes "represents P s m"
  shows "represents P (s\<lparr>ctx := (ctx s)\<lparr>memory := x\<rparr>\<rparr>) (m\<lparr>memory := x\<rparr>)"
proof -
  have "guest_reg P (s\<lparr>ctx := (ctx s)\<lparr>memory := x\<rparr>\<rparr>) = guest_reg P s" by (simp add: guest_reg_def fun_eq_iff)
  with assms show ?thesis by (simp add: represents_def)
qed

lemma simulates_store:
  assumes r: "ready ie inst s m" and t: "is_store (itype inst)" and ok: "operands_ok inst"
  shows "simulates h inst ie s m"
proof -
  have p: "profile m = None" "pc m = address inst" "represents (pins (emitter ie)) s m" "tracked_ok ie m"
    using r by (simp_all add: ready_def)
  let ?a = "reg m (rs1 inst) + immediate inst" and ?t = "store_access (itype inst)"
  let ?s1 = "s\<lparr>address_var := ?a\<rparr>"
  have t: "itype inst \<in> {I_SB, I_SH, I_SW}" using t by (cases "itype inst") (simp_all add: is_store_def)
  then have no_load: "\<not> discarded_load inst" by (auto simp: discarded_load_def is_load_def)
  from t have i: "- 2048 \<le> sint (immediate inst)" "sint (immediate inst) < 2048"
    using ok by (auto simp: operands_ok_def)
  obtain st where st: "emitLoadSaveAddress inst ie = ie_emit st ie" "exec h st s = Running (?s1, Fall)"
    by (rule address_assigned [OF r i])
  have r1: "ready ie inst ?s1 m" using r by (simp add: ready_def)
  obtain va vb where b: "eval (env_of ?s1) (REG ie RS2) = Some vb" "opnd vb (reg m (rs2 inst))"
    by (rule ready_operands [OF r1])
  have mem: "memory (ctx s) = memory m" using p(3) by (simp add: represents_def)
  have arms: "emit_arms inst ie = ie_emit (Store ?t Address (REG ie RS2)) (ie_emit st ie)"
    using t by (elim insertE emptyE) (simp_all add: arms_defs st store_access_def)
  then have new: "added ie (emit_arms inst ie) = [st, Store ?t Address (REG ie RS2)]"
    by (intro added_append) simp
  have interp: "predecoded_arms h m inst = store_then ?a (write_access ?t (memory m) ?a (reg m (rs2 inst))) m"
    using t p(1) by (elim insertE emptyE)
      (simp_all add: arms_defs store_access_def write_access_def store_then_def Let_def split: option.splits)
  have tr: "tracked_ok (emit_arms inst ie) (m\<lparr>memory := x\<rparr>)" for x using p(4) by (simp add: arms tracked_ok_def)
  note e = eval_Address [where s = s and a = ?a] eval_u32_opnd [OF b]
  show ?thesis
  proof (cases "write_access ?t (memory m) ?a (reg m (rs2 inst))")
    case None
    then show ?thesis using interp e st(2) mem p(1)
      by (simp add: simulates_def no_load new runInstructionPredecoded_def store_then_def on_ctx_def)
  next
    case (Some x)
    then have "runInstructionPredecoded h m inst = Running (m\<lparr>memory := x, pc := address inst + 4\<rparr>)"
      using interp p represents_x0 [OF p(3)]
      by (simp add: runInstructionPredecoded_def store_then_def finish_x0)
    then show ?thesis using Some e st(2) mem tr represents_memory [OF represents_frame(2) [THEN iffD2, OF p(3)]]
      by (simp add: simulates_def new store_then_def on_ctx_def)
  qed
qed

section \<open>Services\<close>

lemma exec_spill:
  "exec_list h (spill rm) s =
     Running (s\<lparr>ctx := (ctx s)\<lparr>reg := override_on (reg (ctx s)) (host_reg s) (fst ` set rm)\<rparr>\<rparr>, Fall)"
proof (induction rm arbitrary: s)
  case (Cons p rm)
  let ?s = "s\<lparr>ctx := set_reg (fst p) (host_reg s (fst p)) (ctx s)\<rparr>"
  have "exec h (Assign (CtxReg (fst p)) (Host (fst p))) s = Running (?s, Fall)"
    by (simp add: eval_u32_def env_of_def assign_value_def)
  then show ?case
    using Cons [of ?s] by (simp add: spill_def split_def set_reg_def) (simp add: fun_eq_iff override_on_def)
qed (simp add: spill_def)

lemma exec_reload:
  "exec_list h (reload rm) s =
     Running (s\<lparr>host_reg := override_on (host_reg s) (reg (ctx s)) (fst ` set rm)\<rparr>, Fall)"
proof (induction rm arbitrary: s)
  case (Cons p rm)
  let ?s = "s\<lparr>host_reg := (host_reg s)(fst p := reg (ctx s) (fst p))\<rparr>"
  have "exec h (Assign (Host (fst p)) (CtxReg (fst p))) s = Running (?s, Fall)"
    by (simp add: eval_u32_def env_of_def assign_value_def)
  then show ?case
    using Cons [of ?s] by (simp add: reload_def split_def) (simp add: fun_eq_iff override_on_def)
qed (simp add: reload_def)

lemma pins_map: "pins em = fst ` set (pinned_map em)"
  by (simp add: pins_def pinned_map_def)

lemma emit_fold:
  "emitted (fold (\<lambda>(s, hst) em. emit (f s) em) rm em) = emitted em @ map (\<lambda>(s, hst). (indent em, f s)) rm
   \<and> options (fold (\<lambda>(s, hst) em. emit (f s) em) rm em) = options em
   \<and> registerMap (fold (\<lambda>(s, hst) em. emit (f s) em) rm em) = registerMap em"
  by (induction rm arbitrary: em) (auto simp: emit_def)

lemma stmts_spill [simp]:
  "stmts (on_emitter emitRegisterStore ie) = stmts ie @ spill (pinned_map (emitter ie))"
  "stmts (on_emitter emitRegisterLoad ie) = stmts ie @ reload (pinned_map (emitter ie))"
  "pinned_map (emitRegisterStore em) = pinned_map em" "pinned_map (emit st em) = pinned_map em"
  using emit_fold [of "\<lambda>s. Assign (CtxReg s) (Host s)" "registerMap (emitter ie)" "emitter ie"]
    emit_fold [of "\<lambda>s. Assign (Host s) (CtxReg s)" "registerMap (emitter ie)" "emitter ie"]
    emit_fold [of "\<lambda>s. Assign (CtxReg s) (Host s)" "registerMap em" em]
  by (simp_all add: stmts_def on_emitter_def emitRegisterStore_def emitRegisterLoad_def spill_def reload_def pinned_map_def
      split_def comp_def)

lemma pinned_map_ie [simp]:
  "pinned_map (emitter (ie_emit st ie)) = pinned_map (emitter ie)"
  "pinned_map (emitter (on_emitter emitRegisterStore ie)) = pinned_map (emitter ie)"
  by (simp_all add: ie_emit_def on_emitter_def)

lemma on_emitter_sel [simp]:
  "regKnown (on_emitter f ie) = regKnown ie" "regValues (on_emitter f ie) = regValues ie"
  by (simp_all add: on_emitter_def)

lemma spilled_context:
  assumes "represents P s m"
  shows "(ctx s)\<lparr>reg := override_on (reg (ctx s)) (host_reg s) P\<rparr> = m\<lparr>pc := pc (ctx s)\<rparr>"
proof -
  have "override_on (reg (ctx s)) (host_reg s) P = reg m"
    using assms by (simp add: represents_def guest_reg_def fun_eq_iff override_on_def)
  with assms show ?thesis by (cases m; cases "ctx s") (simp add: represents_def)
qed

lemma reloaded_represents:
  assumes "reg m 0 = 0" "0 \<notin> P"
  shows "represents P (s\<lparr>ctx := m\<lparr>pc := x\<rparr>, host_reg := override_on hr (reg m) P\<rparr>) m"
  using assms by (simp add: represents_def guest_reg_def)

lemma simulates_service:
  assumes r: "ready ie inst s m"
    and new: "added ie (emit_arms inst ie) = spill (pinned_map (emitter ie)) @ [st] @ reload (pinned_map (emitter ie))"
    and st: "\<And>s1 x. ctx s1 = m\<lparr>pc := x\<rparr> \<Longrightarrow> exec h st s1 = call_ctx s1 (omap (\<lambda>m. m\<lparr>pc := x\<rparr>) (predecoded_arms h m inst))"
    and keeps: "\<And>m'. predecoded_arms h m inst = Running m' \<Longrightarrow> reg m' 0 = 0 \<and> pc m' = pc m \<and> tracked_ok (emit_arms inst ie) m'"
    and defined: "predecoded_arms h m inst \<noteq> Undefined" and no_load: "\<not> discarded_load inst"
  shows "simulates h inst ie s m"
proof -
  have p: "profile m = None" "pc m = address inst" "represents (pins (emitter ie)) s m" "0 \<notin> pins (emitter ie)"
    using r by (simp_all add: ready_def represents_def)
  let ?s1 = "s\<lparr>ctx := m\<lparr>pc := pc (ctx s)\<rparr>\<rparr>"
  have spill: "exec_list h (spill (pinned_map (emitter ie))) s = Running (?s1, Fall)"
    using spilled_context [OF p(3)] by (simp add: exec_spill pins_map)
  have run: "exec_list h (added ie (emit_arms inst ie)) s =
      obind (call_ctx ?s1 (omap (\<lambda>m. m\<lparr>pc := pc (ctx s)\<rparr>) (predecoded_arms h m inst)))
        (\<lambda>(s', fl). if fl = Fall then exec_list h (reload (pinned_map (emitter ie))) s' else Running (s', fl))"
    using spill st [of ?s1 "pc (ctx s)"] by (simp add: new exec_list_append)
  have int: "runInstructionPredecoded h m inst = obind (predecoded_arms h m inst) finish"
    using p(1) by (simp add: runInstructionPredecoded_def)
  show ?thesis
  proof (cases "predecoded_arms h m inst")
    case (Running m')
    note k = keeps [OF Running]
    have "represents (pins (emitter ie)) (?s1\<lparr>ctx := m'\<lparr>pc := pc (ctx s)\<rparr>, host_reg := override_on (clobber s (host_reg s)) (reg m') (pins (emitter ie))\<rparr>) m'"
      using reloaded_represents [where s = s and x = "pc (ctx s)" and hr = "clobber s (host_reg s)" and m = m' and P = "pins (emitter ie)"] k p(4) by simp
    with Running k p(2) run int show ?thesis
      by (simp add: simulates_def call_ctx_def exec_reload finish_x0 pins_map)
  qed (use run int defined no_load in \<open>simp_all add: simulates_def call_ctx_def\<close>)
qed

lemma simulates_ecall:
  assumes r: "ready ie inst s m" and t: "itype inst = I_ECALL"
  shows "simulates h inst ie s m"
proof -
  have p: "profile m = None" "represents (pins (emitter ie)) s m" "tracked_ok ie m"
    using r by (simp_all add: ready_def)
  let ?st = "if regKnown ie REG_a7 then HandleNum (regValues ie REG_a7) else Handle"
  have arms: "predecoded_arms h m inst = handle_num h m (reg m REG_a7)"
    using t p(1) by (simp add: arms_defs handle_def)
  have known: "regKnown ie REG_a7 \<Longrightarrow> regValues ie REG_a7 = reg m REG_a7"
    using p(3) by (simp add: tracked_ok_def)
  show ?thesis
  proof (rule simulates_service [OF r, of ?st])
    show "added ie (emit_arms inst ie) = spill (pinned_map (emitter ie)) @ [?st] @ reload (pinned_map (emitter ie))"
      by (rule added_append) (use t in \<open>simp add: arms_defs Let_def\<close>)
    show "exec h ?st s1 = call_ctx s1 (omap (\<lambda>m. m\<lparr>pc := x\<rparr>) (predecoded_arms h m inst))" if "ctx s1 = m\<lparr>pc := x\<rparr>" for s1 x
      using known that by (simp add: arms handle_def pc_unseen.handle_num_unseen)
    show "reg m' 0 = 0 \<and> pc m' = pc m \<and> tracked_ok (emit_arms inst ie) m'" if run: "predecoded_arms h m inst = Running m'" for m'
    proof -
      have "syscall_frame m m'" using handle_num_frame [of m h "reg m REG_a7"] run by (simp add: arms)
      moreover have "regKnown (emit_arms inst ie) = (regKnown ie)(REG_a0 := False)" "regValues (emit_arms inst ie) = regValues ie"
        using t by (simp_all add: arms_defs Let_def)
      ultimately show ?thesis using p by (auto simp: syscall_frame_def represents_def tracked_ok_def)
    qed
    show "predecoded_arms h m inst \<noteq> Undefined" by (simp add: arms handle_num_defined)
    show "\<not> discarded_load inst" using t by (simp add: discarded_load_def is_load_def)
  qed
qed

lemma simulates_invalid:
  assumes r: "ready ie inst s m" and t: "itype inst = I_INVALID"
  shows "simulates h inst ie s m"
proof -
  have p: "profile m = None" "pc m = address inst" "represents (pins (emitter ie)) s m" "tracked_ok ie m"
    using r by (simp_all add: ready_def)
  have arms: "predecoded_arms h m inst = Running (print (Unsupported_instruction (address inst)) m)"
    using t p by (simp add: arms_defs)
  show ?thesis
  proof (rule simulates_service [OF r, of "PrintUnsupported (address inst)"])
    show "added ie (emit_arms inst ie) = spill (pinned_map (emitter ie)) @ [PrintUnsupported (address inst)] @ reload (pinned_map (emitter ie))"
      by (rule added_append) (use t in \<open>simp add: arms_defs\<close>)
    show "reg m' 0 = 0 \<and> pc m' = pc m \<and> tracked_ok (emit_arms inst ie) m'" if "predecoded_arms h m inst = Running m'" for m'
      using that p t by (auto simp: arms_defs print_def represents_def tracked_ok_def on_emitter_def ie_emit_def)
    show "\<not> discarded_load inst" using t by (simp add: discarded_load_def is_load_def)
  qed (simp_all add: arms print_pc)
qed

lemma simulates_sc:
  assumes r: "ready ie inst s m" and t: "itype inst = I_SC_W"
  shows "simulates h inst ie s m"
proof -
  have p: "profile m = None" "pc m = address inst" "represents (pins (emitter ie)) s m" "tracked_ok ie m"
    "current ie = Some inst"
    using r by (simp_all add: ready_def)
  obtain va vb where a: "eval (env_of s) (REG ie RS1) = Some va" "opnd va (reg m (rs1 inst))"
    and b: "eval (env_of s) (REG ie RS2) = Some vb" "opnd vb (reg m (rs2 inst))"
    by (rule ready_operands [OF r])
  let ?st = "Store A_u32 (REG ie RS1) (REG ie RS2)" and ?link = "Assign (REG ie RD) (Dec 0)"
  have arms: "emit_arms inst ie = emit_rd ?link (rd inst) (ie_emit ?st ie)"
    using t by (simp add: arms_defs)
  then have new: "added ie (emit_arms inst ie) = [?st] @ (if 0 < rd inst then [?link] else [])"
    by (intro added_append) simp
  have mem: "memory (ctx s) = memory m" using p(3) by (simp add: represents_def)
  have st: "exec h ?st s = on_ctx s (store_then (reg m (rs1 inst)) (write_u32 (memory m) (reg m (rs1 inst)) (reg m (rs2 inst))) (ctx s))"
    using eval_u32_opnd [OF a] eval_u32_opnd [OF b] mem by (simp add: write_access_def)
  show ?thesis
  proof (cases "write_u32 (memory m) (reg m (rs1 inst)) (reg m (rs2 inst))")
    case None
    then show ?thesis using st t p(1)
      by (simp add: simulates_def discarded_load_def is_load_def new runInstructionPredecoded_def predecoded_arms_def predecoded_groups store_then_def on_ctx_def)
  next
    case (Some x)
    let ?m = "m\<lparr>memory := x\<rparr>" and ?s = "s\<lparr>ctx := (ctx s)\<lparr>memory := x\<rparr>\<rparr>"
    obtain s' where "exec_list h (if 0 < rd inst then [?link] else []) ?s = Running (s', Fall)"
      "represents (pins (emitter ie)) s' (next_reg (rd inst) 0 ?m)"
      using exec_rd [OF represents_memory [OF p(3), of x] p(5), of h ?link 0] by auto
    moreover have "tracked_ok (emit_arms inst ie) (next_reg (rd inst) 0 ?m)"
      by (rule tracked_next [of ie]) (use p(4) in \<open>simp_all add: arms tracked_ok_def\<close>)
    moreover have "runInstructionPredecoded h m inst = Running (next_reg (rd inst) 0 ?m)"
      using t p Some
      by (simp add: runInstructionPredecoded_def predecoded_arms_def predecoded_groups finish_def next_reg_def set_reg_def store_then_def)
    ultimately show ?thesis using st Some p(2)
      by (simp add: simulates_def new exec_list_append store_then_def on_ctx_def next_reg_def)
  qed
qed

lemma simulates_all:
  assumes "ready ie inst s m" "operands_ok inst" "agreeing inst m"
  shows "simulates h inst ie s m"
proof -
  note r = assms(1)
  have "itype inst \<noteq> I_EBREAK \<and> itype inst \<noteq> I_FENCE \<and> itype inst \<noteq> I_TYPE_COUNT"
    using assms(3) by (simp add: agreeing_def)
  then consider "itype inst \<in> {I_ADD, I_SUB, I_XOR, I_OR, I_AND}" | "itype inst \<in> alu_types"
    | "itype inst \<in> {I_DIV, I_DIVU, I_REM, I_REMU}" | "itype inst = I_ADDI"
    | "itype inst \<in> shift_imm_types \<union> logic_imm_types" | "itype inst \<in> {I_LUI, I_AUIPC}"
    | "itype inst \<in> branch_types" | "itype inst = I_JAL" | "itype inst = I_JALR" | "is_load (itype inst)"
    | "itype inst = I_LR_W" | "is_store (itype inst)" | "itype inst = I_ECALL" | "itype inst = I_INVALID" | "itype inst = I_SC_W"
    by (cases "itype inst") (simp_all add: alu_types_def shift_imm_types_def logic_imm_types_def branch_types_def
        is_load_def is_store_def)
  then show ?thesis
  proof cases
    case 9
    then have "rd inst \<noteq> rs1 inst" using assms(3) by (simp add: agreeing_def)
    then show ?thesis by (rule simulates_jalr [OF r 9 assms(2)])
  qed (fact simulates_emitOp [OF r] simulates_alu [OF r] simulates_div [OF r _ assms(3)] simulates_addi [OF r _ assms(2)]
    simulates_imm [OF r _ assms(2)] simulates_upper [OF r _ assms(3)] simulates_branch [OF r] simulates_jal [OF r]
    simulates_load [OF r _ assms(2)] simulates_lr [OF r] simulates_store [OF r _ assms(2)] simulates_ecall [OF r]
    simulates_invalid [OF r] simulates_sc [OF r])+
qed

section \<open>Decoded instructions\<close>

lemma shift_operand: "getRS2 w = getShift w"
  by (simp add: getRS2_def getShift_def)

lemma decode_operands_ok: "operands_ok (decode w a)"
proof (cases "\<exists>spec\<in>set all_specs. spec_matches w spec")
  case True
  then obtain spec where spec: "spec \<in> set all_specs" "decode w a = decode_spec w a spec"
    using decode_eq_spec by blast
  have fits: "- 2048 \<le> sint (I_FMT_imm w)" "sint (I_FMT_imm w) < 2048" "- 2048 \<le> sint (S_FMT_imm w)" "sint (S_FMT_imm w) < 2048"
    using immediate_fits_decode [of FMT_I w] immediate_fits_decode [of FMT_S w] by simp_all
  from spec(1) show ?thesis
    unfolding spec(2) all_specs_def RV32I_def RV32M_def RV32A_def
    by (simp only: set_append list.set Un_iff insert_iff empty_iff)
      (elim disjE; simp add: operands_ok_def fits shift_operand shift_amount)
next
  case False
  then show ?thesis by (simp add: decode_eq_invalid blank_instruction_def operands_ok_def)
qed

lemma demo_ready:
  "regs 0 = 0 \<Longrightarrow> represents (pins (emitter (demo_ie w))) (demo_state regs) (demo_guest regs)"
  "tracked_ok (demo_ie w) (demo_guest regs)" "current (demo_ie w) = Some (decode w 0)"
  "profile (demo_guest regs) = None" "pc (demo_guest regs) = 0"
  by (simp_all add: represents_def guest_reg_def demo_state_def demo_guest_def boot_machine_def tracked_ok_def demo_ie_def
      new_InstructionEmitter_def new_Emitter_def pins_def x86RegisterMap_def default_options_def)

section \<open>Properties\<close>



text \<open>C37: The signed remainder of the most negative number by minus one is translated wrongly: generated code
  sets the register to \<^verbatim>\<open>0x80000000\<close>, where the interpreter and the manual have zero.\<close>

theorem rem_overflow_mistranslated:
  assumes "represents (pins (emitter ie)) s m" and "tracked_ok ie m" and "current ie = Some inst"
    and "profile m = None" and "itype inst = I_REM" and "rd inst \<noteq> 0"
    and "reg m (rs1 inst) = 0x80000000" and "reg m (rs2 inst) = 0xFFFFFFFF"
  shows "\<exists>s' m'. exec_list h (added ie (emit_arms inst ie)) s = Running (s', Fall)
    \<and> runInstructionPredecoded h m inst = Running m'
    \<and> guest_reg (pins (emitter ie)) s' (rd inst) = 0x80000000 \<and> reg m' (rd inst) = 0"
proof -
  let ?m = "m\<lparr>pc := address inst\<rparr>"
  have r: "ready ie inst s ?m" using assms by (simp add: ready_def)
  obtain va vb where a: "eval (env_of s) (REG ie RS1) = Some va" "opnd va (reg ?m (rs1 inst))"
    and b: "eval (env_of s) (REG ie RS2) = Some vb" "opnd vb (reg ?m (rs2 inst))"
    by (rule ready_operands [OF r])
  let ?st = "Branches [(Bin Eq (REG ie RS2) (Dec 0), REG ie RD, REG ie RS1),
      (Bin And (Bin Eq (REG ie RS1) (Hex 0x80000000)) (Bin Eq (REG ie RS2) (Hex 0xFFFFFFFF)), REG ie RD, Hex 0x80000000)]
      (REG ie RD) (Cast C_uint (Bin Mod (Cast C_int (REG ie RS1)) (Cast C_int (REG ie RS2))))"
  have "exec h ?st s = assign_value (REG ie RD) (Some 0x80000000) s"
    using eval_cond_zero [OF b] eval_cond_overflow [OF a b] assms(7,8) by simp
  then obtain s' where "exec_list h [?st] s = Running (s', Fall)"
    "represents (pins (emitter ie)) s' (next_reg (rd inst) 0x80000000 m)"
    using exec_rd [OF assms(1,3), of h ?st "0x80000000"] assms(6) by (auto simp: word_gt_0)
  moreover have "added ie (emit_arms inst ie) = [?st]"
    by (rule added_append) (use assms(5,6) in \<open>simp add: arms_defs Let_def word_gt_0\<close>)
  moreover have "runInstructionPredecoded h m inst = Running (next_reg (rd inst) 0 m)"
    by (rule run_set_reg) (use assms in \<open>simp_all add: arms_defs\<close>)
  ultimately show ?thesis using assms(6) by (auto simp: represents_def next_reg_def)
qed

theorem rem_overflow_mistranslated_witness:
  "\<exists>s' m'. exec_list recording_host (added (demo_ie 0x02C5E533) (emit_arms (decode 0x02C5E533 0) (demo_ie 0x02C5E533)))
       (demo_state ((\<lambda>_. 0)(11 := 0x80000000, 12 := 0xFFFFFFFF))) = Running (s', Fall)
    \<and> runInstructionPredecoded recording_host (demo_guest ((\<lambda>_. 0)(11 := 0x80000000, 12 := 0xFFFFFFFF))) (decode 0x02C5E533 0) = Running m'
    \<and> guest_reg (pins (emitter (demo_ie 0x02C5E533))) s' 10 = 0x80000000 \<and> reg m' 10 = 0"
proof -
  have d: "decode 0x02C5E533 0 = \<lparr>itype = I_REM, instruction = 0x02C5E533, immediate = 0, address = 0,
      rs1 = 11, rs2 = 12, rd = 10, handler = None\<rparr>" by code_simp
  show ?thesis
    using rem_overflow_mistranslated [OF demo_ready(1) demo_ready(2) demo_ready(3) demo_ready(4),
        of "(\<lambda>_. 0)(11 := 0x80000000, 12 := 0xFFFFFFFF)" "0x02C5E533" recording_host]
    by (simp add: d demo_guest_def boot_machine_def)
qed

text \<open>An \<^verbatim>\<open>auipc\<close> with a negative offset is not translated to C++: the offset is printed with its sign
  after \<^verbatim>\<open>0x\<close>.\<close>

theorem auipc_negative_offset:
  assumes "current ie = Some inst" and "itype inst = I_AUIPC" and "rd inst \<noteq> 0"
    and "sint (push_bit 12 (immediate inst)) < 0"
  shows "\<exists>l e. added ie (emit_arms inst ie) = [Assign l e] \<and> eval_u32 (env_of s) e = None
    \<and> expr_text e = ''0x'' @ format_HEX (address inst) @ '' + 0x-''
        @ map upper_digit (digits 16 (nat (- sint (push_bit 12 (immediate inst)))))"
proof -
  let ?e = "Bin Add (Hex (address inst)) (Hex_int (push_bit 12 (immediate inst)))"
  have "added ie (emit_arms inst ie) = [Assign (REG ie RD) ?e]"
    by (rule added_append) (use assms in \<open>simp add: arms_defs word_gt_0\<close>)
  with assms(4) show ?thesis by (auto simp: eval_u32_def)
qed

theorem auipc_negative_offset_witness:
  "\<exists>l e. added (demo_ie 0xFFFFF517) (emit_arms (decode 0xFFFFF517 0) (demo_ie 0xFFFFF517)) = [Assign l e]
    \<and> expr_text e = ''0x0 + 0x-1000''"
proof -
  have d: "decode 0xFFFFF517 0 = \<lparr>itype = I_AUIPC, instruction = 0xFFFFF517, immediate = 0xFFFFFFFF, address = 0,
      rs1 = 31, rs2 = 31, rd = 10, handler = None\<rparr>" by code_simp
  have "map upper_digit (digits 16 0) = ''0''" "map upper_digit (digits 16 4096) = ''1000''" by code_simp+
  moreover have "sint (push_bit 12 0xFFFFFFFF :: u32) = - 4096" by code_simp
  ultimately show ?thesis
    using auipc_negative_offset [OF demo_ready(3), of "0xFFFFF517" "demo_state (\<lambda>_. 0)"]
    by (auto simp: d format_HEX_def)
qed

end
