(* ===== verification/Elf.thy ===== *)
theory Elf
  imports Decoder Memory
begin

text \<open>
  Loading of executables: \<^verbatim>\<open>lib/elf/ElfBinarySection\<close> and \<^verbatim>\<open>lib/elf/ElfBinary\<close>.  What libelf finds in
  the file is the parameter \<open>libelf\<close>, with one field per library call the sources make; its
  answers are arbitrary.  The files' contents are read by \<^verbatim>\<open>load\<close>, after which the object holds
  the allocated sections as vectors of words.  Progress messages on standard output are left out.
\<close>

unbundle bit_operations_syntax

section \<open>Sections\<close>

datatype SectionType = Text | Data | Other

record SegmentInfo =
  virtualAddress :: u32
  loadAddress :: u32
  segment_flags :: u32

record ElfBinarySection =
  sec_name :: string
  startAddress :: u32
  sec_data :: "u32 list"
  sec_type :: SectionType
  segmentInfo :: SegmentInfo
  sectionFlags :: u64

definition SHF_ALLOC :: u64 where "SHF_ALLOC = 0x2"
definition SHF_EXECINSTR :: u64 where "SHF_EXECINSTR = 0x4"

definition resolveSectionType :: "u64 \<Rightarrow> SectionType" where
  "resolveSectionType flags =
     (if flags AND SHF_EXECINSTR \<noteq> 0 then Text
      else if flags AND SHF_ALLOC \<noteq> 0 then Data
      else Other)"

definition new_ElfBinarySection :: "string \<Rightarrow> u64 \<Rightarrow> u32 list \<Rightarrow> SegmentInfo \<Rightarrow> u64 \<Rightarrow> ElfBinarySection" where
  "new_ElfBinarySection name start words seg flags =
     \<lparr>sec_name = name, startAddress = ucast start, sec_data = words, sec_type = resolveSectionType flags,
      segmentInfo = seg, sectionFlags = flags\<rparr>"

definition getLoadAddress :: "ElfBinarySection \<Rightarrow> u32" where
  "getLoadAddress sec = loadAddress (segmentInfo sec) + (startAddress sec - virtualAddress (segmentInfo sec))"

definition getWordCount :: "ElfBinarySection \<Rightarrow> u32" where
  "getWordCount sec = of_nat (length (sec_data sec))"

definition getByteSize :: "ElfBinarySection \<Rightarrow> u32" where
  "getByteSize sec = of_nat (length (sec_data sec) * 4)"

definition getEndAddress :: "ElfBinarySection \<Rightarrow> u32" where
  "getEndAddress sec = startAddress sec + getByteSize sec"

text \<open>\<^verbatim>\<open>data[(address - startAddress) / 4]\<close>; an index outside the vector is undefined.\<close>

definition getWord :: "ElfBinarySection \<Rightarrow> u32 \<Rightarrow> u32 option" where
  "getWord sec addr =
     (let k = unat ((addr - startAddress sec) div 4)
      in if k < length (sec_data sec) then Some (sec_data sec ! k) else None)"

section \<open>The library\<close>

record GElf_Phdr =
  p_type :: u32
  p_vaddr :: u64
  p_paddr :: u64
  p_memsz :: u64
  p_flags :: u32

record GElf_Shdr =
  sh_type :: u32
  sh_flags :: u64
  sh_addr :: u64
  sh_size :: u64
  sh_entsize :: u64

text \<open>\<open>d_buf\<close> is the buffer the pointer points to (\<open>None\<close> for the null pointer); \<open>d_size\<close> says how much of it counts.\<close>

record Elf_Data =
  d_buf :: "u8 list option"
  d_size :: nat

text \<open>
  A section handle: its header, if \<^verbatim>\<open>gelf_getshdr\<close> finds it, its name, its data, and for symbol
  tables the name and value of each entry.
\<close>

record Elf_Scn =
  scn_header :: "GElf_Shdr option"
  scn_name :: "string option"
  scn_data :: "Elf_Data option"
  scn_symbol :: "nat \<Rightarrow> string option \<times> u64"

record libelf =
  l_version_ok :: bool
  l_open :: "string \<Rightarrow> bool"
  l_begin :: "string \<Rightarrow> bool"
  l_is_elf :: "string \<Rightarrow> bool"
  l_header :: "string \<Rightarrow> (u16 \<times> u64) option"
  l_phdrs :: "string \<Rightarrow> GElf_Phdr option list option"
  l_strings_ok :: "string \<Rightarrow> bool"
  l_sections :: "string \<Rightarrow> Elf_Scn list"

definition EM_RISCV :: u16 where "EM_RISCV = 243"
definition PT_LOAD :: u32 where "PT_LOAD = 1"
definition SHT_SYMTAB :: u32 where "SHT_SYMTAB = 2"

section \<open>The binary\<close>

datatype LoadResult = Success | FileNotFound | NotAnElf | LoadError | NotRISCV

record ElfBinary =
  elf_filename :: string
  sections :: "ElfBinarySection list"
  getTextStartAddress :: u32
  getTextEndAddress :: u32

definition new_ElfBinary :: "string \<Rightarrow> ElfBinary" where
  "new_ElfBinary name = \<lparr>elf_filename = name, sections = [], getTextStartAddress = 0, getTextEndAddress = 0\<rparr>"

text \<open>
  The words of a section: \<^verbatim>\<open>(d_size + 3) / 4\<close> of them, zero for a null buffer.  A word that reaches
  past the end of the buffer is read out of bounds (\<open>None\<close>).
\<close>

fun read_words :: "u8 list \<Rightarrow> nat \<Rightarrow> u32 list option" where
  "read_words buf 0 = Some []"
| "read_words buf (Suc n) =
     (if length buf < 4 then None else map_option (Cons (le_word (take 4 buf))) (read_words (drop 4 buf) n))"

definition section_words :: "Elf_Data \<Rightarrow> u32 list option" where
  "section_words d =
     (let count = (d_size d + 3) div 4
      in case d_buf d of None \<Rightarrow> Some (replicate count 0) | Some buf \<Rightarrow> read_words buf count)"

definition segment_contains :: "u64 \<Rightarrow> GElf_Phdr \<Rightarrow> bool" where
  "segment_contains addr phdr \<longleftrightarrow> p_vaddr phdr \<le> addr \<and> addr < p_vaddr phdr + p_memsz phdr"

text \<open>One section of the loop in \<^verbatim>\<open>decode\<close>: skipped (\<open>Some None\<close>), added, or read out of bounds.\<close>

definition decode_section :: "GElf_Phdr list \<Rightarrow> Elf_Scn \<Rightarrow> ElfBinarySection option option" where
  "decode_section loadSegments scn =
     (case (scn_header scn, scn_name scn) of
        (Some shdr, Some name) \<Rightarrow>
          if sh_flags shdr AND SHF_ALLOC = 0 then Some None
          else (case find (segment_contains (sh_addr shdr)) loadSegments of
                  None \<Rightarrow> Some None
                | Some seg \<Rightarrow>
                    (case scn_data scn of
                       None \<Rightarrow> Some None
                     | Some d \<Rightarrow>
                         map_option (\<lambda>words. Some (new_ElfBinarySection name (sh_addr shdr) words
                             \<lparr>virtualAddress = ucast (p_vaddr seg), loadAddress = ucast (p_paddr seg),
                              segment_flags = p_flags seg\<rparr> (sh_flags shdr)))
                           (section_words d)))
      | _ \<Rightarrow> Some None)"

fun decode_sections :: "GElf_Phdr list \<Rightarrow> Elf_Scn list \<Rightarrow> ElfBinarySection list option" where
  "decode_sections loadSegments [] = Some []"
| "decode_sections loadSegments (scn # scns) =
     (case decode_section loadSegments scn of
        None \<Rightarrow> None
      | Some None \<Rightarrow> decode_sections loadSegments scns
      | Some (Some sec) \<Rightarrow> map_option (Cons sec) (decode_sections loadSegments scns))"

definition decode_binary :: "libelf \<Rightarrow> ElfBinary \<Rightarrow> ElfBinary option" where
  "decode_binary lib bin =
     (case l_phdrs lib (elf_filename bin) of
        None \<Rightarrow> Some bin
      | Some phdrs \<Rightarrow>
          if \<not> l_strings_ok lib (elf_filename bin) then Some bin
          else map_option (\<lambda>secs. bin\<lparr>sections := sections bin @ secs\<rparr>)
                 (decode_sections (filter (\<lambda>phdr. p_type phdr = PT_LOAD) (List.map_filter id phdrs))
                    (l_sections lib (elf_filename bin))))"

fun text_bounds :: "ElfBinarySection list \<Rightarrow> (u32 \<times> u32) option \<Rightarrow> (u32 \<times> u32) option" where
  "text_bounds [] found = found"
| "text_bounds (sec # secs) found =
     (if sec_type sec \<noteq> Text then text_bounds secs found
      else (case found of
              None \<Rightarrow> text_bounds secs (Some (startAddress sec, getEndAddress sec))
            | Some (lo, hi) \<Rightarrow> text_bounds secs (Some (min lo (startAddress sec), max hi (getEndAddress sec)))))"

definition computeTextBounds :: "ElfBinary \<Rightarrow> ElfBinary" where
  "computeTextBounds bin =
     (case text_bounds (sections bin) None of
        None \<Rightarrow> bin
      | Some (lo, hi) \<Rightarrow> bin\<lparr>getTextStartAddress := lo, getTextEndAddress := hi\<rparr>)"

text \<open>\<open>None\<close>: reading a section ran past its buffer.\<close>

definition load :: "libelf \<Rightarrow> ElfBinary \<Rightarrow> (LoadResult \<times> ElfBinary) option" where
  "load lib bin =
     (if \<not> l_version_ok lib then Some (LoadError, bin)
      else if \<not> l_open lib (elf_filename bin) then Some (FileNotFound, bin)
      else if \<not> l_begin lib (elf_filename bin) then Some (LoadError, bin)
      else if \<not> l_is_elf lib (elf_filename bin) then Some (NotAnElf, bin)
      else (case l_header lib (elf_filename bin) of
              None \<Rightarrow> Some (LoadError, bin)
            | Some (e_machine, e_entry) \<Rightarrow>
                if e_machine \<noteq> EM_RISCV then Some (NotRISCV, bin)
                else map_option (\<lambda>bin'. (Success, computeTextBounds bin')) (decode_binary lib bin)))"

section \<open>Queries\<close>

definition getSection_type :: "ElfBinary \<Rightarrow> SectionType \<Rightarrow> ElfBinarySection option" where
  "getSection_type bin t = find (\<lambda>sec. sec_type sec = t) (sections bin)"

definition getSection_name :: "ElfBinary \<Rightarrow> string \<Rightarrow> ElfBinarySection option" where
  "getSection_name bin name = find (\<lambda>sec. sec_name sec = name) (sections bin)"

definition getTypeSections :: "ElfBinary \<Rightarrow> SectionType \<Rightarrow> ElfBinarySection list" where
  "getTypeSections bin t = filter (\<lambda>sec. sec_type sec = t) (sections bin)"

definition getTextWordCount :: "ElfBinary \<Rightarrow> u32" where
  "getTextWordCount bin = (getTextEndAddress bin - getTextStartAddress bin) div 4"

definition getEntryAddress :: "libelf \<Rightarrow> ElfBinary \<Rightarrow> u32" where
  "getEntryAddress lib bin = (case l_header lib (elf_filename bin) of Some (mach, e) \<Rightarrow> ucast e | None \<Rightarrow> 0)"

text \<open>
  The first symbol of that name in the first symbol table; \<open>None\<close> is \<^verbatim>\<open>std::nullopt\<close>.  The count is an
  \<^verbatim>\<open>int\<close>, negative counts give no iteration.  (A symbol table has a non-zero entry size.)
\<close>

fun find_symbol :: "(nat \<Rightarrow> string option \<times> u64) \<Rightarrow> string \<Rightarrow> nat \<Rightarrow> nat \<Rightarrow> u32 option" where
  "find_symbol tab name i 0 = None"
| "find_symbol tab name i (Suc n) =
     (if fst (tab i) = Some name then Some (ucast (snd (tab i))) else find_symbol tab name (Suc i) n)"

fun symbol_in :: "Elf_Scn list \<Rightarrow> string \<Rightarrow> u32 option" where
  "symbol_in [] name = None"
| "symbol_in (scn # scns) name =
     (case scn_header scn of
        None \<Rightarrow> symbol_in scns name
      | Some shdr \<Rightarrow>
          if sh_type shdr = SHT_SYMTAB
          then find_symbol (scn_symbol scn) name 0 (nat (sint (ucast (sh_size shdr div sh_entsize shdr) :: i32)))
          else symbol_in scns name)"

definition getSymbolAddress :: "libelf \<Rightarrow> ElfBinary \<Rightarrow> string \<Rightarrow> u32 option" where
  "getSymbolAddress lib bin name = symbol_in (l_sections lib (elf_filename bin)) name"

section \<open>Decoding and loading\<close>

fun decode_words :: "u32 \<Rightarrow> u32 list \<Rightarrow> Instruction list" where
  "decode_words addr [] = []"
| "decode_words addr (w # ws) = decode w addr # decode_words (addr + 4) ws"

definition decodeToContainer :: "ElfBinary \<Rightarrow> Instruction list" where
  "decodeToContainer bin =
     concat (map (\<lambda>sec. decode_words (startAddress sec) (sec_data sec)) (getTypeSections bin Text))"

text \<open>Consecutive words; the result is the memory and the address after the last one.\<close>

fun write_words :: "Memory \<Rightarrow> u32 \<Rightarrow> u32 list \<Rightarrow> (Memory \<times> u32) option" where
  "write_words m addr [] = Some (m, addr)"
| "write_words m addr (w # ws) =
     (case write_u32 m addr w of None \<Rightarrow> None | Some m' \<Rightarrow> write_words m' (addr + 4) ws)"

fun load_sections :: "ElfBinarySection list \<Rightarrow> Memory \<Rightarrow> u32 \<Rightarrow> (Memory \<times> u32) option" where
  "load_sections [] m dataEnd = Some (m, dataEnd)"
| "load_sections (sec # secs) m dataEnd =
     (if getSize < getLoadAddress sec + getByteSize sec then load_sections secs m dataEnd
      else (case write_words m (getLoadAddress sec) (sec_data sec) of
              None \<Rightarrow> None
            | Some (m', addr) \<Rightarrow> load_sections secs m' (if dataEnd < addr then addr else dataEnd)))"

definition loadToMemory :: "ElfBinary \<Rightarrow> Memory \<Rightarrow> (Memory \<times> u32) option" where
  "loadToMemory bin m = load_sections (sections bin) m 0"

section \<open>What a well-formed binary is\<close>

text \<open>A section that the bounds check accepts without wrapping around, and sections apart from each other.\<close>

definition section_fits :: "ElfBinarySection \<Rightarrow> bool" where
  "section_fits sec \<longleftrightarrow> unat (getLoadAddress sec) + 4 * length (sec_data sec) \<le> unat getSize"

definition sections_apart :: "ElfBinarySection \<Rightarrow> ElfBinarySection \<Rightarrow> bool" where
  "sections_apart sec sec' \<longleftrightarrow>
     disjoint_ranges (getLoadAddress sec) (4 * length (sec_data sec)) (getLoadAddress sec') (4 * length (sec_data sec'))"

definition loads_as :: "Memory \<Rightarrow> ElfBinarySection \<Rightarrow> bool" where
  "loads_as m sec \<longleftrightarrow> (\<forall>k<length (sec_data sec). read_u32 m (getLoadAddress sec + of_nat (4 * k)) = Some (sec_data sec ! k))"

text \<open>A section of a segment that is loaded where it runs, and a binary with code and data.\<close>

definition demo_section :: "string \<Rightarrow> u64 \<Rightarrow> u32 list \<Rightarrow> u64 \<Rightarrow> ElfBinarySection" where
  "demo_section name start words flags = new_ElfBinarySection name start words
     \<lparr>virtualAddress = 0, loadAddress = 0, segment_flags = 5\<rparr> flags"

definition demo_binary :: ElfBinary where
  "demo_binary = computeTextBounds ((new_ElfBinary ''a.out'')\<lparr>sections :=
     [demo_section ''.text'' 0x100 [0x00500513, 0x00000073] 6, demo_section ''.data'' 0x200 [0x104] 3]\<rparr>)"

section \<open>Words in memory\<close>

lemma length_decode_words [simp]: "length (decode_words a ws) = length ws"
  by (induction a ws rule: decode_words.induct) simp_all

lemma nth_decode_words: "k < length ws \<Longrightarrow> decode_words a ws ! k = decode (ws ! k) (a + of_nat (4 * k))"
proof (induction a ws arbitrary: k rule: decode_words.induct)
  case (2 a w ws)
  then show ?case by (cases k) (simp_all add: add.assoc)
qed simp

lemma getSize_eq: "unat getSize = 0x80000"
  by (simp add: getSize_def DATA_SIZE_def)

lemma mem_read_write_u32:
  "write_u32 m a w = Some m' \<Longrightarrow> disjoint_ranges a 4 b n \<Longrightarrow> mem_read m' b n = mem_read m b n"
  using mem_read_write_other [of m a "le_bytes 4 w" m' b n] by (simp add: write_defs)

lemma read_u32_write_same: "write_u32 m a w = Some m' \<Longrightarrow> read_u32 m' a = Some w"
  using mem_read_write_same [of m a "le_bytes 4 w" m']
  by (simp add: read_defs write_defs le_word_le_bytes take_bit_word_eq_self)

lemma unat_word_address:
  fixes a :: u32
  assumes "unat a + 4 * n \<le> data_length" "k \<le> n"
  shows "unat (a + of_nat (4 * k)) = unat a + 4 * k"
proof -
  have "4 * k < 2 ^ 32" "unat a + 4 * k < 2 ^ 32" using assms by (simp_all add: data_length_eq)
  then show ?thesis by (simp add: unat_word_ariths unat_of_nat)
qed

lemma read_u32_cong: "mem_read m' b 4 = mem_read m b 4 \<Longrightarrow> read_u32 m' b = read_u32 m b"
  by (simp add: read_defs)

lemma write_words_ok:
  assumes "unat a + 4 * length ws \<le> data_length"
  shows "\<exists>m'. write_words m a ws = Some (m', a + of_nat (4 * length ws))
    \<and> (\<forall>k<length ws. read_u32 m' (a + of_nat (4 * k)) = Some (ws ! k))
    \<and> (\<forall>b n. disjoint_ranges a (4 * length ws) b n \<longrightarrow> mem_read m' b n = mem_read m b n)
    \<and> m'\<lparr>mem_data := mem_data m\<rparr> = m"
  using assms
proof (induction ws arbitrary: m a)
  case (Cons w ws)
  have "in_bounds a 4" using Cons.prems by (simp add: in_bounds_def)
  then obtain m1 where m1: "write_u32 m a w = Some m1" "m1\<lparr>mem_data := mem_data m\<rparr> = m"
    by (auto simp: write_u32_def mem_write_def)
  have next_a: "unat (a + 4) = unat a + 4"
    using unat_word_address [of a "length (w # ws)" 1] Cons.prems by simp
  then obtain m' where m': "write_words m1 (a + 4) ws = Some (m', a + 4 + of_nat (4 * length ws))"
    "\<forall>k<length ws. read_u32 m' (a + 4 + of_nat (4 * k)) = Some (ws ! k)"
    "\<forall>b n. disjoint_ranges (a + 4) (4 * length ws) b n \<longrightarrow> mem_read m' b n = mem_read m1 b n"
    "m'\<lparr>mem_data := mem_data m1\<rparr> = m1"
    using Cons.IH [of "a + 4" m1] Cons.prems by auto
  have "read_u32 m' a = read_u32 m1 a"
    using m'(3) next_a by (intro read_u32_cong) (simp add: disjoint_ranges_def)
  then have first: "read_u32 m' a = Some w" using read_u32_write_same [OF m1(1)] by simp
  have "read_u32 m' (a + of_nat (4 * k)) = Some ((w # ws) ! k)" if "k < length (w # ws)" for k
    using that m'(2) first by (cases k) (simp_all add: algebra_simps)
  moreover have "mem_read m' b n = mem_read m b n" if "disjoint_ranges a (4 * length (w # ws)) b n" for b n
  proof -
    have "disjoint_ranges (a + 4) (4 * length ws) b n" "disjoint_ranges a 4 b n"
      using that next_a by (auto simp: disjoint_ranges_def)
    then show ?thesis using m'(3) mem_read_write_u32 [OF m1(1)] by simp
  qed
  moreover have "m'\<lparr>mem_data := mem_data m\<rparr> = m" using m'(4) m1(2) by (cases m; cases m1; cases m') simp
  ultimately show ?case using m1(1) m'(1) by (intro exI [of _ m']) (simp add: algebra_simps)
qed simp

lemma section_fits_checked:
  assumes "section_fits sec"
  shows "\<not> getSize < getLoadAddress sec + getByteSize sec" "unat (getLoadAddress sec) + 4 * length (sec_data sec) \<le> data_length"
    "unat (getLoadAddress sec + getByteSize sec) = unat (getLoadAddress sec) + 4 * length (sec_data sec)"
proof -
  show b: "unat (getLoadAddress sec) + 4 * length (sec_data sec) \<le> data_length"
    using assms by (simp add: section_fits_def getSize_eq data_length_eq)
  show e: "unat (getLoadAddress sec + getByteSize sec) = unat (getLoadAddress sec) + 4 * length (sec_data sec)"
    using unat_word_address [OF b order_refl] by (simp add: getByteSize_def mult.commute)
  show "\<not> getSize < getLoadAddress sec + getByteSize sec"
    using assms e by (simp add: section_fits_def word_less_nat_alt)
qed

lemma load_sections_ok:
  assumes "list_all section_fits secs" "sorted_wrt sections_apart secs"
  shows "\<exists>m' e. load_sections secs m e0 = Some (m', e) \<and> list_all (loads_as m') secs
    \<and> (\<forall>b n. (\<forall>sec\<in>set secs. disjoint_ranges (getLoadAddress sec) (4 * length (sec_data sec)) b n) \<longrightarrow>
         mem_read m' b n = mem_read m b n)
    \<and> m'\<lparr>mem_data := mem_data m\<rparr> = m
    \<and> e = fold max (map (\<lambda>sec. getLoadAddress sec + getByteSize sec) secs) e0"
  using assms
proof (induction secs arbitrary: m e0)
  case (Cons sec secs)
  have fits: "section_fits sec" using Cons.prems by simp
  note checked = section_fits_checked [OF fits]
  obtain m1 where m1: "write_words m (getLoadAddress sec) (sec_data sec) = Some (m1, getLoadAddress sec + getByteSize sec)"
    "\<forall>k<length (sec_data sec). read_u32 m1 (getLoadAddress sec + of_nat (4 * k)) = Some (sec_data sec ! k)"
    "\<forall>b n. disjoint_ranges (getLoadAddress sec) (4 * length (sec_data sec)) b n \<longrightarrow> mem_read m1 b n = mem_read m b n"
    "m1\<lparr>mem_data := mem_data m\<rparr> = m"
    using write_words_ok [OF checked(2), of m] by (auto simp: getByteSize_def mult.commute)
  let ?e = "max e0 (getLoadAddress sec + getByteSize sec)"
  obtain m' e where m': "load_sections secs m1 ?e = Some (m', e)" "list_all (loads_as m') secs"
    "\<And>b n. \<forall>sec\<in>set secs. disjoint_ranges (getLoadAddress sec) (4 * length (sec_data sec)) b n \<Longrightarrow>
       mem_read m' b n = mem_read m1 b n"
    "m'\<lparr>mem_data := mem_data m1\<rparr> = m1"
    "e = fold max (map (\<lambda>sec. getLoadAddress sec + getByteSize sec) secs) ?e"
    using Cons.IH [of m1 ?e] Cons.prems by auto
  have "loads_as m' sec"
    unfolding loads_as_def
  proof (intro allI impI)
    fix k assume k: "k < length (sec_data sec)"
    have "unat (getLoadAddress sec + of_nat (4 * k)) = unat (getLoadAddress sec) + 4 * k"
      using unat_word_address [OF checked(2)] k by simp
    then have "\<forall>s\<in>set secs. disjoint_ranges (getLoadAddress s) (4 * length (sec_data s)) (getLoadAddress sec + of_nat (4 * k)) 4"
      using Cons.prems(2) k by (auto simp: sections_apart_def disjoint_ranges_def)
    then show "read_u32 m' (getLoadAddress sec + of_nat (4 * k)) = Some (sec_data sec ! k)"
      using read_u32_cong [OF m'(3)] m1(2) k by simp
  qed
  moreover have "m'\<lparr>mem_data := mem_data m\<rparr> = m" using m'(4) m1(4) by (cases m; cases m1; cases m') simp
  moreover have "(if e0 < x then x else e0) = max e0 x" for x :: u32 by (auto simp: max_def)
  then have "load_sections (sec # secs) m e0 = Some (m', e)"
    using checked(1) m1(1) m'(1) by simp
  ultimately show ?case using m' m1(3) by (intro exI [of _ m'] exI [of _ e]) (simp add: max.commute)
qed simp

lemma fold_max_ge: "e0 \<le> fold max xs (e0 :: u32) \<and> (\<forall>x\<in>set xs. x \<le> fold max xs e0)"
proof (induction xs arbitrary: e0)
  case (Cons x xs)
  show ?case using Cons [of "max x e0"] by (auto intro: order_trans [OF max.cobounded1] order_trans [OF max.cobounded2])
qed simp

section \<open>Bounds of the code\<close>

lemma text_bounds_spec:
  "text_bounds secs found = (case (filter (\<lambda>sec. sec_type sec = Text) secs, found) of
     ([], _) \<Rightarrow> found
   | (sec # rest, None) \<Rightarrow> Some (fold min (map startAddress rest) (startAddress sec), fold max (map getEndAddress rest) (getEndAddress sec))
   | (secs', Some (lo, hi)) \<Rightarrow> Some (fold min (map startAddress secs') lo, fold max (map getEndAddress secs') hi))"
proof (induction secs found rule: text_bounds.induct)
  case (2 sec secs found)
  then show ?case
    by (cases found; cases "filter (\<lambda>sec. sec_type sec = Text) secs") (auto simp: min.commute max.commute)
qed (auto split: option.splits)

lemma fold_min_le: "fold min xs (e0 :: u32) \<le> e0 \<and> (\<forall>x\<in>set xs. fold min xs e0 \<le> x)"
proof (induction xs arbitrary: e0)
  case (Cons x xs)
  show ?case using Cons [of "min x e0"] by (auto intro: order_trans [OF _ min.cobounded1] order_trans [OF _ min.cobounded2])
qed simp

lemma fold_max_in: "fold max xs (e0 :: u32) \<in> insert e0 (set xs)"
proof (induction xs arbitrary: e0)
  case (Cons x xs)
  show ?case using Cons [of "max x e0"] by (auto simp: max_def split: if_splits)
qed simp

lemma fold_min_in: "fold min xs (e0 :: u32) \<in> insert e0 (set xs)"
proof (induction xs arbitrary: e0)
  case (Cons x xs)
  show ?case using Cons [of "min x e0"] by (auto simp: min_def split: if_splits)
qed simp

lemma demo_binary_sections:
  "sections demo_binary = [demo_section ''.text'' 0x100 [0x00500513, 0x00000073] 6, demo_section ''.data'' 0x200 [0x104] 3]"
  "getTextStartAddress demo_binary = 0x100" "getTextEndAddress demo_binary = 0x108"
  by (simp_all add: demo_binary_def computeTextBounds_def new_ElfBinary_def demo_section_def new_ElfBinarySection_def
      resolveSectionType_def SHF_EXECINSTR_def SHF_ALLOC_def getEndAddress_def getByteSize_def)

lemma demo_binary_layout:
  "list_all section_fits (sections demo_binary)" "sorted_wrt sections_apart (sections demo_binary)"
  by (simp_all add: demo_binary_sections section_fits_def sections_apart_def disjoint_ranges_def demo_section_def
      new_ElfBinarySection_def getLoadAddress_def getSize_def DATA_SIZE_def)

lemma read_words_None: "length buf < 4 * n \<Longrightarrow> read_words buf n = None"
  by (induction buf n rule: read_words.induct) auto

section \<open>Properties\<close>

text \<open>C18: Loading puts every section where the program headers say.  If the sections fit into the loadable
  memory and do not overlap, all of them are loaded: each word can be read back at its load address,
  the returned address is at or above the end of every section, and no other byte of memory changes.\<close>

theorem loadToMemory_loads:
  assumes "list_all section_fits (sections bin)" and "sorted_wrt sections_apart (sections bin)"
  shows "\<exists>m' e. loadToMemory bin m = Some (m', e)
    \<and> (\<forall>sec\<in>set (sections bin). loads_as m' sec \<and> getLoadAddress sec + getByteSize sec \<le> e)
    \<and> (\<forall>b n. (\<forall>sec\<in>set (sections bin). disjoint_ranges (getLoadAddress sec) (4 * length (sec_data sec)) b n) \<longrightarrow>
         mem_read m' b n = mem_read m b n)"
proof -
  obtain m' e where "load_sections (sections bin) m 0 = Some (m', e)" "list_all (loads_as m') (sections bin)"
    "\<forall>b n. (\<forall>sec\<in>set (sections bin). disjoint_ranges (getLoadAddress sec) (4 * length (sec_data sec)) b n) \<longrightarrow>
         mem_read m' b n = mem_read m b n"
    "e = fold max (map (\<lambda>sec. getLoadAddress sec + getByteSize sec) (sections bin)) 0"
    using load_sections_ok [OF assms, of m 0] by blast
  then show ?thesis
    using fold_max_ge [of 0 "map (\<lambda>sec. getLoadAddress sec + getByteSize sec) (sections bin)"]
    by (auto simp: loadToMemory_def list_all_iff)
qed

theorem loadToMemory_loads_witness:
  "\<exists>m' e. loadToMemory demo_binary new_Memory = Some (m', e) \<and> read_u32 m' 0x104 = Some 0x73 \<and> 0x204 \<le> e"
proof -
  obtain m' e where l: "loadToMemory demo_binary new_Memory = Some (m', e)"
    "\<forall>sec\<in>set (sections demo_binary). loads_as m' sec \<and> getLoadAddress sec + getByteSize sec \<le> e"
    using loadToMemory_loads [OF demo_binary_layout, of new_Memory] by blast
  have "loads_as m' (demo_section ''.text'' 0x100 [0x00500513, 0x00000073] 6)"
    using l(2) by (simp add: demo_binary_sections)
  then have "read_u32 m' 0x104 = Some 0x73"
    unfolding loads_as_def
    by (elim allE [of _ 1]) (simp add: demo_section_def new_ElfBinarySection_def getLoadAddress_def)
  with l show ?thesis
    by (simp add: demo_binary_sections demo_section_def new_ElfBinarySection_def getLoadAddress_def getByteSize_def)
qed

text \<open>The bounds of the code are exactly the span of the executable sections: no executable section
  starts before or ends after them, and both are attained.\<close>

theorem computeTextBounds_spans:
  assumes "getTypeSections bin Text \<noteq> []"
  shows "(\<forall>sec\<in>set (getTypeSections bin Text).
       getTextStartAddress (computeTextBounds bin) \<le> startAddress sec \<and> getEndAddress sec \<le> getTextEndAddress (computeTextBounds bin))
    \<and> getTextStartAddress (computeTextBounds bin) \<in> startAddress ` set (getTypeSections bin Text)
    \<and> getTextEndAddress (computeTextBounds bin) \<in> getEndAddress ` set (getTypeSections bin Text)"
proof -
  obtain sec rest where t: "filter (\<lambda>sec. sec_type sec = Text) (sections bin) = sec # rest"
    using assms by (cases "filter (\<lambda>sec. sec_type sec = Text) (sections bin)") (simp_all add: getTypeSections_def)
  then have b: "getTextStartAddress (computeTextBounds bin) = fold min (map startAddress rest) (startAddress sec)"
    "getTextEndAddress (computeTextBounds bin) = fold max (map getEndAddress rest) (getEndAddress sec)"
    by (simp_all add: computeTextBounds_def text_bounds_spec)
  show ?thesis
    unfolding b getTypeSections_def t
    using fold_min_le [of "map startAddress rest" "startAddress sec"] fold_max_ge [of "getEndAddress sec" "map getEndAddress rest"]
      fold_min_in [of "map startAddress rest" "startAddress sec"] fold_max_in [of "map getEndAddress rest" "getEndAddress sec"]
    by simp
qed

theorem computeTextBounds_spans_witness:
  "getTextStartAddress (computeTextBounds demo_binary) \<le> 0x100 \<and> getTypeSections demo_binary Text \<noteq> []"
proof -
  have t: "getTypeSections demo_binary Text = [demo_section ''.text'' 0x100 [0x00500513, 0x00000073] 6]"
    by (simp add: getTypeSections_def demo_binary_sections demo_section_def new_ElfBinarySection_def
        resolveSectionType_def SHF_EXECINSTR_def SHF_ALLOC_def)
  then show ?thesis
    using computeTextBounds_spans [of demo_binary] by (simp add: demo_section_def new_ElfBinarySection_def)
qed

text \<open>A section whose size is not a multiple of four is read past its end: the last word is taken whole,
  although the buffer that holds the section ends inside it.\<close>

theorem section_overread:
  assumes "d_buf d = Some buf" and "length buf = d_size d" and "d_size d mod 4 \<noteq> 0"
  shows "section_words d = None"
proof -
  have "length buf < 4 * ((d_size d + 3) div 4)" using assms(2,3) by presburger
  then show ?thesis using assms(1) read_words_None by (simp add: section_words_def)
qed

theorem section_overread_witness:
  "section_words \<lparr>d_buf = Some [1, 2, 3, 4, 5], d_size = 5\<rparr> = None"
  using section_overread [of "\<lparr>d_buf = Some [1, 2, 3, 4, 5], d_size = 5\<rparr>"] by simp

end
