(* ===== verification/BasicBlocks.thy ===== *)
theory BasicBlocks
  imports Elf Emitter Profiling
begin

text \<open>
  Discovery of jump targets, \<^verbatim>\<open>sbt/analysis/BasicBlocks.cpp\<close>: the leaders are the addresses that get
  a label in generated code.  They are collected from the instructions, from recorded indirect
  branches and from words in data sections that look like code addresses.
\<close>

section \<open>Collection\<close>

definition getAllBranchTargets :: "ProfilingInfo \<Rightarrow> IndirectBranchTargets" where
  "getAllBranchTargets info = indirectBranchTargets info"

definition add_leaders :: "Instruction \<Rightarrow> u32 set \<Rightarrow> u32 set" where
  "add_leaders inst lds =
     (if itype inst = I_BEQ \<or> itype inst = I_BNE \<or> itype inst = I_BLT \<or> itype inst = I_BGE
         \<or> itype inst = I_BLTU \<or> itype inst = I_BGEU \<or> itype inst = I_JAL
      then insert (address inst + 4) (insert (address inst + immediate inst) lds)
      else if itype inst = I_JALR then insert (address inst + 4) lds
      else lds)"

fun getLeaders :: "Instruction list \<Rightarrow> TranslationOptions \<Rightarrow> ProfilingInfo \<Rightarrow> u32 set" where
  "getLeaders [] opts info = {}"
| "getLeaders (first # rest) opts info =
     (let lds = fold add_leaders (first # rest) {address first}
      in if useProfilingData opts
         then fold (\<lambda>(branch, targets). fold (\<lambda>target. insert (fst target)) targets) (getAllBranchTargets info) lds
         else lds)"

text \<open>The set together with the number of addresses that were new.\<close>

definition harvest_word :: "u32 \<Rightarrow> u32 \<Rightarrow> u32 \<Rightarrow> u32 set \<times> u32 \<Rightarrow> u32 set \<times> u32" where
  "harvest_word textStart textEnd a = (\<lambda>(lds, discovered).
     if textStart \<le> a \<and> a < textEnd
     then (insert a lds, discovered + (if a \<in> lds then 0 else 1))
     else (lds, discovered))"

definition harvestStaticData :: "ElfBinary \<Rightarrow> u32 set \<Rightarrow> u32 set \<times> u32" where
  "harvestStaticData bin lds =
     fold (\<lambda>sec. fold (harvest_word (getTextStartAddress bin) (getTextEndAddress bin)) (sec_data sec))
       (getTypeSections bin Data) (lds, 0)"

section \<open>Reference\<close>

text \<open>Where control may go from an instruction, as far as the instruction says; a \<^verbatim>\<open>jalr\<close> says where it returns to.\<close>

definition static_targets :: "Instruction \<Rightarrow> u32 set" where
  "static_targets inst =
     (if itype inst \<in> {I_BEQ, I_BNE, I_BLT, I_BGE, I_BLTU, I_BGEU, I_JAL}
      then {address inst + immediate inst, address inst + 4}
      else if itype inst = I_JALR then {address inst + 4} else {})"

definition recorded_targets :: "ProfilingInfo \<Rightarrow> u32 set" where
  "recorded_targets info = (\<Union>(branch, targets)\<in>set (indirectBranchTargets info). fst ` set targets)"

definition data_targets :: "ElfBinary \<Rightarrow> u32 set" where
  "data_targets bin = {a. getTextStartAddress bin \<le> a \<and> a < getTextEndAddress bin
     \<and> (\<exists>sec\<in>set (getTypeSections bin Data). a \<in> set (sec_data sec))}"

section \<open>Correctness\<close>

lemma fold_add_leaders: "fold add_leaders insts lds = lds \<union> (\<Union>inst\<in>set insts. static_targets inst)"
  by (induction insts arbitrary: lds) (auto simp: add_leaders_def static_targets_def)

lemma fold_insert_fst: "fold (\<lambda>target. insert (fst target)) targets lds = lds \<union> fst ` set targets"
  by (induction targets arbitrary: lds) auto

lemma fold_recorded:
  "fold (\<lambda>(branch, targets). fold (\<lambda>target. insert (fst target)) targets) all lds
     = lds \<union> (\<Union>(branch, targets)\<in>set all. fst ` set targets)"
  by (induction all arbitrary: lds) (simp_all add: fold_insert_fst split_def Un_assoc)

lemma harvest_word_pair:
  "harvest_word lo hi a (lds, d) =
     (if lo \<le> a \<and> a < hi then (insert a lds, d + (if a \<in> lds then 0 else 1)) else (lds, d))"
  by (simp add: harvest_word_def)

lemma harvest_words:
  assumes "finite lds" "fold (harvest_word lo hi) ws (lds, d) = (lds', d')"
  shows "lds' = lds \<union> {a \<in> set ws. lo \<le> a \<and> a < hi} \<and> d' = d + of_nat (card (lds' - lds)) \<and> finite lds'"
  using assms
proof (induction ws arbitrary: lds d)
  case (Cons w ws)
  show ?case
  proof (cases "lo \<le> w \<and> w < hi \<and> w \<notin> lds")
    case True
    then have "fold (harvest_word lo hi) ws (insert w lds, d + 1) = (lds', d')"
      using Cons.prems by (simp add: harvest_word_pair)
    note IH = Cons.IH [OF _ this]
    have "lds' - lds = insert w (lds' - insert w lds)" using IH Cons.prems(1) True by auto
    then have "card (lds' - lds) = Suc (card (lds' - insert w lds))"
      using IH Cons.prems(1) by (metis card_insert_disjoint finite_Diff finite_insert Diff_iff insertI1)
    with IH Cons.prems(1) True show ?thesis by auto
  next
    case False
    then have "fold (harvest_word lo hi) ws (lds, d) = (lds', d')"
      using Cons.prems by (auto simp: harvest_word_pair insert_absorb split: if_splits)
    with Cons.IH [OF Cons.prems(1) this] False show ?thesis by auto
  qed
qed simp

lemma harvest_sections:
  assumes "finite lds" "fold (\<lambda>sec. fold (harvest_word lo hi) (sec_data sec)) secs (lds, d) = (lds', d')"
  shows "lds' = lds \<union> {a. lo \<le> a \<and> a < hi \<and> (\<exists>sec\<in>set secs. a \<in> set (sec_data sec))}
    \<and> d' = d + of_nat (card (lds' - lds)) \<and> finite lds'"
  using assms
proof (induction secs arbitrary: lds d)
  case (Cons sec secs)
  obtain lds1 d1 where 1: "fold (harvest_word lo hi) (sec_data sec) (lds, d) = (lds1, d1)" by fastforce
  note h = harvest_words [OF Cons.prems(1) 1]
  have "fold (\<lambda>sec. fold (harvest_word lo hi) (sec_data sec)) secs (lds1, d1) = (lds', d')"
    using Cons.prems(2) 1 by simp
  with Cons.IH h have IH: "lds' = lds1 \<union> {a. lo \<le> a \<and> a < hi \<and> (\<exists>sec\<in>set secs. a \<in> set (sec_data sec))}"
    "d' = d1 + of_nat (card (lds' - lds1))" "finite lds'" by blast+
  have "lds' - lds = (lds1 - lds) \<union> (lds' - lds1)" "(lds1 - lds) \<inter> (lds' - lds1) = {}"
    using h IH(1) by auto
  then have "card (lds' - lds) = card (lds1 - lds) + card (lds' - lds1)"
    using h IH(3) by (simp add: card_Un_disjoint)
  with h IH show ?case by auto
qed simp

lemma static_targets_lead: "inst \<in> set insts \<Longrightarrow> static_targets inst \<subseteq> getLeaders insts opts info"
  by (cases insts) (auto simp: fold_add_leaders fold_recorded Let_def simp del: fold.simps)

lemma fold_grows:
  assumes "\<And>w y. fst y \<subseteq> fst (f w y)"
  shows "fst x \<subseteq> fst (fold f ws x)"
proof (induction ws arbitrary: x)
  case (Cons w ws)
  have "fst x \<subseteq> fst (f w x)" by (rule assms)
  also have "\<dots> \<subseteq> fst (fold f (w # ws) x)" using Cons [of "f w x"] by simp
  finally show ?case .
qed simp

lemma harvest_keeps: "lds \<subseteq> fst (harvestStaticData bin lds)"
proof -
  have word: "fst x \<subseteq> fst (harvest_word lo hi w x)" for lo hi w and x :: "u32 set \<times> u32"
    by (cases x) (auto simp: harvest_word_pair)
  have "fst x \<subseteq> fst (fold (\<lambda>sec. fold (harvest_word lo hi) (sec_data sec)) secs x)" for lo hi secs and x :: "u32 set \<times> u32"
    by (rule fold_grows) (rule fold_grows [OF word])
  from this [of "(lds, 0)"] show ?thesis by (simp add: harvestStaticData_def)
qed

section \<open>Properties\<close>

text \<open>C28: The leaders are exactly the first instruction, the targets and the successors of all direct
  branches and jumps, the return addresses of indirect jumps and, if profiling data is used, every
  recorded destination of an indirect branch.\<close>

theorem getLeaders_exact:
  assumes "insts \<noteq> []"
  shows "getLeaders insts opts info = {address (hd insts)} \<union> (\<Union>inst\<in>set insts. static_targets inst)
    \<union> (if useProfilingData opts then recorded_targets info else {})"
proof (cases insts)
  case (Cons first rest)
  then show ?thesis
    by (simp add: fold_add_leaders fold_recorded getAllBranchTargets_def recorded_targets_def Let_def del: fold.simps)
qed (use assms in simp)

theorem getLeaders_exact_witness:
  "getLeaders [decode 0x00500513 0x100, decode 0x0080006F 0x104] default_options (new_ProfilingInfo True) = {0x100, 0x108, 0x10C}"
proof -
  have d: "itype (decode 0x00500513 0x100) = I_ADDI" "address (decode 0x00500513 0x100) = 0x100"
    "itype (decode 0x0080006F 0x104) = I_JAL" "address (decode 0x0080006F 0x104) = 0x104"
    "immediate (decode 0x0080006F 0x104) = 8" by code_simp+
  show ?thesis
    using getLeaders_exact [of "[decode 0x00500513 0x100, decode 0x0080006F 0x104]" default_options "new_ProfilingInfo True"]
    by (simp add: d static_targets_def default_options_def) blast
qed

text \<open>Harvesting adds to the leaders exactly the words of data sections that lie between the bounds of
  the code, and counts the addresses it added.\<close>

theorem harvestStaticData_exact:
  assumes "finite lds"
  shows "fst (harvestStaticData bin lds) = lds \<union> data_targets bin
    \<and> snd (harvestStaticData bin lds) = of_nat (card (data_targets bin - lds))"
proof -
  obtain lds' d' where h: "harvestStaticData bin lds = (lds', d')" by fastforce
  then have "fold (\<lambda>sec. fold (harvest_word (getTextStartAddress bin) (getTextEndAddress bin)) (sec_data sec))
       (getTypeSections bin Data) (lds, 0) = (lds', d')" by (simp add: harvestStaticData_def)
  note s = harvest_sections [OF assms this]
  have "lds' = lds \<union> data_targets bin" using s by (auto simp: data_targets_def)
  moreover from this have "lds' - lds = data_targets bin - lds" by auto
  ultimately show ?thesis using s h by simp
qed

theorem harvestStaticData_exact_witness:
  "harvestStaticData demo_binary {0x100} = ({0x100, 0x104}, 1)"
proof -
  have "getTypeSections demo_binary Data = [demo_section ''.data'' 0x200 [0x104] 3]"
    by (simp add: getTypeSections_def demo_binary_sections demo_section_def new_ElfBinarySection_def
        resolveSectionType_def SHF_EXECINSTR_def SHF_ALLOC_def)
  then have "data_targets demo_binary = {a. 0x100 \<le> a \<and> a < 0x108 \<and> a = 0x104}"
    by (simp add: data_targets_def demo_binary_sections demo_section_def new_ElfBinarySection_def)
  moreover have "(0x100 :: u32) \<le> 0x104" "(0x104 :: u32) < 0x108" by simp_all
  ultimately have t: "data_targets demo_binary = {0x104}" by blast
  show ?thesis
    using harvestStaticData_exact [of "{0x100}" demo_binary] by (simp add: t prod_eq_iff insert_commute)
qed

end
