(* ===== verification/RuntimeEmitter.thy ===== *)
theory RuntimeEmitter
  imports BasicBlocks InstructionEmitter
begin

text \<open>
  Everything the translator emits around the instructions, \<^verbatim>\<open>sbt/codegen/RuntimeEmitter.cpp\<close>: the
  prologue, the table that maps the guest's program counter to labels, the dispatch loop, the
  fallback to the interpreter, and the generated \<^verbatim>\<open>main\<close> with the guest's initial memory.  The
  template files are a parameter; a missing one ends the translator (\<open>None\<close>).
\<close>

section \<open>Text\<close>

type_synonym templates = "string \<Rightarrow> string option"

definition indented :: "nat \<Rightarrow> string \<Rightarrow> string" where
  "indented level text = replicate level (CHR 0x09) @ text"

definition emitTemplate :: "templates \<Rightarrow> nat \<Rightarrow> string \<Rightarrow> string option" where
  "emitTemplate tm level name = map_option (indented level) (tm name)"

definition emitFilledTemplate :: "templates \<Rightarrow> nat \<Rightarrow> string \<Rightarrow> (string \<times> string) list \<Rightarrow> string option" where
  "emitFilledTemplate tm level name values =
     (case tm name of None \<Rightarrow> None | Some tmpl \<Rightarrow> map_option (indented level) (fillTemplate tmpl values))"

text \<open>Pieces of output one after the other, if all of them can be produced.\<close>

fun pieces :: "string option list \<Rightarrow> string option" where
  "pieces [] = Some []"
| "pieces (None # ps) = None"
| "pieces (Some p # ps) = map_option (append p) (pieces ps)"

definition hex_text :: "u32 \<Rightarrow> string" where
  "hex_text w = ''0x'' @ format_HEX w"

definition tab :: string where "tab = [CHR 0x09]"

section \<open>Prologue\<close>

definition emitPrologue :: "templates \<Rightarrow> Emitter \<Rightarrow> string option" where
  "emitPrologue tm em =
     pieces ([emitTemplate tm (indent em) ''output_prologue'']
       @ (if profileIndirect (options em) \<and> \<not> translationChaining (options em)
          then [emitTemplate tm (indent em) ''profiling_globals''] else [])
       @ map (\<lambda>line. Some (indented (indent em) line)) (emitPinnedRegisters em))"

section \<open>Dispatch table\<close>

text \<open>An entry of the table: \<^verbatim>\<open>&&L...\<close>, \<^verbatim>\<open>&&INVALID\<close> or \<^verbatim>\<open>&&EXIT\<close>.\<close>

datatype slot = SlotLabel u32 | SlotInvalid | SlotExit

fun slot_text :: "slot \<Rightarrow> string" where
  "slot_text (SlotLabel a) = tab @ tab @ ''&&L'' @ format_HEX a @ '','' @ newline"
| "slot_text SlotInvalid = tab @ tab @ ''&&INVALID,'' @ newline"
| "slot_text SlotExit = tab @ tab @ ''&&EXIT,'' @ newline"

definition dispatch_slots :: "u32 \<Rightarrow> u32 \<Rightarrow> u32 set \<Rightarrow> slot list" where
  "dispatch_slots wordCount textStart lds =
     map (\<lambda>i. let currentAddress = textStart + of_nat i * 4
              in if currentAddress \<in> lds then SlotLabel currentAddress else SlotInvalid) [0..<unat wordCount]
     @ [SlotExit]"

definition emitDispatchTable :: "templates \<Rightarrow> ElfBinary \<Rightarrow> u32 set \<Rightarrow> Emitter \<Rightarrow> string option" where
  "emitDispatchTable tm bin lds em =
     pieces ([emitFilledTemplate tm (indent em) ''run_translated_open''
                [(''TEXT_SIZE'', format_nat (unat (getTextWordCount bin + 1)))]]
       @ map (\<lambda>sl. Some (indented (indent em) (slot_text sl)))
           (dispatch_slots (getTextWordCount bin) (getTextStartAddress bin) lds)
       @ [emitTemplate tm (indent em) ''dispatch_table_close''])"

section \<open>Dispatch loop and fallback\<close>

text \<open>The moves between host registers and context, as text at an indentation.\<close>

definition register_text :: "(u8 \<Rightarrow> stmt) \<Rightarrow> nat \<Rightarrow> Emitter \<Rightarrow> string" where
  "register_text move level em =
     (if pinRegisters (options em)
      then concat (map (\<lambda>(s, hst). indented level (stmt_text (move s))) (registerMap em)) else [])"

definition emitDispatchLoopPrologue :: "templates \<Rightarrow> ElfBinary \<Rightarrow> Emitter \<Rightarrow> string option" where
  "emitDispatchLoopPrologue tm bin em =
     pieces ([Some (register_text (\<lambda>s. Assign (Host s) (CtxReg s)) 1 em),
              emitFilledTemplate tm 1 ''dispatch_loop_prologue'' [(''TEXT_START_ADDR'', hex_text (getTextStartAddress bin))]]
       @ (if profileIndirect (options em) \<and> \<not> translationChaining (options em)
          then [emitTemplate tm 1 ''indirect_profiling_check''] else [])
       @ [Some (indented 1 (tab @ ''goto *target;'' @ newline @ newline))])"

definition emitInterpreterFallback :: "templates \<Rightarrow> ElfBinary \<Rightarrow> Emitter \<Rightarrow> string option" where
  "emitInterpreterFallback tm bin em =
     pieces
       [Some (indented 2 (''EXIT: {'' @ newline)),
        Some (register_text (\<lambda>s. Assign (CtxReg s) (Host s)) 3 em),
        Some (indented 3 (''printInfo(ctx);'' @ newline)),
        Some (indented 3 (''return;'' @ newline)),
        Some (indented 2 (''}'' @ newline)),
        Some (indented 2 (''INVALID: {'' @ newline)),
        Some (register_text (\<lambda>s. Assign (CtxReg s) (Host s)) 3 em),
        emitFilledTemplate tm 3 ''interpreter_fallback'' [(''TEXT_START_ADDR'', hex_text (getTextStartAddress bin))],
        Some (register_text (\<lambda>s. Assign (Host s) (CtxReg s)) 3 em),
        Some (indented 0 (''}}}'' @ newline))]"

section \<open>The generated main function\<close>

definition getBaseRa :: "ElfBinary \<Rightarrow> u32" where
  "getBaseRa bin = getTextEndAddress bin"

text \<open>What the emitted statements of \<^verbatim>\<open>main\<close> do.\<close>

datatype init =
    Init_open u32
  | Init_no_startup u32 u32
  | Init_word u32 u32
  | Init_heap u32

text \<open>What is emitted only under a condition.\<close>

definition emitIf :: "'a \<Rightarrow> bool \<Rightarrow> 'a list" where
  [simp]: "emitIf output condition = (if condition then [output] else [])"

text \<open>The non-zero words of a data section at its load address, and the address after the last one.\<close>

fun data_words :: "u32 \<Rightarrow> u32 list \<Rightarrow> init list" where
  "data_words addr [] = []"
| "data_words addr (w # ws) = emitIf (Init_word addr w) (w \<noteq> 0) @ data_words (addr + 4) ws"

fun data_inits :: "ElfBinarySection list \<Rightarrow> u32 \<Rightarrow> init list \<times> u32" where
  "data_inits [] dataEnd = ([], dataEnd)"
| "data_inits (sec # secs) dataEnd =
     (let dataAddr = getLoadAddress sec + of_nat (4 * length (sec_data sec));
          (rest, e) = data_inits secs (if dataEnd < dataAddr then dataAddr else dataEnd)
      in (data_words (getLoadAddress sec) (sec_data sec) @ rest, e))"

definition generated_main :: "libelf \<Rightarrow> ElfBinary \<Rightarrow> Instruction list \<Rightarrow> init list" where
  "generated_main lib bin insts =
     (let (words, dataEnd) = data_inits (getTypeSections bin Data) 0
      in [Init_open (getEntryAddress lib bin)]
         @ (if getSymbolAddress lib bin ''_start'' = None
            then [Init_no_startup (getBaseRa bin)
                    (case getSymbolAddress lib bin ''__global_pointer$'' of Some gp \<Rightarrow> gp | None \<Rightarrow> 0)]
            else [])
         @ words @ [Init_heap dataEnd]
         @ map (\<lambda>inst. Init_word (address inst) (instruction inst)) insts)"

fun init_text :: "templates \<Rightarrow> init \<Rightarrow> string option" where
  "init_text tm (Init_open entry) = emitFilledTemplate tm 0 ''main_open'' [(''ENTRY_ADDRESS'', hex_text entry)]"
| "init_text tm (Init_no_startup ra gp) =
     emitFilledTemplate tm 0 ''no_startup_init'' [(''BASE_RA'', hex_text ra), (''GLOBAL_POINTER'', hex_text gp)]"
| "init_text tm (Init_word a w) =
     Some (tab @ ''ctx.memory.write<uint32_t>('' @ hex_text a @ '', '' @ hex_text w @ '');'' @ newline)"
| "init_text tm (Init_heap a) = Some (tab @ ''memory.initializeHeap('' @ hex_text a @ '');'' @ newline @ newline)"

definition emitGeneratedMain :: "templates \<Rightarrow> libelf \<Rightarrow> ElfBinary \<Rightarrow> Instruction list \<Rightarrow> string option" where
  "emitGeneratedMain tm lib bin insts =
     pieces (map (init_text tm) (generated_main lib bin insts) @ [emitTemplate tm 0 ''main_close''])"

section \<open>The translator\<close>

text \<open>The instruction emitter of \<^verbatim>\<open>sbt/main.cpp\<close> and the statements it emits, in order.\<close>

definition initial_ie :: "ElfBinary \<Rightarrow> TranslationOptions \<Rightarrow> ProfilingInfo \<Rightarrow> u32 set \<Rightarrow> InstructionEmitter" where
  "initial_ie bin opts info lds =
     new_InstructionEmitter (new_Emitter opts x86RegisterMap) info lds (getTextStartAddress bin)"

definition translation_leaders :: "ElfBinary \<Rightarrow> TranslationOptions \<Rightarrow> ProfilingInfo \<Rightarrow> u32 set" where
  "translation_leaders bin opts info =
     fst (harvestStaticData bin (getLeaders (decodeToContainer bin) opts info))"

definition translated_ie :: "ElfBinary \<Rightarrow> TranslationOptions \<Rightarrow> ProfilingInfo \<Rightarrow> InstructionEmitter" where
  "translated_ie bin opts info =
     fold emitInstruction (decodeToContainer bin) (initial_ie bin opts info (translation_leaders bin opts info))"

definition translation_text ::
  "templates \<Rightarrow> libelf \<Rightarrow> ElfBinary \<Rightarrow> TranslationOptions \<Rightarrow> ProfilingInfo \<Rightarrow> string option" where
  "translation_text tm lib bin opts info =
     (let lds = translation_leaders bin opts info; em = new_Emitter opts x86RegisterMap
      in pieces
        [emitPrologue tm em, emitDispatchTable tm bin lds em, emitDispatchLoopPrologue tm bin em,
         Some (output_text (emitter (translated_ie bin opts info))),
         emitInterpreterFallback tm bin em, emitGeneratedMain tm lib bin (decodeToContainer bin)])"

end
