(* ===== verification/GeneratedProgram.thy ===== *)
theory GeneratedProgram
  imports Translation RuntimeEmitter
begin

text \<open>
  The generated program as a whole: the statements of all instructions with their labels, the
  dispatch table, the dispatch loop and the fallback to the interpreter form a machine with its own
  small steps.  It simulates the guest: whatever the interpreter does with the guest in any number of
  instructions, the generated program does too.  The lines that the fallback prints and the register dump at
  the exit are not part of the state.
\<close>

section \<open>Programs\<close>

record program =
  code :: "stmt list"
  table :: "slot list"
  text_base :: u32
  pinned :: RegisterMap
  timed :: bool

definition translated_program :: "ElfBinary \<Rightarrow> TranslationOptions \<Rightarrow> ProfilingInfo \<Rightarrow> program" where
  "translated_program bin opts info =
     \<lparr>code = stmts (translated_ie bin opts info),
      table = dispatch_slots (getTextWordCount bin) (getTextStartAddress bin) (translation_leaders bin opts info),
      text_base = getTextStartAddress bin,
      pinned = pinned_map (new_Emitter opts x86RegisterMap),
      timed = (profileIndirect opts \<and> \<not> translationChaining opts)\<rparr>"

text \<open>The code after a label.\<close>

fun find_label :: "u32 \<Rightarrow> stmt list \<Rightarrow> stmt list option" where
  "find_label a [] = None"
| "find_label a (x # xs) = (if x = Label a then Some xs else find_label a xs)"

section \<open>Steps\<close>

text \<open>
  Where control is: before some statements (the rest of the code), at the head of the dispatch loop,
  at \<^verbatim>\<open>goto *dispatch[...]\<close>, or in the loop of the fallback.  A jump to a label that is not defined
  is rejected by the compiler; here it leads to \<open>NoLabel\<close>, where no step is possible.
\<close>

datatype place = Code "stmt list" | LoopTop | AtTable | Fallback | NoLabel u32

definition goto_place :: "program \<Rightarrow> u32 \<Rightarrow> place" where
  "goto_place P a = (case find_label a (code P) of Some rest \<Rightarrow> Code rest | None \<Rightarrow> NoLabel a)"

fun place_after :: "program \<Rightarrow> stmt list \<Rightarrow> flow \<Rightarrow> place" where
  "place_after P rest Fall = Code rest"
| "place_after P rest (ToLabel a) = goto_place P a"
| "place_after P rest ToLoop = LoopTop"
| "place_after P rest ToDispatch = AtTable"

text \<open>The effect of the statements of \<^verbatim>\<open>emitRegisterStore\<close> and \<^verbatim>\<open>emitRegisterLoad\<close>.\<close>

definition store_registers :: "RegisterMap \<Rightarrow> 'w tstate \<Rightarrow> 'w tstate" where
  "store_registers rm s = s\<lparr>ctx := (ctx s)\<lparr>reg := override_on (reg (ctx s)) (host_reg s) (fst ` set rm)\<rparr>\<rparr>"

definition load_registers :: "RegisterMap \<Rightarrow> 'w tstate \<Rightarrow> 'w tstate" where
  "load_registers rm s = s\<lparr>host_reg := override_on (host_reg s) (reg (ctx s)) (fst ` set rm)\<rparr>"

definition dispatch_index :: "program \<Rightarrow> u32 \<Rightarrow> u32" where
  "dispatch_index P a = (a - text_base P) div 4"

text \<open>\<^verbatim>\<open>EXIT\<close>: \<^verbatim>\<open>runTranslated\<close> returns and \<^verbatim>\<open>main\<close> returns \<^verbatim>\<open>a0\<close>.\<close>

definition leave :: "program \<Rightarrow> 'w tstate \<Rightarrow> (place \<times> 'w tstate) outcome" where
  "leave P s = (let s' = store_registers (pinned P) s in Exited (sint (reg (ctx s') REG_a0)) (LoopTop, s'))"

definition table_step :: "program \<Rightarrow> 'w tstate \<Rightarrow> (place \<times> 'w tstate) outcome" where
  "table_step P s =
     (let i = unat (pcDispatchIndex s) in
      if length (table P) \<le> i then OutOfBounds (pcDispatchIndex s)
      else (case table P ! i of
              SlotLabel a \<Rightarrow> Running (goto_place P a, s)
            | SlotInvalid \<Rightarrow>
                (let s' = store_registers (pinned P) s
                 in Running (Fallback, s'\<lparr>host_reg := clobber s' (host_reg s')\<rparr>))
            | SlotExit \<Rightarrow> leave P s))"

definition fallback_step :: "'w host \<Rightarrow> program \<Rightarrow> 'w tstate \<Rightarrow> (place \<times> 'w tstate) outcome" where
  "fallback_step h P s =
     (let i = unat (pcDispatchIndex s) in
      if length (table P) \<le> i then OutOfBounds (pcDispatchIndex s)
      else if table P ! i = SlotInvalid then
        omap (\<lambda>m. (Fallback, s\<lparr>ctx := m, host_reg := clobber s (host_reg s), pcDispatchIndex := dispatch_index P (pc m)\<rparr>))
          (runInstructionSwitch h (ctx s))
      else Running (LoopTop, load_registers (pinned P) s))"

text \<open>
  The check that \<^verbatim>\<open>--profile-indirect\<close> puts into the dispatch loop.  Its \<^verbatim>\<open>printf\<close> is a library function: by the x86-64
  calling convention it leaves \<^verbatim>\<open>rbx\<close>, \<^verbatim>\<open>rbp\<close> and \<^verbatim>\<open>r12\<close> to \<^verbatim>\<open>r15\<close> as they were, and anything in the other host registers.  The
  cycle counts themselves are not recorded.
\<close>

definition callee_saved :: "string \<Rightarrow> bool" where
  "callee_saved r \<longleftrightarrow> r \<in> set [''rbx'', ''rbp'', ''r12'', ''r13'', ''r14'', ''r15'']"

definition after_printf :: "RegisterMap \<Rightarrow> 'w tstate \<Rightarrow> u8 \<Rightarrow> u32" where
  "after_printf rm s r =
     (case map_of rm r of
        Some hst \<Rightarrow> if callee_saved hst then host_reg s r else clobber s (host_reg s) r
      | None \<Rightarrow> clobber s (host_reg s) r)"

definition timing_check :: "RegisterMap \<Rightarrow> 'w tstate \<Rightarrow> 'w tstate" where
  "timing_check rm s =
     (let s1 = (if timerActive s \<and> heatup s = 0
                then s\<lparr>timerActive := False, indirectMeasured := indirectMeasured s + 1, host_reg := after_printf rm s\<rparr>
                else s)
      in if 0 < heatup s1 then s1\<lparr>heatup := heatup s1 - 1\<rparr> else s1)"

definition loop_step :: "program \<Rightarrow> 'w tstate \<Rightarrow> 'w tstate" where
  "loop_step P s =
     (let s1 = s\<lparr>pcDispatchIndex := dispatch_index P (pc (ctx s))\<rparr> in if timed P then timing_check (pinned P) s1 else s1)"

fun tstep :: "'w host \<Rightarrow> program \<Rightarrow> place \<times> 'w tstate \<Rightarrow> (place \<times> 'w tstate) outcome" where
  "tstep h P (Code [], s) = leave P s"
| "tstep h P (Code (x # rest), s) = omap (\<lambda>(s', fl). (place_after P rest fl, s')) (exec h x s)"
| "tstep h P (LoopTop, s) = Running (AtTable, loop_step P s)"
| "tstep h P (AtTable, s) = table_step P s"
| "tstep h P (Fallback, s) = fallback_step h P s"
| "tstep h P (NoLabel a, s) = Undefined"

text \<open>\<^verbatim>\<open>runTranslated\<close> starts by loading the pinned registers and enters the loop.\<close>

definition start_translated :: "program \<Rightarrow> 'w tstate \<Rightarrow> place \<times> 'w tstate" where
  "start_translated P s = (LoopTop, load_registers (pinned P) s)"

section \<open>Well-formed programs\<close>

text \<open>The executable sections are adjacent, so that consecutive instructions have consecutive addresses.\<close>

definition contiguous :: "ElfBinary \<Rightarrow> bool" where
  "contiguous bin \<longleftrightarrow>
     (\<forall>k<length (decodeToContainer bin).
        address (decodeToContainer bin ! k) = getTextStartAddress bin + of_nat (4 * k)) \<and>
     unat (getTextWordCount bin) = length (decodeToContainer bin) \<and> 4 * length (decodeToContainer bin) < 2 ^ 32"

fun goto_targets :: "stmt \<Rightarrow> u32 set" where
  "goto_targets (IfGoto c a) = {a}"
| "goto_targets (Goto a) = {a}"
| "goto_targets _ = {}"

text \<open>Every label that is used is defined.\<close>

definition compiles :: "program \<Rightarrow> bool" where
  "compiles P \<longleftrightarrow> (\<forall>x\<in>set (code P). \<forall>a\<in>goto_targets x. Label a \<in> set (code P))
     \<and> (\<forall>a. SlotLabel a \<in> set (table P) \<longrightarrow> Label a \<in> set (code P))"

text \<open>No guest register lives in a host register while the dispatch loop takes the time.\<close>

definition timing_safe :: "program \<Rightarrow> bool" where
  "timing_safe P \<longleftrightarrow> (timed P \<longrightarrow> pinned P = [])"

section \<open>Correspondence\<close>

text \<open>The emitter before the \<open>k\<close>-th instruction, after its label, and the code from there on.\<close>

definition ie_at :: "ElfBinary \<Rightarrow> TranslationOptions \<Rightarrow> ProfilingInfo \<Rightarrow> nat \<Rightarrow> InstructionEmitter" where
  "ie_at bin opts info k =
     fold emitInstruction (take k (decodeToContainer bin)) (initial_ie bin opts info (translation_leaders bin opts info))"

definition labelled :: "Instruction \<Rightarrow> InstructionEmitter \<Rightarrow> InstructionEmitter" where
  "labelled inst ie = (emit_label inst ie)\<lparr>current := Some inst\<rparr>"

definition body_at :: "ElfBinary \<Rightarrow> TranslationOptions \<Rightarrow> ProfilingInfo \<Rightarrow> nat \<Rightarrow> stmt list" where
  "body_at bin opts info k =
     (let inst = decodeToContainer bin ! k; ie = labelled inst (ie_at bin opts info k)
      in added ie (emit_arms inst ie))"

definition code_from :: "ElfBinary \<Rightarrow> TranslationOptions \<Rightarrow> ProfilingInfo \<Rightarrow> nat \<Rightarrow> stmt list" where
  "code_from bin opts info k = added (ie_at bin opts info k) (translated_ie bin opts info)"

text \<open>
  The emitter has only added statements that are not labels and jump to labels in \<open>T\<close> at most.
\<close>

definition plain :: "u32 set \<Rightarrow> stmt \<Rightarrow> bool" where
  "plain T x \<longleftrightarrow> (\<forall>a. x \<noteq> Label a) \<and> goto_targets x \<subseteq> T"

definition extends :: "u32 set \<Rightarrow> InstructionEmitter \<Rightarrow> InstructionEmitter \<Rightarrow> bool" where
  "extends T ie ie' \<longleftrightarrow> (\<exists>new. stmts ie' = stmts ie @ new \<and> list_all (plain T) new)
     \<and> leaders ie' = leaders ie \<and> profilingInfo ie' = profilingInfo ie
     \<and> pinned_map (emitter ie') = pinned_map (emitter ie) \<and> textStartAddress ie' = textStartAddress ie"

text \<open>The labels an instruction can jump to: its own target, or predictions of an indirect jump.\<close>

definition jump_labels :: "u32 set \<Rightarrow> ProfilingInfo \<Rightarrow> Instruction \<Rightarrow> u32 set" where
  "jump_labels lds info inst =
     (if itype inst \<in> branch_types \<union> {I_JAL} then {address inst + immediate inst}
      else if itype inst = I_JALR then lds \<inter> fst ` set (getIndirectBranchTargets info (address inst))
      else {})"

text \<open>The label of an instruction, if it has one.\<close>

definition label_part :: "Instruction \<Rightarrow> InstructionEmitter \<Rightarrow> stmt list" where
  "label_part inst ie = (if address inst \<in> leaders ie then [Label (address inst)] else [])"

text \<open>The generated program is in the state of the guest.\<close>

fun corresponds ::
  "ElfBinary \<Rightarrow> TranslationOptions \<Rightarrow> ProfilingInfo \<Rightarrow> place \<times> 'w tstate \<Rightarrow> 'w machine \<Rightarrow> bool" where
  "corresponds bin opts info (Code rest, s) m \<longleftrightarrow>
     represents (fst ` set (pinned (translated_program bin opts info))) s m \<and>
     (rest = [] \<and> pc m = getTextStartAddress bin + of_nat (4 * length (decodeToContainer bin)) \<or>
      (\<exists>k<length (decodeToContainer bin). pc m = address (decodeToContainer bin ! k)
         \<and> rest = body_at bin opts info k @ code_from bin opts info (Suc k)
         \<and> tracked_ok (labelled (decodeToContainer bin ! k) (ie_at bin opts info k)) m))"
| "corresponds bin opts info (LoopTop, s) m \<longleftrightarrow>
     represents (fst ` set (pinned (translated_program bin opts info))) s m \<and> pc (ctx s) = pc m"
| "corresponds bin opts info (AtTable, s) m \<longleftrightarrow>
     represents (fst ` set (pinned (translated_program bin opts info))) s m \<and> pc (ctx s) = pc m
     \<and> pcDispatchIndex s = dispatch_index (translated_program bin opts info) (pc m)"
| "corresponds bin opts info (Fallback, s) m \<longleftrightarrow>
     ctx s = m \<and> reg m REG_x0 = 0 \<and> REG_x0 \<notin> fst ` set (pinned (translated_program bin opts info))
     \<and> pcDispatchIndex s = dispatch_index (translated_program bin opts info) (pc m)"
| "corresponds bin opts info (NoLabel a, s) m \<longleftrightarrow> False"

text \<open>
  States from which the guest's next instruction is one that all engines agree on: the code in memory
  is the code that was translated, and the instruction is supported.
\<close>

definition translatable :: "ElfBinary \<Rightarrow> 'w machine \<Rightarrow> bool" where
  "translatable bin m \<longleftrightarrow>
     code_current (decodeToContainer bin) (getTextStartAddress bin) m \<and> supported_code m \<and> profile m = None
     \<and> (\<forall>inst. fetch_instruction (decodeToContainer bin) (getTextStartAddress bin) (pc m) = Some inst \<longrightarrow> agreeing inst m)"

text \<open>From any place control reaches the code of the guest's next instruction, or the fallback that interprets it.\<close>

definition at_instruction ::
  "ElfBinary \<Rightarrow> TranslationOptions \<Rightarrow> ProfilingInfo \<Rightarrow> nat \<Rightarrow> place \<times> 'w tstate \<Rightarrow> 'w machine \<Rightarrow> bool" where
  "at_instruction bin opts info k t m \<longleftrightarrow> corresponds bin opts info t m \<and>
     ((\<exists>s. t = (Code (body_at bin opts info k @ code_from bin opts info (Suc k)), s)
          \<and> tracked_ok (labelled (decodeToContainer bin ! k) (ie_at bin opts info k)) m
          \<and> represents (fst ` set (pinned (translated_program bin opts info))) s m) \<or>
      (\<exists>s. t = (Fallback, s) \<and> table (translated_program bin opts info) ! k = SlotInvalid))"

text \<open>The guest program \<^verbatim>\<open>addi a0, x0, 5; jal x0, -4\<close>.\<close>

definition loop_binary :: ElfBinary where
  "loop_binary = computeTextBounds ((new_ElfBinary ''a.out'')\<lparr>sections := [demo_section ''.text'' 0 [0x00500513, 0xFFDFF06F] 6]\<rparr>)"

section \<open>Interface: forward simulation\<close>

text \<open>
  Every step of one machine is matched by some number of steps of another; an exit is matched by an
  exit with the same status.
\<close>

locale forward_simulation =
  fixes source :: "'g \<Rightarrow> 'g outcome" and target :: "'t \<Rightarrow> 't outcome"
    and corr :: "'t \<Rightarrow> 'g \<Rightarrow> bool" and ok :: "'g \<Rightarrow> bool" and same_exit :: "'t \<Rightarrow> 'g \<Rightarrow> bool"
  assumes matched_step: "corr t g \<Longrightarrow> ok g \<Longrightarrow> source g = Running g' \<Longrightarrow> \<exists>k t'. iterate target k t = Running t' \<and> corr t' g'"
    and matched_exit: "corr t g \<Longrightarrow> ok g \<Longrightarrow> source g = Exited c g' \<Longrightarrow> \<exists>k t'. iterate target k t = Exited c t' \<and> same_exit t' g'"
begin

lemma matched_run:
  assumes "corr t g" and "\<And>k g'. k < n \<Longrightarrow> iterate source k g = Running g' \<Longrightarrow> ok g'"
  shows "(\<forall>g'. iterate source n g = Running g' \<longrightarrow> (\<exists>k t'. iterate target k t = Running t' \<and> corr t' g')) \<and>
    (\<forall>c g'. iterate source n g = Exited c g' \<longrightarrow> (\<exists>k t'. iterate target k t = Exited c t' \<and> same_exit t' g'))"
  using assms
proof (induction n arbitrary: t g)
  case 0
  then show ?case by (auto intro!: exI [of _ 0])
next
  case (Suc n)
  have ok: "ok g" using Suc.prems(2) [of 0 g] by simp
  show ?case
  proof (cases "source g")
    case (Running g1)
    obtain j t1 where t1: "iterate target j t = Running t1" "corr t1 g1"
      using matched_step [OF Suc.prems(1) ok Running] by blast
    have IH: "(\<forall>g'. iterate source n g1 = Running g' \<longrightarrow> (\<exists>k t'. iterate target k t1 = Running t' \<and> corr t' g')) \<and>
      (\<forall>c g'. iterate source n g1 = Exited c g' \<longrightarrow> (\<exists>k t'. iterate target k t1 = Exited c t' \<and> same_exit t' g'))"
    proof (rule Suc.IH [OF t1(2)])
      show "ok g'" if "k < n" "iterate source k g1 = Running g'" for k g'
        using Suc.prems(2) [of "Suc k" g'] that Running by simp
    qed
    have glue: "iterate target k t1 = iterate target (j + k) t" for k using t1(1) by (simp add: iterate_add)
    show ?thesis using IH Running unfolding glue by (simp, blast)
  next
    case (Exited c g1)
    then show ?thesis using matched_exit [OF Suc.prems(1) ok Exited] by simp
  qed simp_all
qed

end

section \<open>Shape of the code\<close>

lemma plain_simps [simp]:
  "plain T (Label a) = False" "plain T (Assign l e)" "plain T (OpAssign f l e)" "plain T (Load l t e)" "plain T (Store t ea e)"
  "plain T (Branches arms l e)" "plain T (IfGoto c a) = (a \<in> T)" "plain T (Goto a) = (a \<in> T)" "plain T Handle"
  "plain T (HandleNum n)" "plain T (PrintUnsupported a)" "plain T StartTimer" "plain T Continue" "plain T (SetDispatchIndex a)"
  "plain T GotoDispatch"
  by (simp_all add: plain_def)

lemma extends_refl: "extends T ie ie"
  by (simp add: extends_def)

lemma extends_trans:
  assumes "extends T ie ie1" "extends T ie1 ie2"
  shows "extends T ie ie2"
proof -
  obtain new1 where 1: "stmts ie1 = stmts ie @ new1" "list_all (plain T) new1"
    using assms(1) by (auto simp: extends_def)
  obtain new2 where 2: "stmts ie2 = stmts ie1 @ new2" "list_all (plain T) new2"
    using assms(2) by (auto simp: extends_def)
  have "stmts ie2 = stmts ie @ (new1 @ new2)" "list_all (plain T) (new1 @ new2)" using 1 2 by auto
  then show ?thesis using assms unfolding extends_def by metis
qed

lemma leaders_frame [simp]:
  "leaders (on_emitter f ie) = leaders ie" "leaders (emit_rd st d ie) = leaders ie" "leaders (track r v ie) = leaders ie"
  "profilingInfo (on_emitter f ie) = profilingInfo ie" "profilingInfo (emit_rd st d ie) = profilingInfo ie"
  "profilingInfo (track r v ie) = profilingInfo ie" "profilingInfo (ie_emit st ie) = profilingInfo ie"
  "textStartAddress (on_emitter f ie) = textStartAddress ie" "textStartAddress (track r v ie) = textStartAddress ie"
  "pinned_map (emitter (emit_rd st d ie)) = pinned_map (emitter ie)" "pinned_map (emitter (track r v ie)) = pinned_map (emitter ie)"
  "pinned_map (setIndent n em) = pinned_map em" "pinned_map (emitRegisterLoad em) = pinned_map em"
  using emit_fold [of "\<lambda>s. Assign (Host s) (CtxReg s)" "registerMap em" em]
  by (simp_all add: on_emitter_def emit_rd_def ie_emit_def track_def Let_def pinned_map_def setIndent_def emitRegisterLoad_def)

lemma extends_one:
  "plain T st \<Longrightarrow> extends T ie (ie_emit st ie)"
  "plain T st \<Longrightarrow> extends T ie (emit_rd st d ie)"
  "extends T ie (track r v ie)" "extends T ie (ie\<lparr>regKnown := k\<rparr>)" "extends T ie (ie\<lparr>untracked := u\<rparr>)"
  by (auto simp: extends_def)

lemma extends_moves: "extends T ie (on_emitter emitRegisterStore ie)" "extends T ie (on_emitter emitRegisterLoad ie)"
proof -
  have "pinned_map (emitter (on_emitter emitRegisterLoad ie)) = pinned_map (emitter ie)" by (simp add: on_emitter_def)
  then show "extends T ie (on_emitter emitRegisterStore ie)" "extends T ie (on_emitter emitRegisterLoad ie)"
    by (auto simp: extends_def spill_def reload_def list_all_iff)
qed

text \<open>The same backwards: what an operation was applied to extends the beginning.\<close>

lemmas extends_intros = extends_refl extends_one [THEN extends_trans [rotated]] extends_moves [THEN extends_trans [rotated]]

lemma max_element_in: "max_element x xs \<in> set (x # xs)"
  by (induction x xs rule: max_element.induct) auto

lemma extends_predictions:
  "extends T ie0 ie \<Longrightarrow> leaders ie \<inter> fst ` set dests \<subseteq> T \<Longrightarrow> extends T ie0 (emit_predictions n dests ie)"
proof (induction n dests ie rule: emit_predictions.induct)
  case (3 n x xs ie)
  let ?m = "max_element x xs"
  let ?ie = "if fst ?m \<in> leaders ie then ie_emit (IfGoto (Bin Eq CtxPc (Hex (fst ?m))) (fst ?m)) ie else ie"
  have "fst ?m \<in> leaders ie \<Longrightarrow> fst ?m \<in> T" using 3(3) max_element_in [of x xs] by blast
  then have "extends T ie0 ?ie" using 3(2) by (simp add: extends_intros)
  moreover have "leaders ?ie \<inter> fst ` set (remove1 ?m (x # xs)) \<subseteq> T"
    using 3(3) image_mono [OF set_remove1_subset [of ?m "x # xs"], of fst] by (simp del: remove1.simps) blast
  ultimately show ?case using 3(1) [OF refl refl] by (simp add: Let_def)
qed simp_all

lemma extends_jump_tail:
  assumes "extends T ie0 ie" "leaders ie \<inter> fst ` set (getIndirectBranchTargets (profilingInfo ie) (address inst)) \<subseteq> T"
  shows "extends T ie0 (jump_tail inst ie)"
  using assms by (simp add: jump_tail_def Let_def extends_intros extends_predictions)

lemma extends_op: "extends T ie (emitOp f ordered ie)"
  by (simp add: emitOp_def extends_one extends_refl split: option.splits)

lemma extends_arms: "extends (jump_labels (leaders ie) (profilingInfo ie) inst) ie (emit_arms inst ie)"
proof (cases "itype inst = I_JALR")
  case True
  then have "emit_arms inst ie = jump_tail inst (emit_rd (Assign (REG ie RD) (Hex (address inst + 4))) (rd inst)
      (ie_emit (Assign CtxPc (Bin Add (Dec (sint (immediate inst))) (REG ie RS1))) ie))"
    by (simp add: arms_defs jump_tail_def Let_def emit_rd_def)
  then show ?thesis using True by (simp add: extends_jump_tail extends_intros jump_labels_def branch_types_def)
next
  case False
  then show ?thesis
    by (cases "itype inst")
      (simp_all add: emit_arms_def emit_groups Let_def extends_op extends_intros emitLoadSaveAddress_def jump_labels_def branch_types_def)
qed

lemma added_arms:
  "stmts (emit_arms inst ie) = stmts ie @ added ie (emit_arms inst ie)"
  "x \<in> set (added ie (emit_arms inst ie)) \<Longrightarrow> x \<noteq> Label a"
  "x \<in> set (added ie (emit_arms inst ie)) \<Longrightarrow> goto_targets x \<subseteq> jump_labels (leaders ie) (profilingInfo ie) inst"
  using extends_arms [of ie inst] by (auto simp: extends_def added_def list_all_iff plain_def)

lemma labelled_simps [simp]:
  "stmts (labelled inst ie) = stmts ie @ label_part inst ie" "leaders (labelled inst ie) = leaders ie"
  "pinned_map (emitter (labelled inst ie)) = pinned_map (emitter ie)" "current (labelled inst ie) = Some inst"
  "textStartAddress (labelled inst ie) = textStartAddress ie" "profilingInfo (labelled inst ie) = profilingInfo ie"
  by (simp_all add: labelled_def emit_label_def label_part_def Let_def resetTracked_def on_emitter_def setIndent_def
      stmts_def ie_emit_def emit_def pinned_map_def)

lemma emitInstruction_labelled: "emitInstruction inst ie = (emit_arms inst (labelled inst ie))\<lparr>current := None\<rparr>"
  by (simp add: emitInstruction_def labelled_def Let_def)

lemma emitInstruction_simps [simp]:
  "stmts (emitInstruction inst ie) =
     stmts ie @ label_part inst ie @ added (labelled inst ie) (emit_arms inst (labelled inst ie))"
  "leaders (emitInstruction inst ie) = leaders ie" "pinned_map (emitter (emitInstruction inst ie)) = pinned_map (emitter ie)"
  "textStartAddress (emitInstruction inst ie) = textStartAddress ie" "profilingInfo (emitInstruction inst ie) = profilingInfo ie"
  using extends_arms [of "labelled inst ie" inst] added_arms(1) [of inst "labelled inst ie"]
  by (simp_all add: emitInstruction_labelled extends_def)

lemma emit_all_simps:
  "leaders (fold emitInstruction insts ie) = leaders ie"
  "pinned_map (emitter (fold emitInstruction insts ie)) = pinned_map (emitter ie)"
  "textStartAddress (fold emitInstruction insts ie) = textStartAddress ie"
  "profilingInfo (fold emitInstruction insts ie) = profilingInfo ie"
  by (induction insts arbitrary: ie) simp_all

lemma emit_all_prefix: "\<exists>new. stmts (fold emitInstruction insts ie) = stmts ie @ new"
proof (induction insts arbitrary: ie)
  case (Cons inst insts)
  then obtain new where "stmts (fold emitInstruction insts (emitInstruction inst ie)) = stmts (emitInstruction inst ie) @ new"
    by blast
  then show ?case by simp
qed simp

section \<open>The code of a binary\<close>

lemma ie_at_simps [simp]:
  "leaders (ie_at bin opts info k) = translation_leaders bin opts info"
  "textStartAddress (ie_at bin opts info k) = getTextStartAddress bin" "profilingInfo (ie_at bin opts info k) = info"
  "fst ` set (pinned_map (emitter (ie_at bin opts info k))) = fst ` set (pinned (translated_program bin opts info))"
  by (simp_all add: ie_at_def emit_all_simps initial_ie_def new_InstructionEmitter_def translated_program_def)

lemma pins_labelled [simp]:
  "pins (emitter (labelled inst (ie_at bin opts info k))) = fst ` set (pinned (translated_program bin opts info))"
  by (simp add: pins_map)

lemma ie_at_Suc:
  "k < length (decodeToContainer bin) \<Longrightarrow>
     ie_at bin opts info (Suc k) = emitInstruction (decodeToContainer bin ! k) (ie_at bin opts info k)"
  by (simp add: ie_at_def take_Suc_conv_app_nth)

lemma ie_at_end: "ie_at bin opts info (length (decodeToContainer bin)) = translated_ie bin opts info"
  by (simp add: ie_at_def translated_ie_def)

lemma stmts_from: "stmts (translated_ie bin opts info) = stmts (ie_at bin opts info k) @ code_from bin opts info k"
proof -
  have "translated_ie bin opts info = fold emitInstruction (drop k (decodeToContainer bin)) (ie_at bin opts info k)"
    unfolding translated_ie_def ie_at_def by (metis append_take_drop_id comp_apply fold_append)
  then obtain new where "stmts (translated_ie bin opts info) = stmts (ie_at bin opts info k) @ new"
    using emit_all_prefix by metis
  then show ?thesis by (simp add: code_from_def added_def)
qed

lemma code_from_Suc:
  assumes "k < length (decodeToContainer bin)"
  shows "code_from bin opts info k = label_part (decodeToContainer bin ! k) (ie_at bin opts info k)
    @ body_at bin opts info k @ code_from bin opts info (Suc k)"
  using stmts_from [of bin opts info k] stmts_from [of bin opts info "Suc k"] ie_at_Suc [OF assms, of opts info]
  by (simp add: body_at_def Let_def)

lemma code_from_end: "code_from bin opts info (length (decodeToContainer bin)) = []"
  by (simp add: code_from_def ie_at_end added_def)

lemma code_from_0: "code (translated_program bin opts info) = code_from bin opts info 0"
  using stmts_from [of bin opts info 0]
  by (simp add: translated_program_def ie_at_def initial_ie_def new_InstructionEmitter_def stmts_def new_Emitter_def)

section \<open>Labels\<close>

lemma find_label_append: "(\<And>x. x \<in> set xs \<Longrightarrow> x \<noteq> Label a) \<Longrightarrow> find_label a (xs @ ys) = find_label a ys"
  by (induction xs) auto

lemma body_no_label: "x \<in> set (body_at bin opts info k) \<Longrightarrow> x \<noteq> Label a"
  unfolding body_at_def Let_def by (rule added_arms(2))

lemma contiguous_inj:
  assumes "contiguous bin" "j < length (decodeToContainer bin)" "k < length (decodeToContainer bin)"
    "address (decodeToContainer bin ! j) = address (decodeToContainer bin ! k)"
  shows "j = k"
proof -
  have "(of_nat (4 * j) :: u32) = of_nat (4 * k)" using assms by (simp add: contiguous_def)
  then have "unat (of_nat (4 * j) :: u32) = unat (of_nat (4 * k) :: u32)" by simp
  moreover have "4 * j < 2 ^ 32" "4 * k < 2 ^ 32" using assms by (auto simp: contiguous_def)
  ultimately show ?thesis by (simp only: unat_of_nat) simp
qed

lemma find_label_from:
  assumes "contiguous bin" "k < length (decodeToContainer bin)"
    "address (decodeToContainer bin ! k) \<in> translation_leaders bin opts info" "j \<le> k"
  shows "find_label (address (decodeToContainer bin ! k)) (code_from bin opts info j)
    = Some (body_at bin opts info k @ code_from bin opts info (Suc k))"
  using assms(4)
proof (induction rule: inc_induct)
  case base
  then show ?case using assms(2,3) by (simp add: code_from_Suc label_part_def)
next
  case (step j)
  let ?a = "address (decodeToContainer bin ! k)"
  have j: "j < length (decodeToContainer bin)" using step.hyps assms(2) by simp
  have "address (decodeToContainer bin ! j) \<noteq> ?a"
    using contiguous_inj [OF assms(1) j assms(2)] step.hyps by auto
  then have "x \<noteq> Label ?a" if "x \<in> set (label_part (decodeToContainer bin ! j) (ie_at bin opts info j) @ body_at bin opts info j)" for x
    using that body_no_label [of x bin opts info j ?a] by (auto simp: label_part_def split: if_splits)
  then show ?case
    using step.IH find_label_append [of "label_part (decodeToContainer bin ! j) (ie_at bin opts info j) @ body_at bin opts info j" ?a]
    by (simp add: code_from_Suc [OF j])
qed

lemma goto_place_label:
  assumes "contiguous bin" "k < length (decodeToContainer bin)"
    "address (decodeToContainer bin ! k) \<in> translation_leaders bin opts info"
  shows "goto_place (translated_program bin opts info) (address (decodeToContainer bin ! k))
    = Code (body_at bin opts info k @ code_from bin opts info (Suc k))"
  using find_label_from [OF assms, of 0] by (simp add: goto_place_def code_from_0)

lemma label_in_from:
  assumes "Label a \<in> set (code_from bin opts info j)" "j \<le> length (decodeToContainer bin)"
  shows "\<exists>k<length (decodeToContainer bin). address (decodeToContainer bin ! k) = a \<and> a \<in> translation_leaders bin opts info"
  using assms(2,1)
proof (induction rule: inc_induct)
  case base
  then show ?case by (simp add: code_from_end)
next
  case (step j)
  then show ?case
    using body_no_label [of "Label a" bin opts info j a] by (auto simp: code_from_Suc label_part_def split: if_splits)
qed

lemma defined_label:
  assumes "Label a \<in> set (code (translated_program bin opts info))"
  obtains k where "k < length (decodeToContainer bin)" "address (decodeToContainer bin ! k) = a" "a \<in> translation_leaders bin opts info"
  using label_in_from [of a bin opts info 0] assms by (auto simp: code_from_0)

lemma body_in_code:
  assumes "k < length (decodeToContainer bin)" "x \<in> set (body_at bin opts info k)"
  shows "x \<in> set (code (translated_program bin opts info))"
proof -
  have "set (code_from bin opts info j) \<subseteq> set (code_from bin opts info i)" if "i \<le> j" "j \<le> length (decodeToContainer bin)" for i j
    using that by (induction rule: inc_induct) (auto simp: code_from_Suc)
  from this [of 0 k] show ?thesis using assms by (auto simp: code_from_Suc code_from_0)
qed

section \<open>Running blocks\<close>

lemma falls_through:
  "on_ctx s r = Running (s', fl) \<Longrightarrow> fl = Fall" "call_ctx s r = Running (s', fl) \<Longrightarrow> fl = Fall"
  "assign_value l v s = Running (s', fl) \<Longrightarrow> fl = Fall"
  subgoal by (cases r) (simp_all add: on_ctx_def)
  subgoal by (cases r) (simp_all add: call_ctx_def)
  subgoal by (simp add: assign_value_def split: option.splits)
  done

lemma arms_fall_through: "exec_arms arms l e s = Running (s', fl) \<Longrightarrow> fl = Fall"
  by (induction arms l e s rule: exec_arms.induct) (auto split: option.splits bool.splits dest: falls_through)

lemma exec_list_target:
  "exec_list h xs s = Running (s', ToLabel a) \<Longrightarrow> \<exists>x\<in>set xs. a \<in> goto_targets x"
proof (induction xs arbitrary: s)
  case (Cons x xs)
  obtain s1 fl where x: "exec h x s = Running (s1, fl)" using Cons.prems by (cases "exec h x s") auto
  show ?case
  proof (cases "fl = Fall")
    case True
    then show ?thesis using Cons x by auto
  next
    case False
    then have fl: "fl = ToLabel a" using Cons.prems x by simp
    have "a \<in> goto_targets x"
      using x unfolding fl
      by (cases "(h, x, s)" rule: exec.cases)
        (auto dest: falls_through arms_fall_through split: option.splits if_splits)
    then show ?thesis by simp
  qed
qed simp

lemma run_block:
  "exec_list h xs s = Running (s', fl) \<Longrightarrow>
     \<exists>n. iterate (tstep h P) n (Code (xs @ ys), s) = Running (place_after P ys fl, s')"
proof (induction xs arbitrary: s)
  case Nil
  then show ?case by (intro exI [of _ 0]) simp
next
  case (Cons x xs)
  obtain s1 fl1 where x: "exec h x s = Running (s1, fl1)" using Cons.prems by (cases "exec h x s") auto
  show ?case
  proof (cases "fl1 = Fall")
    case True
    then obtain n where "iterate (tstep h P) n (Code (xs @ ys), s1) = Running (place_after P ys fl, s')"
      using Cons x by fastforce
    then show ?thesis using x True by (intro exI [of _ "Suc n"]) simp
  next
    case False
    then have "fl1 = fl" "s1 = s'" using Cons.prems x by auto
    then show ?thesis using x False by (intro exI [of _ 1]) (cases fl; simp)
  qed
qed

lemma run_block_exit:
  "exec_list h xs s = Exited c (s', fl) \<Longrightarrow> \<exists>n pl. iterate (tstep h P) n (Code (xs @ ys), s) = Exited c (pl, s')"
proof (induction xs arbitrary: s)
  case (Cons x xs)
  show ?case
  proof (cases "exec h x s")
    case (Running r)
    obtain s1 fl1 where r: "r = (s1, fl1)" by fastforce
    then have fl: "fl1 = Fall" "exec_list h xs s1 = Exited c (s', fl)" using Cons.prems Running by (auto split: if_splits)
    obtain n pl where "iterate (tstep h P) n (Code (xs @ ys), s1) = Exited c (pl, s')" using Cons.IH [OF fl(2)] by blast
    then show ?thesis using Running r fl by (intro exI [of _ "Suc n"] exI [of _ pl]) simp
  next
    case (Exited d r)
    then show ?thesis using Cons.prems by (cases r) (auto intro!: exI [of _ 1])
  qed (use Cons.prems in auto)
qed simp

section \<open>The guest's next instruction\<close>

lemma translated_program_simps [simp]:
  "text_base (translated_program bin opts info) = getTextStartAddress bin"
  "length (table (translated_program bin opts info)) = Suc (unat (getTextWordCount bin))"
  by (simp_all add: translated_program_def dispatch_slots_def)

lemma x0_not_pinned: "REG_x0 \<notin> fst ` set (pinned (translated_program bin opts info))"
  by (auto simp: translated_program_def pinned_map_def new_Emitter_def x86RegisterMap_def)

lemma table_at:
  assumes "contiguous bin" "k < length (decodeToContainer bin)"
  shows "table (translated_program bin opts info) ! k =
    (if address (decodeToContainer bin ! k) \<in> translation_leaders bin opts info
     then SlotLabel (address (decodeToContainer bin ! k)) else SlotInvalid)"
  using assms by (simp add: translated_program_def dispatch_slots_def contiguous_def nth_append Let_def mult.commute)

lemma index_of_address:
  assumes "contiguous bin" "k < length (decodeToContainer bin)"
  shows "unat ((address (decodeToContainer bin ! k) - getTextStartAddress bin) div 4) = k"
proof -
  have "4 * k < 2 ^ 32" using assms by (simp add: contiguous_def)
  then have "unat (of_nat (4 * k) :: u32) = 4 * k" by (simp only: unat_of_nat) simp
  then show ?thesis using assms by (simp add: contiguous_def unat_div)
qed

lemma next_instruction:
  assumes "contiguous bin" "translatable bin m"
  obtains k w where "k < length (decodeToContainer bin)" "pc m = address (decodeToContainer bin ! k)"
    "decodeToContainer bin ! k = decode w (pc m)" "agreeing (decodeToContainer bin ! k) m" "profile m = None"
    "unat ((pc m - getTextStartAddress bin) div 4) = k"
proof -
  obtain inst w where f: "fetch_instruction (decodeToContainer bin) (getTextStartAddress bin) (pc m) = Some inst" "inst = decode w (pc m)"
    using assms(2) by (auto simp: translatable_def code_current_def split: option.splits)
  define k where "k = unat ((pc m - getTextStartAddress bin) div 4)"
  have k: "k < length (decodeToContainer bin)" "decodeToContainer bin ! k = inst"
    using f(1) by (simp_all add: fetch_instruction_def k_def Let_def split: if_splits)
  show thesis
    by (rule that [of k w]) (use k f assms(2) in \<open>simp_all add: translatable_def k_def\<close>)
qed

lemma runs_next_instruction:
  assumes "contiguous bin" "translatable bin m" "k < length (decodeToContainer bin)" "pc m = address (decodeToContainer bin ! k)"
  shows "runInstruction h m = runInstructionPredecoded h m (decodeToContainer bin ! k)"
    and "runInstructionSwitch h m = runInstruction h m"
proof -
  have "runInstruction h m = predecoded_step h (decodeToContainer bin) (getTextStartAddress bin) m"
    by (rule chain_predecoded.agree) (use assms(2) in \<open>simp add: translatable_def logs_agree_def\<close>)
  also have "\<dots> = runInstructionPredecoded h m (decodeToContainer bin ! k)"
    using assms index_of_address [OF assms(1,3)] by (simp add: predecoded_step_def fetch_instruction_def load_then_def)
  finally show "runInstruction h m = runInstructionPredecoded h m (decodeToContainer bin ! k)" .
  show "runInstructionSwitch h m = runInstruction h m"
    by (rule switch_chain.agree) (use assms(2) in \<open>simp add: translatable_def\<close>)
qed

section \<open>Reaching the code of an instruction\<close>

lemma labelled_tracking:
  "address inst \<in> leaders ie \<Longrightarrow> tracked_ok (labelled inst ie) m"
  "address inst \<notin> leaders ie \<Longrightarrow> tracked_ok (labelled inst ie) m = tracked_ok ie m"
  by (simp_all add: tracked_ok_def labelled_def emit_label_def Let_def resetTracked_def on_emitter_def ie_emit_def)

lemma emitInstruction_tracking:
  "tracked_ok (emitInstruction inst ie) m = tracked_ok (emit_arms inst (labelled inst ie)) m"
  by (simp add: emitInstruction_labelled tracked_ok_def)

lemma at_label:
  assumes "contiguous bin" "k < length (decodeToContainer bin)" "pc m = address (decodeToContainer bin ! k)"
    "pc m \<in> translation_leaders bin opts info" "represents (fst ` set (pinned (translated_program bin opts info))) s m"
  shows "corresponds bin opts info (goto_place (translated_program bin opts info) (pc m), s) m"
  using goto_place_label [of bin k opts info] labelled_tracking(1) [of "decodeToContainer bin ! k" "ie_at bin opts info k" m] assms
  by auto

lemma after_instruction:
  assumes "contiguous bin" "k < length (decodeToContainer bin)" "pc m = address (decodeToContainer bin ! k) + 4"
    "represents (fst ` set (pinned (translated_program bin opts info))) s m" "tracked_ok (ie_at bin opts info (Suc k)) m"
  shows "\<exists>n t. iterate (tstep h (translated_program bin opts info)) n (Code (code_from bin opts info (Suc k)), s) = Running t
    \<and> corresponds bin opts info t m"
proof -
  have addr: "pc m = getTextStartAddress bin + of_nat (4 * Suc k)" using assms(1-3) by (simp add: contiguous_def)
  show ?thesis
  proof (cases "Suc k < length (decodeToContainer bin)")
    case False
    then have "Suc k = length (decodeToContainer bin)" using assms(2) by simp
    then show ?thesis using assms(4) addr code_from_end [of bin opts info] by (intro exI [of _ 0]) auto
  next
    case True
    let ?inst = "decodeToContainer bin ! Suc k"
    have pc: "pc m = address ?inst" using addr True assms(1) by (simp add: contiguous_def)
    note code = code_from_Suc [OF True, of opts info]
    show ?thesis
    proof (cases "pc m \<in> translation_leaders bin opts info")
      case leader: True
      then show ?thesis
        using True assms(4) pc code labelled_tracking(1) [of ?inst "ie_at bin opts info (Suc k)" m]
        by (intro exI [of _ 1]) (auto simp: label_part_def)
    next
      case False
      then show ?thesis
        using True assms(4,5) pc code labelled_tracking(2) [of ?inst "ie_at bin opts info (Suc k)" m]
        by (intro exI [of _ 0]) (auto simp: label_part_def)
    qed
  qed
qed

section \<open>Simulation\<close>

text \<open>Running the statements of an instruction.\<close>

text \<open>Where the control flow of a block that ran goes, the generated program stands where the next instruction of the
  guest is.\<close>

lemma flow_lands:
  assumes c: "contiguous bin" "compiles (translated_program bin opts info)" and k: "k < length (decodeToContainer bin)"
    and ran: "exec_list h' (body_at bin opts info k) s = Running (s', fl)"
    and rep: "represents (fst ` set (pinned (translated_program bin opts info))) s' m'"
    and tracked: "tracked_ok (emit_arms (decodeToContainer bin ! k) (labelled (decodeToContainer bin ! k) (ie_at bin opts info k))) m'"
    and flow: "flow_ok (getTextStartAddress bin) fl (address (decodeToContainer bin ! k)) s' m'"
  shows "\<exists>j t. iterate (tstep h (translated_program bin opts info)) j
      (place_after (translated_program bin opts info) (code_from bin opts info (Suc k)) fl, s') = Running t \<and> corresponds bin opts info t m'"
proof (cases fl)
  case Fall
  have "tracked_ok (ie_at bin opts info (Suc k)) m'"
    using tracked by (simp add: ie_at_Suc [OF k] emitInstruction_tracking)
  then show ?thesis using after_instruction [OF c(1) k _ rep] flow Fall by simp
next
  case (ToLabel a)
  obtain x where "x \<in> set (body_at bin opts info k)" "a \<in> goto_targets x"
    using exec_list_target ran ToLabel by blast
  then have "Label a \<in> set (code (translated_program bin opts info))" using body_in_code [OF k] c(2) by (auto simp: compiles_def)
  then obtain j where "j < length (decodeToContainer bin)" "address (decodeToContainer bin ! j) = a"
    "a \<in> translation_leaders bin opts info" by (rule defined_label)
  then have "corresponds bin opts info (goto_place (translated_program bin opts info) (pc m'), s') m'"
    using at_label [OF c(1) _ _ _ rep, of j] flow ToLabel by simp
  then show ?thesis using flow ToLabel by (intro exI [of _ 0]) auto
next
  case ToLoop
  then show ?thesis using rep flow by (intro exI [of _ 0]) simp
next
  case ToDispatch
  then show ?thesis using rep flow by (intro exI [of _ 0]) (simp add: dispatch_index_def)
qed

lemma code_step:
  assumes c: "contiguous bin" "compiles (translated_program bin opts info)" and tr: "translatable bin m"
    and k: "k < length (decodeToContainer bin)" "pc m = address (decodeToContainer bin ! k)"
    and s: "represents (fst ` set (pinned (translated_program bin opts info))) s m"
      "tracked_ok (labelled (decodeToContainer bin ! k) (ie_at bin opts info k)) m"
  shows "runInstruction h m = Running m' \<Longrightarrow>
      \<exists>n t. iterate (tstep h (translated_program bin opts info)) n (Code (body_at bin opts info k @ code_from bin opts info (Suc k)), s) = Running t
        \<and> corresponds bin opts info t m'"
    and "runInstruction h m = Exited e m' \<Longrightarrow>
      \<exists>n pl s'. iterate (tstep h (translated_program bin opts info)) n (Code (body_at bin opts info k @ code_from bin opts info (Suc k)), s) = Exited e (pl, s')
        \<and> world (ctx s') = world m'"
proof -
  let ?P = "translated_program bin opts info" and ?inst = "decodeToContainer bin ! k"
  let ?ie = "labelled ?inst (ie_at bin opts info k)"
  obtain k' w where w: "?inst = decode w (pc m)" "agreeing ?inst m" "profile m = None"
    by (rule next_instruction [OF c(1) tr]) (use contiguous_inj [OF c(1) _ k(1)] k(2) in metis)
  have "ready ?ie ?inst s m" using s w(3) k(2) by (simp add: ready_def)
  moreover have "operands_ok ?inst" unfolding w(1) by (rule decode_operands_ok)
  ultimately have sim: "simulates h ?inst ?ie s m" using w(2) by (rule simulates_all)
  note run = runs_next_instruction [OF c(1) tr k, of h]
  have body: "added ?ie (emit_arms ?inst ?ie) = body_at bin opts info k" by (simp add: body_at_def Let_def)
  {
    assume r: "runInstruction h m = Running m'"
    obtain s' fl where b: "exec_list h (body_at bin opts info k) s = Running (s', fl)"
      "represents (fst ` set (pinned ?P)) s' m'" "tracked_ok (emit_arms ?inst ?ie) m'"
      "flow_ok (getTextStartAddress bin) fl (address ?inst) s' m'"
      using sim r run(1) unfolding simulates_def body by auto
    obtain n where n: "iterate (tstep h ?P) n (Code (body_at bin opts info k @ code_from bin opts info (Suc k)), s)
        = Running (place_after ?P (code_from bin opts info (Suc k)) fl, s')"
      using run_block [OF b(1)] by blast
    note flow_lands [OF c k(1) b, where h = h]
    then obtain j t where "iterate (tstep h ?P) j (place_after ?P (code_from bin opts info (Suc k)) fl, s') = Running t"
      "corresponds bin opts info t m'" by blast
    then show "\<exists>n t. iterate (tstep h ?P) n (Code (body_at bin opts info k @ code_from bin opts info (Suc k)), s) = Running t
        \<and> corresponds bin opts info t m'"
      using n by (intro exI [of _ "n + j"] exI [of _ t]) (simp add: iterate_add)
  }
  assume r: "runInstruction h m = Exited e m'"
  obtain s' fl where "exec_list h (body_at bin opts info k) s = Exited e (s', fl)" "world (ctx s') = world m'"
    using sim r run(1) unfolding simulates_def body by auto
  then show "\<exists>n pl s'. iterate (tstep h ?P) n (Code (body_at bin opts info k @ code_from bin opts info (Suc k)), s) = Exited e (pl, s')
        \<and> world (ctx s') = world m'"
    using run_block_exit by blast
qed

lemma store_represents:
  assumes "represents (fst ` set rm) s m" "pc (ctx s) = pc m"
  shows "ctx (store_registers rm s) = m"
proof -
  have "reg (ctx (store_registers rm s)) r = reg m r" for r
    using assms(1) by (simp add: represents_def guest_reg_def store_registers_def override_on_def)
  then have "reg (ctx (store_registers rm s)) = reg m" by (rule ext)
  then show ?thesis using assms by (cases "ctx s"; cases m) (simp add: represents_def store_registers_def)
qed

lemma load_represents:
  "ctx s = m \<Longrightarrow> reg m REG_x0 = 0 \<Longrightarrow> REG_x0 \<notin> fst ` set rm \<Longrightarrow> represents (fst ` set rm) (load_registers rm s) m"
  by (simp add: represents_def guest_reg_def load_registers_def override_on_def)

lemma table_reaches:
  assumes c: "contiguous bin" and k: "k < length (decodeToContainer bin)" "pc m = address (decodeToContainer bin ! k)"
    and corr: "corresponds bin opts info (AtTable, s) m"
  shows "\<exists>n t. iterate (tstep h (translated_program bin opts info)) n (AtTable, s) = Running t \<and> at_instruction bin opts info k t m"
proof -
  let ?P = "translated_program bin opts info"
  have s: "represents (fst ` set (pinned ?P)) s m" "pc (ctx s) = pc m" and i: "unat (pcDispatchIndex s) = k"
    using corr index_of_address [OF c k(1)] k(2) by (simp_all add: dispatch_index_def)
  have len: "k < length (table ?P)" using c k(1) by (simp add: contiguous_def)
  show ?thesis
  proof (cases "pc m \<in> translation_leaders bin opts info")
    case True
    then have slot: "table ?P ! k = SlotLabel (pc m)" using table_at [OF c k(1)] k(2) by simp
    have "goto_place ?P (pc m) = Code (body_at bin opts info k @ code_from bin opts info (Suc k))"
      using goto_place_label [OF c k(1), of opts info] True k(2) by simp
    moreover have "corresponds bin opts info (goto_place ?P (pc m), s) m" by (rule at_label) (use c k True s in simp_all)
    moreover have "tracked_ok (labelled (decodeToContainer bin ! k) (ie_at bin opts info k)) m"
      using True k(2) by (simp add: labelled_tracking)
    ultimately have "at_instruction bin opts info k (goto_place ?P (pc m), s) m" using s(1) by (simp add: at_instruction_def)
    then show ?thesis using slot len i by (intro exI [of _ 1]) (simp add: table_step_def Let_def)
  next
    case False
    then have slot: "table ?P ! k = SlotInvalid" using table_at [OF c k(1)] k(2) by simp
    let ?s = "store_registers (pinned ?P) s"
    have "ctx ?s = m" using s by (rule store_represents)
    moreover have "pcDispatchIndex ?s = pcDispatchIndex s" by (simp add: store_registers_def)
    ultimately have "at_instruction bin opts info k (Fallback, ?s\<lparr>host_reg := clobber ?s (host_reg ?s)\<rparr>) m"
      using slot s(1) corr by (simp add: at_instruction_def represents_def)
    then show ?thesis using slot len i by (intro exI [of _ 1]) (simp add: table_step_def Let_def)
  qed
qed

lemma loop_step_frame [simp]:
  "ctx (loop_step P s) = ctx s" "pcDispatchIndex (loop_step P s) = dispatch_index P (pc (ctx s))"
  by (simp_all add: loop_step_def timing_check_def Let_def)

lemma loop_step_represents:
  assumes "timing_safe P" "represents (fst ` set (pinned P)) s m"
  shows "represents (fst ` set (pinned P)) (loop_step P s) m"
proof (cases "timed P")
  case True
  then show ?thesis using assms by (simp add: timing_safe_def represents_def guest_reg_def)
qed (use assms in \<open>simp add: loop_step_def\<close>)

lemma loop_reaches:
  assumes c: "contiguous bin" "timing_safe (translated_program bin opts info)" and k: "k < length (decodeToContainer bin)" "pc m = address (decodeToContainer bin ! k)"
    and corr: "corresponds bin opts info (LoopTop, s) m"
  shows "\<exists>n t. iterate (tstep h (translated_program bin opts info)) n (LoopTop, s) = Running t \<and> at_instruction bin opts info k t m"
proof -
  let ?s = "loop_step (translated_program bin opts info) s"
  have "corresponds bin opts info (AtTable, ?s) m" using corr by (simp add: loop_step_represents [OF c(2)])
  from table_reaches [OF c(1) k this] obtain n t where
    "iterate (tstep h (translated_program bin opts info)) n (AtTable, ?s) = Running t" "at_instruction bin opts info k t m" by blast
  then show ?thesis by (intro exI [of _ "Suc n"]) simp
qed

lemma text_end_no_instruction:
  assumes "contiguous bin" "k < length (decodeToContainer bin)"
  shows "address (decodeToContainer bin ! k) \<noteq> getTextStartAddress bin + of_nat (4 * length (decodeToContainer bin))"
proof
  assume "address (decodeToContainer bin ! k) = getTextStartAddress bin + of_nat (4 * length (decodeToContainer bin))"
  then have "unat (of_nat (4 * k) :: u32) = unat (of_nat (4 * length (decodeToContainer bin)) :: u32)"
    using assms by (simp add: contiguous_def)
  then show False using assms by (simp only: unat_of_nat) (simp add: contiguous_def)
qed

lemma fallback_reaches:
  assumes c: "contiguous bin" "timing_safe (translated_program bin opts info)" and k: "k < length (decodeToContainer bin)" "pc m = address (decodeToContainer bin ! k)"
    and corr: "corresponds bin opts info (Fallback, s) m"
  shows "\<exists>n t'. iterate (tstep h (translated_program bin opts info)) n (Fallback, s) = Running t' \<and> at_instruction bin opts info k t' m"
proof (cases "table (translated_program bin opts info) ! k = SlotInvalid")
  case True
  then show ?thesis using corr by (intro exI [of _ 0] exI [of _ "(Fallback, s)"]) (simp add: at_instruction_def)
next
  case False
  let ?P = "translated_program bin opts info"
  have i: "unat (pcDispatchIndex s) = k" using corr index_of_address [OF c(1) k(1)] k(2) by (simp add: dispatch_index_def)
  have "represents (fst ` set (pinned ?P)) (load_registers (pinned ?P) s) m"
    by (rule load_represents) (use corr in simp_all)
  then have "corresponds bin opts info (LoopTop, load_registers (pinned ?P) s) m"
    using corr by (simp add: load_registers_def)
  from loop_reaches [OF c k this] obtain n t' where n:
    "iterate (tstep h ?P) n (LoopTop, load_registers (pinned ?P) s) = Running t'" "at_instruction bin opts info k t' m" by blast
  have "k < length (table ?P)" using c(1) k(1) by (simp add: contiguous_def)
  then have "tstep h ?P (Fallback, s) = Running (LoopTop, load_registers (pinned ?P) s)"
    using False i by (simp add: fallback_step_def Let_def)
  then show ?thesis using n by (intro exI [of _ "Suc n"]) simp
qed

lemma reaches_instruction:
  assumes c: "contiguous bin" "timing_safe (translated_program bin opts info)" and k: "k < length (decodeToContainer bin)" "pc m = address (decodeToContainer bin ! k)"
    and corr: "corresponds bin opts info t m"
  shows "\<exists>n t'. iterate (tstep h (translated_program bin opts info)) n t = Running t' \<and> at_instruction bin opts info k t' m"
proof -
  let ?P = "translated_program bin opts info"
  obtain pl s where t: "t = (pl, s)" by fastforce
  show ?thesis
  proof (cases pl)
    case (Code rest)
    obtain j where j: "j < length (decodeToContainer bin)" "pc m = address (decodeToContainer bin ! j)"
      "rest = body_at bin opts info j @ code_from bin opts info (Suc j)"
      "tracked_ok (labelled (decodeToContainer bin ! j) (ie_at bin opts info j)) m"
      using corr t Code k(2) text_end_no_instruction [OF c(1) k(1)] by auto
    have "j = k" using contiguous_inj [OF c(1) j(1) k(1)] j(2) k(2) by simp
    then show ?thesis using j corr t Code by (intro exI [of _ 0] exI [of _ t]) (simp add: at_instruction_def)
  next
    case LoopTop
    then show ?thesis using loop_reaches [OF c k] corr t by simp
  next
    case AtTable
    then show ?thesis using table_reaches [OF c(1) k] corr t by simp
  next
    case Fallback
    then show ?thesis using fallback_reaches [OF c k] corr t by simp
  next
    case (NoLabel a)
    then show ?thesis using corr t by simp
  qed
qed

lemma x0_after: "runInstructionPredecoded h m inst = Running m' \<Longrightarrow> reg m' REG_x0 = 0"
  by (cases "predecoded_arms h (logRegister (registerUse (itype inst)) (rs1 inst) (rs2 inst) (rd inst) m) inst")
    (auto simp: runInstructionPredecoded_def finish_def)

lemma fallback_runs:
  assumes "contiguous bin" "translatable bin m" "k < length (decodeToContainer bin)" "pc m = address (decodeToContainer bin ! k)"
    and "corresponds bin opts info (Fallback, s) m" "table (translated_program bin opts info) ! k = SlotInvalid"
  shows "tstep h (translated_program bin opts info) (Fallback, s) =
    omap (\<lambda>m'. (Fallback, s\<lparr>ctx := m', host_reg := clobber s (host_reg s),
      pcDispatchIndex := dispatch_index (translated_program bin opts info) (pc m')\<rparr>)) (runInstruction h m)"
proof -
  have "unat (pcDispatchIndex s) = k" using assms(4,5) index_of_address [OF assms(1,3)] by (simp add: dispatch_index_def)
  moreover have "k < length (table (translated_program bin opts info))" using assms(1,3) by (simp add: contiguous_def)
  ultimately show ?thesis
    using assms(5,6) runs_next_instruction(2) [OF assms(1-4), of h] by (simp add: fallback_step_def Let_def)
qed

interpretation generated: forward_simulation "runInstruction h" "tstep h (translated_program bin opts info)" "corresponds bin opts info"
  "\<lambda>m. contiguous bin \<and> compiles (translated_program bin opts info) \<and> timing_safe (translated_program bin opts info) \<and> translatable bin m" "\<lambda>t m. world (ctx (snd t)) = world m"
  for h :: "'w host" and bin opts info
proof
  fix t :: "place \<times> 'w tstate" and m m' :: "'w machine" and e
  let ?P = "translated_program bin opts info"
  assume corr: "corresponds bin opts info t m" and ok: "contiguous bin \<and> compiles ?P \<and> timing_safe ?P \<and> translatable bin m"
  then have c: "contiguous bin" "compiles ?P" "translatable bin m" and timing: "timing_safe ?P" by simp_all
  obtain k where k: "k < length (decodeToContainer bin)" "pc m = address (decodeToContainer bin ! k)"
    by (rule next_instruction [OF c(1,3)])
  obtain n t1 where n: "iterate (tstep h ?P) n t = Running t1" "at_instruction bin opts info k t1 m"
    using reaches_instruction [OF c(1) timing k corr] by blast
  have glue: "iterate (tstep h ?P) (n + j) t = iterate (tstep h ?P) j t1" for j using n(1) by (simp add: iterate_add)
  consider s where "t1 = (Code (body_at bin opts info k @ code_from bin opts info (Suc k)), s)"
      "represents (fst ` set (pinned ?P)) s m" "tracked_ok (labelled (decodeToContainer bin ! k) (ie_at bin opts info k)) m"
    | s where "t1 = (Fallback, s)" "corresponds bin opts info (Fallback, s) m" "table ?P ! k = SlotInvalid"
    using n(2) by (auto simp: at_instruction_def)
  note place = this
  {
    assume run: "runInstruction h m = Running m'"
    have "\<exists>j t'. iterate (tstep h ?P) j t1 = Running t' \<and> corresponds bin opts info t' m'"
    proof (cases rule: place)
      case (1 s)
      then show ?thesis using code_step(1) [OF c k 1(2,3) run] by simp
    next
      case (2 s)
      have "reg m' REG_x0 = 0" using run runs_next_instruction(1) [OF c(1,3) k, of h] x0_after by metis
      then show ?thesis using 2 fallback_runs [OF c(1,3) k 2(2,3), of h] run by (intro exI [of _ 1]) simp
    qed
    then show "\<exists>j t'. iterate (tstep h ?P) j t = Running t' \<and> corresponds bin opts info t' m'" using glue by metis
  }
  assume run: "runInstruction h m = Exited e m'"
  have "\<exists>j t'. iterate (tstep h ?P) j t1 = Exited e t' \<and> world (ctx (snd t')) = world m'"
  proof (cases rule: place)
    case (1 s)
    then show ?thesis using code_step(2) [OF c k 1(2,3) run] by auto
  next
    case (2 s)
    then show ?thesis using fallback_runs [OF c(1,3) k 2(2,3), of h] run by (intro exI [of _ 1]) simp
  qed
  then show "\<exists>j t'. iterate (tstep h ?P) j t = Exited e t' \<and> world (ctx (snd t')) = world m'" using glue by metis
qed

section \<open>Labels that are used\<close>

lemma code_parts:
  assumes "j \<le> length (decodeToContainer bin)"
  shows "set (code_from bin opts info j) =
    (\<Union>k\<in>{j..<length (decodeToContainer bin)}. set (label_part (decodeToContainer bin ! k) (ie_at bin opts info k)) \<union> set (body_at bin opts info k))"
  using assms
proof (induction rule: inc_induct)
  case base
  then show ?case by (simp add: code_from_end)
next
  case (step j)
  then have "{j..<length (decodeToContainer bin)} = insert j {Suc j..<length (decodeToContainer bin)}" by auto
  then show ?case using step by (simp add: code_from_Suc Un_assoc)
qed

lemma leader_label:
  assumes "a \<in> address ` set (decodeToContainer bin) \<inter> translation_leaders bin opts info"
  shows "Label a \<in> set (code (translated_program bin opts info))"
proof -
  obtain k where "k < length (decodeToContainer bin)" "a = address (decodeToContainer bin ! k)"
    using assms by (auto simp: in_set_conv_nth)
  then show ?thesis using assms by (auto simp: code_from_0 code_parts label_part_def intro!: bexI [of _ k])
qed

lemma body_of_code:
  assumes "x \<in> set (code (translated_program bin opts info))"
  obtains k where "k < length (decodeToContainer bin)" "x \<in> set (body_at bin opts info k)" | a where "x = Label a"
  using assms by (auto simp: code_from_0 code_parts label_part_def split: if_splits)

lemma recorded_destination: "a \<in> fst ` set (getIndirectBranchTargets info b) \<Longrightarrow> a \<in> recorded_targets info"
  by (cases "map_of (indirectBranchTargets info) b")
    (auto simp: getIndirectBranchTargets_def recorded_targets_def split_def dest: map_of_SomeD intro!: bexI image_eqI)

lemma jump_label_leader:
  assumes "k < length (decodeToContainer bin)" "itype (decodeToContainer bin ! k) \<in> branch_types \<union> {I_JAL}"
  shows "address (decodeToContainer bin ! k) + immediate (decodeToContainer bin ! k) \<in> translation_leaders bin opts info"
proof -
  have "address (decodeToContainer bin ! k) + immediate (decodeToContainer bin ! k) \<in> static_targets (decodeToContainer bin ! k)"
    using assms(2) by (auto simp: static_targets_def branch_types_def)
  then show ?thesis
    using static_targets_lead [OF nth_mem [OF assms(1)], of opts info] harvest_keeps unfolding translation_leaders_def by blast
qed

lemma slot_leader:
  assumes "contiguous bin" "SlotLabel a \<in> set (table (translated_program bin opts info))"
  shows "a \<in> address ` set (decodeToContainer bin) \<inter> translation_leaders bin opts info"
proof -
  obtain i where i: "i < Suc (length (decodeToContainer bin))" "table (translated_program bin opts info) ! i = SlotLabel a"
    using assms by (auto simp: in_set_conv_nth contiguous_def)
  moreover have "table (translated_program bin opts info) ! length (decodeToContainer bin) = SlotExit"
    using assms(1) by (simp add: translated_program_def dispatch_slots_def contiguous_def nth_append)
  ultimately have "i < length (decodeToContainer bin)" by (auto simp: less_Suc_eq)
  then show ?thesis using i table_at [OF assms(1)] by (auto split: if_splits)
qed

lemma labels_defined:
  assumes "contiguous bin"
    and "\<And>inst. inst \<in> set (decodeToContainer bin) \<Longrightarrow> itype inst \<in> branch_types \<union> {I_JAL} \<Longrightarrow>
      address inst + immediate inst \<in> address ` set (decodeToContainer bin)"
    and "\<And>a. a \<in> recorded_targets info \<Longrightarrow> a \<in> translation_leaders bin opts info \<Longrightarrow> a \<in> address ` set (decodeToContainer bin)"
  shows "compiles (translated_program bin opts info)"
proof -
  let ?P = "translated_program bin opts info" and ?L = "decodeToContainer bin"
  have used: "a \<in> address ` set ?L \<inter> translation_leaders bin opts info"
    if "k < length ?L" "x \<in> set (body_at bin opts info k)" "a \<in> goto_targets x" for k x a
  proof -
    have "a \<in> jump_labels (translation_leaders bin opts info) info (?L ! k)"
      using added_arms(3) [of x "labelled (?L ! k) (ie_at bin opts info k)"] that by (auto simp: body_at_def Let_def)
    then show ?thesis
      using assms(2,3) jump_label_leader [OF that(1)] nth_mem [OF that(1)] recorded_destination
      by (fastforce simp: jump_labels_def split: if_splits)
  qed
  have "Label a \<in> set (code ?P)" if x: "x \<in> set (code ?P)" "a \<in> goto_targets x" for x a
  proof -
    obtain k where "k < length ?L" "x \<in> set (body_at bin opts info k)"
      by (rule body_of_code [OF x(1)]) (use x(2) in auto)
    then show ?thesis using used [OF _ _ x(2)] leader_label by blast
  qed
  moreover have "Label a \<in> set (code ?P)" if "SlotLabel a \<in> set (table ?P)" for a
    using slot_leader [OF assms(1) that] by (rule leader_label)
  ultimately show ?thesis by (simp add: compiles_def)
qed

section \<open>A guest that loops\<close>

lemma jal_decoded: "decode 0xFFDFF06F a = \<lparr>itype = I_JAL, instruction = 0xFFDFF06F, immediate = - 4,
    address = a, rs1 = 31, rs2 = 29, rd = 0, handler = None\<rparr>"
proof -
  let ?s = "mk_spec I_JAL FMT_J 0b1101111 False 0 False 0 0 0"
  have "?s \<in> set all_specs" by (simp add: spec_tables)
  moreover have "spec_matches 0xFFDFF06F ?s" by (simp add: spec_matches_def getOpcode_def)
  ultimately show ?thesis
    by (simp add: decode_eq_spec decode_spec_def J_FMT_imm_def getRS1_def getRS2_def getRD_def)
qed

lemmas loop_decoded = jal_decoded addi_decoded

lemma loop_code:
  "decodeToContainer loop_binary = [decode 0x00500513 0, decode 0xFFDFF06F 4]" "getTextStartAddress loop_binary = 0"
  "getTextWordCount loop_binary = 2"
  by (simp_all add: loop_binary_def decodeToContainer_def getTypeSections_def computeTextBounds_def new_ElfBinary_def demo_section_def
      new_ElfBinarySection_def getTextWordCount_def resolveSectionType_def SHF_EXECINSTR_def SHF_ALLOC_def getEndAddress_def getByteSize_def)

lemma loop_contiguous: "contiguous loop_binary"
  by (simp add: contiguous_def loop_code loop_decoded less_Suc_eq all_conj_distrib)

lemma loop_compiles: "compiles (translated_program loop_binary default_options (new_ProfilingInfo True))"
  by (rule labels_defined)
    (use loop_contiguous in \<open>auto simp: loop_code loop_decoded branch_types_def recorded_targets_def new_ProfilingInfo_def\<close>)

text \<open>The passes through the dispatch loop before anything is printed.\<close>

lemma after_printf_cong:
  "host_reg t = host_reg s \<Longrightarrow> clobber t = clobber s \<Longrightarrow> after_printf rm t = after_printf rm s"
  by (rule ext) (simp add: after_printf_def split: option.split)

lemma warm_passes:
  assumes "timed P" "represents (fst ` set (pinned P)) s m" "timerActive s" "heatup s = 5" "n \<le> 5"
  defines "s' \<equiv> (loop_step P ^^ n) s"
  shows "represents (fst ` set (pinned P)) s' m \<and> timerActive s' \<and> heatup s' = 5 - of_nat n \<and> indirectMeasured s' = indirectMeasured s
    \<and> host_reg s' = host_reg s \<and> clobber s' = clobber s"
  using assms(5) unfolding s'_def
proof (induction n)
  case (Suc n)
  let ?t = "(loop_step P ^^ n) s"
  have n: "n \<in> {0, 1, 2, 3, 4}" using Suc.prems by auto
  then have "heatup ?t \<noteq> 0" "0 < heatup ?t" "heatup ?t - 1 = 5 - of_nat (Suc n)" using Suc by auto
  then have "loop_step P ?t = ?t\<lparr>pcDispatchIndex := dispatch_index P (pc (ctx ?t)), heatup := 5 - of_nat (Suc n)\<rparr>"
    using assms(1) by (simp add: loop_step_def timing_check_def Let_def)
  moreover have "represents R (t\<lparr>heatup := x\<rparr>) m = represents R t m" for R x and t :: "'a tstate"
    by (simp add: represents_def guest_reg_def)
  ultimately show ?case using Suc by simp
qed (use assms in simp)

lemma default_timing: "timing_safe (translated_program bin default_options info)"
  by (simp add: timing_safe_def translated_program_def default_options_def)

lemma loop_translatable: "translatable loop_binary addi_demo"
proof -
  have w: "read_u32 (memory addi_demo) (pc addi_demo) = Some 0x00500513" and p: "pc addi_demo = 0" "profile addi_demo = None"
    by (simp_all add: addi_demo_def boot_machine_def mem_eval)
  have "supported_word 0x00500513" by (simp add: supported_word_def addi_decoded getOpcode_def)
  then show ?thesis
    using w p by (simp add: translatable_def code_current_def supported_code_def fetch_instruction_def loop_code addi_decoded agreeing_def)
qed

lemma loop_first_step:
  "runInstruction recording_host addi_demo = Running (addi_demo\<lparr>pc := 4, reg := (reg addi_demo)(10 := 5)\<rparr>)"
proof -
  have "runInstruction recording_host addi_demo = runInstructionPredecoded recording_host addi_demo (decode 0x00500513 0)"
    using runs_next_instruction(1) [OF loop_contiguous loop_translatable, of 0 recording_host]
    by (simp add: loop_code addi_decoded addi_demo_def boot_machine_def)
  also have "\<dots> = Running (addi_demo\<lparr>pc := 4, reg := (reg addi_demo)(10 := 5)\<rparr>)"
    by (simp add: addi_decoded runInstructionPredecoded_def predecoded_arms_def predecoded_groups finish_def set_reg_def
        addi_demo_def boot_machine_def fun_eq_iff)
  finally show ?thesis .
qed

lemma matched_from_start:
  assumes "contiguous bin" and "compiles (translated_program bin opts info)"
    and "timing_safe (translated_program bin opts info)" and "reg (ctx s) REG_x0 = 0"
    and "\<And>k m. k < n \<Longrightarrow> iterate (runInstruction h) k (ctx s) = Running m \<Longrightarrow> translatable bin m"
  shows "(\<forall>m. iterate (runInstruction h) n (ctx s) = Running m \<longrightarrow>
      (\<exists>k t. iterate (tstep h (translated_program bin opts info)) k (start_translated (translated_program bin opts info) s) = Running t
         \<and> corresponds bin opts info t m)) \<and>
    (\<forall>e m. iterate (runInstruction h) n (ctx s) = Exited e m \<longrightarrow>
      (\<exists>k t. iterate (tstep h (translated_program bin opts info)) k (start_translated (translated_program bin opts info) s) = Exited e t
         \<and> world (ctx (snd t)) = world m))"
proof (rule generated.matched_run)
  let ?rm = "pinned (translated_program bin opts info)"
  have "represents (fst ` set ?rm) (load_registers ?rm s) (ctx s)"
    by (rule load_represents) (use assms(4) x0_not_pinned [of bin opts info] in simp_all)
  then show "corresponds bin opts info (start_translated (translated_program bin opts info) s) (ctx s)"
    by (simp add: start_translated_def load_registers_def)
qed (use assms in auto)

section \<open>Properties\<close>

text \<open>C2: A translated binary simulates its guest.  Let the executable sections of the binary be adjacent, let
  every label the generated code jumps to be defined, let no
  register be pinned while the dispatch loop takes times, and let the guest run, with no profile being recorded, without changing its code or reaching an instruction the engines disagree on.  Then
  whatever state the interpreter reaches in \<open>n\<close> instructions, starting from any machine state in which \<^verbatim>\<open>x0\<close> is 0, the generated
  program reaches a corresponding one (same registers, memory, output and world) in some number of its steps, and when the
  guest exits it exits with the same status and the same effects on the world.  Nothing is said of a guest that faults.  This covers
  translated blocks, register pinning and tracking, direct and indirect jumps with and without
  chaining and branch prediction, the dispatch table, and the fallback to the interpreter and back.\<close>

theorem translated_program_simulates_guest:
  assumes "contiguous bin" and "compiles (translated_program bin opts info)"
    and "timing_safe (translated_program bin opts info)" and "reg (ctx s) REG_x0 = 0"
    and "\<And>k m. k < n \<Longrightarrow> iterate (runInstruction h) k (ctx s) = Running m \<Longrightarrow> translatable bin m"
  shows "(\<forall>m. iterate (runInstruction h) n (ctx s) = Running m \<longrightarrow>
      (\<exists>k t. iterate (tstep h (translated_program bin opts info)) k (start_translated (translated_program bin opts info) s) = Running t
         \<and> corresponds bin opts info t m)) \<and>
    (\<forall>e m. iterate (runInstruction h) n (ctx s) = Exited e m \<longrightarrow>
      (\<exists>k t. iterate (tstep h (translated_program bin opts info)) k (start_translated (translated_program bin opts info) s) = Exited e t
         \<and> world (ctx (snd t)) = world m))"
  by (rule matched_from_start [OF assms])

theorem translated_program_simulates_guest_witness:
  "contiguous loop_binary \<and> compiles (translated_program loop_binary default_options (new_ProfilingInfo True)) \<and>
   (\<exists>k t. iterate (tstep recording_host (translated_program loop_binary default_options (new_ProfilingInfo True))) k
      (start_translated (translated_program loop_binary default_options (new_ProfilingInfo True)) ((demo_state (\<lambda>_. 0))\<lparr>ctx := addi_demo\<rparr>)) = Running t
      \<and> corresponds loop_binary default_options (new_ProfilingInfo True) t (addi_demo\<lparr>pc := 4, reg := (reg addi_demo)(10 := 5)\<rparr>))"
proof -
  let ?s = "(demo_state (\<lambda>_. 0))\<lparr>ctx := addi_demo\<rparr>"
  have x0: "reg (ctx ?s) REG_x0 = 0" by (simp add: addi_demo_def boot_machine_def)
  have ok: "translatable loop_binary m" if "k < 1" "iterate (runInstruction recording_host) k (ctx ?s) = Running m" for k m
    using that loop_translatable by simp
  have "iterate (runInstruction recording_host) 1 (ctx ?s) = Running (addi_demo\<lparr>pc := 4, reg := (reg addi_demo)(10 := 5)\<rparr>)"
    using loop_first_step by simp
  note sim = translated_program_simulates_guest [THEN conjunct1, THEN spec, THEN mp, OF loop_contiguous loop_compiles default_timing x0 _ this]
  show ?thesis by (intro conjI loop_contiguous loop_compiles) (rule sim, rule ok)
qed



text \<open>C16: The generated code compiles as far as its labels are concerned.  Let the executable sections be
  adjacent, let every branch and direct jump of the binary target an instruction of the binary, and let the recorded
  destinations of indirect jumps that became leaders be instructions too.  Then every label
  that generated code or the dispatch table mentions is defined.\<close>

theorem translated_program_compiles:
  assumes "contiguous bin"
    and "\<And>inst. inst \<in> set (decodeToContainer bin) \<Longrightarrow> itype inst \<in> branch_types \<union> {I_JAL} \<Longrightarrow>
      address inst + immediate inst \<in> address ` set (decodeToContainer bin)"
    and "\<And>a. a \<in> recorded_targets info \<Longrightarrow> a \<in> translation_leaders bin opts info \<Longrightarrow> a \<in> address ` set (decodeToContainer bin)"
  shows "compiles (translated_program bin opts info)"
  by (rule labels_defined) (use assms in auto)

theorem translated_program_compiles_witness:
  "contiguous loop_binary \<and> I_JAL \<in> itype ` set (decodeToContainer loop_binary) \<and>
   compiles (translated_program loop_binary default_options (new_ProfilingInfo True))"
proof (intro conjI)
  show "contiguous loop_binary" by (rule loop_contiguous)
  show "I_JAL \<in> itype ` set (decodeToContainer loop_binary)" by (simp add: loop_code loop_decoded)
  show "compiles (translated_program loop_binary default_options (new_ProfilingInfo True))"
    by (rule translated_program_compiles)
      (use loop_contiguous in \<open>auto simp: loop_code loop_decoded branch_types_def recorded_targets_def new_ProfilingInfo_def\<close>)
qed

end
