(* ===== verification/Stack.thy ===== *)
theory Stack
  imports Elf
begin

text \<open>
  The initial stack of a guest, \<^verbatim>\<open>Memory::loadAux\<close>: what the C runtime of the guest finds above its
  stack pointer (the argument count, the argument and environment pointers with their strings, and
  the auxiliary vector), and what the rest of memory keeps.
\<close>

section \<open>Layout\<close>

text \<open>All changes from \<open>m\<close> to \<open>m'\<close> are at addresses in \<open>A\<close>.\<close>

definition changes_only :: "nat set \<Rightarrow> Memory \<Rightarrow> Memory \<Rightarrow> bool" where
  "changes_only A m m' \<longleftrightarrow> (\<forall>b n. {unat b..<unat b + n} \<inter> A = {} \<longrightarrow> mem_read m' b n = mem_read m b n)"

text \<open>An array of pointers at \<open>a\<close> to the zero-terminated strings \<open>ss\<close>, all of which lie in \<open>{lo..<hi}\<close>.\<close>

definition strings_at :: "Memory \<Rightarrow> u32 \<Rightarrow> nat \<Rightarrow> nat \<Rightarrow> u8 list list \<Rightarrow> bool" where
  "strings_at m a lo hi ss \<longleftrightarrow> (\<forall>i<length ss. \<exists>p. read_u32 m (a + of_nat (4 * i)) = Some p
     \<and> lo \<le> unat p \<and> unat p + length (ss ! i) + 1 \<le> hi \<and> mem_read m p (length (ss ! i) + 1) = Some (ss ! i @ [0]))"

definition string_bytes :: "u8 list list \<Rightarrow> nat" where
  "string_bytes ss = sum_list (map (\<lambda>s. length s + 1) ss)"

text \<open>The arguments a guest sees, and the size of the whole block.\<close>

definition guest_args :: "Auxiliary \<Rightarrow> bool \<Rightarrow> u8 list list" where
  "guest_args aux skip = visible_args skip 0 (take (argc aux) (argv aux))"

definition pointer_bytes :: "Auxiliary \<Rightarrow> bool \<Rightarrow> nat" where
  "pointer_bytes aux skip = 28 + 4 * length (guest_args aux skip) + 4 * length (envp aux)"

definition aux_bytes :: "Auxiliary \<Rightarrow> bool \<Rightarrow> nat" where
  "aux_bytes aux skip = pointer_bytes aux skip + string_bytes (guest_args aux skip) + string_bytes (envp aux)"

definition aux_fits :: "Auxiliary \<Rightarrow> bool \<Rightarrow> bool" where
  "aux_fits aux skip \<longleftrightarrow> argc aux = length (argv aux) \<and> (skip \<longrightarrow> 2 \<le> argc aux) \<and> aux_bytes aux skip \<le> unat getSize"

text \<open>
  Where everything is: the count at the stack pointer, the argument pointers and a null pointer, the
  environment pointers and a null pointer, the pairs of the auxiliary vector, and the strings.  The
  null pointers are not written: memory is zero there before.
\<close>

definition argv_at :: "Memory \<Rightarrow> u32" where
  "argv_at m = initialSP m + 4"

definition envp_at :: "Memory \<Rightarrow> nat \<Rightarrow> u32" where
  "envp_at m n = argv_at m + of_nat (4 * n) + 4"

definition auxv_at :: "Memory \<Rightarrow> nat \<Rightarrow> nat \<Rightarrow> u32" where
  "auxv_at m n e = envp_at m n + of_nat (4 * e) + 4"

definition auxv_written :: "Memory \<Rightarrow> u32 \<Rightarrow> bool" where
  "auxv_written m a \<longleftrightarrow> read_u32 m a = Some AT_PAGESZ \<and> read_u32 m (a + 4) = Some (ucast (pageSize m))
     \<and> read_u32 m (a + 8) = Some AT_NULL \<and> read_u32 m (a + 12) = Some 0"

definition stack_layout :: "Memory \<Rightarrow> Memory \<Rightarrow> Auxiliary \<Rightarrow> bool \<Rightarrow> bool" where
  "stack_layout m m' aux skip \<longleftrightarrow>
     (let sp = initialSP m'; n = length (guest_args aux skip); e = length (envp aux);
          lo = unat sp + pointer_bytes aux skip; hi = unat sp + aux_bytes aux skip
      in unat sp mod 2 = 0 \<and> hi \<le> unat getSize \<and> unat getSize \<le> hi + 1 \<and> pageSize m' = getAuxValue (auxv aux) AT_PAGESZ
       \<and> read_u32 m' sp = Some (of_nat n)
       \<and> strings_at m' (argv_at m') lo hi (guest_args aux skip)
       \<and> read_u32 m' (argv_at m' + of_nat (4 * n)) = read_u32 m (argv_at m' + of_nat (4 * n))
       \<and> strings_at m' (envp_at m' n) lo hi (envp aux)
       \<and> read_u32 m' (envp_at m' n + of_nat (4 * e)) = read_u32 m (envp_at m' n + of_nat (4 * e))
       \<and> auxv_written m' (auxv_at m' n e)
       \<and> changes_only {unat sp..<hi} m m')"

definition demo_aux :: Auxiliary where
  "demo_aux = \<lparr>argc = 3, argv = [[0x78], [0x79], [0x68, 0x69]], envp = [[0x41]], auxv = [(3, 64), (6, 4096), (0, 0)]\<rparr>"

section \<open>Changes\<close>

lemma changes_only_refl: "changes_only A m m"
  by (simp add: changes_only_def)

lemma changes_only_trans:
  "changes_only A m m1 \<Longrightarrow> changes_only B m1 m2 \<Longrightarrow> changes_only (A \<union> B) m m2"
  unfolding changes_only_def by (metis Int_Un_distrib Un_empty)

lemma changes_only_mono: "changes_only A m m' \<Longrightarrow> A \<subseteq> B \<Longrightarrow> changes_only B m m'"
  unfolding changes_only_def by blast

lemma changes_only_fields [simp]:
  "changes_only A (m\<lparr>initialSP := sp\<rparr>) m' = changes_only A m m'"
  "changes_only A m (m'\<lparr>pageSize := ps\<rparr>) = changes_only A m m'"
  "changes_only A (m\<lparr>pageSize := ps\<rparr>) m' = changes_only A m m'"
  by (simp_all add: changes_only_def mem_read_def)

lemma changes_only_write:
  assumes "mem_write m a bs = Some m'"
  shows "changes_only {unat a..<unat a + length bs} m m'"
  unfolding changes_only_def
proof (intro allI impI)
  fix b :: u32 and n assume d: "{unat b..<unat b + n} \<inter> {unat a..<unat a + length bs} = {}"
  show "mem_read m' b n = mem_read m b n"
  proof (cases "n = 0 \<or> length bs = 0")
    case True
    then show ?thesis using assms by (auto simp: mem_read_def mem_write_def split: if_splits)
  next
    case False
    have "disjoint_ranges a (length bs) b n"
    proof (rule ccontr)
      assume "\<not> disjoint_ranges a (length bs) b n"
      then have "max (unat a) (unat b) \<in> {unat b..<unat b + n} \<inter> {unat a..<unat a + length bs}"
        using False by (auto simp: disjoint_ranges_def)
      then show False using d by simp
    qed
    then show ?thesis by (rule mem_read_write_other [OF assms])
  qed
qed

lemma write_bytes:
  assumes "unat a + length bs \<le> data_length"
  obtains m' where "mem_write m a bs = Some m'" "mem_read m' a (length bs) = Some bs"
    "changes_only {unat a..<unat a + length bs} m m'" "m'\<lparr>mem_data := mem_data m\<rparr> = m"
proof -
  have "in_bounds a (length bs)" using assms by (simp add: in_bounds_def)
  then obtain m' where m': "mem_write m a bs = Some m'" "m'\<lparr>mem_data := mem_data m\<rparr> = m"
    by (auto simp: mem_write_def)
  show thesis by (rule that [OF m'(1) mem_read_write_same [OF m'(1)] changes_only_write [OF m'(1)] m'(2)])
qed

lemma write_word:
  assumes "unat a + 4 \<le> data_length"
  obtains m' where "write_u32 m a w = Some m'" "read_u32 m' a = Some w"
    "changes_only {unat a..<unat a + 4} m m'" "m'\<lparr>mem_data := mem_data m\<rparr> = m"
proof -
  obtain m' where m': "mem_write m a (le_bytes 4 w) = Some m'" "changes_only {unat a..<unat a + length (le_bytes 4 w)} m m'"
    "m'\<lparr>mem_data := mem_data m\<rparr> = m" by (rule write_bytes [of a "le_bytes 4 w" m]) (use assms in simp_all)
  then have w: "write_u32 m a w = Some m'" by (simp add: write_u32_def)
  show thesis by (rule that [OF w read_u32_write_same [OF w]]) (use m' in simp_all)
qed

lemma read_changes:
  "changes_only A m m' \<Longrightarrow> {unat b..<unat b + n} \<inter> A = {} \<Longrightarrow> mem_read m' b n = mem_read m b n"
  "changes_only A m m' \<Longrightarrow> {unat b..<unat b + 4} \<inter> A = {} \<Longrightarrow> read_u32 m' b = read_u32 m b"
  by (auto simp: changes_only_def intro: read_u32_cong)

lemma strings_at_changes:
  assumes "strings_at m a lo hi ss" "changes_only A m m'" "unat a + 4 * length ss \<le> data_length"
    "A \<inter> {unat a..<unat a + 4 * length ss} = {}" "A \<inter> {lo..<hi} = {}"
  shows "strings_at m' a lo hi ss"
  unfolding strings_at_def
proof (intro allI impI)
  fix i assume i: "i < length ss"
  obtain p where p: "read_u32 m (a + of_nat (4 * i)) = Some p" "lo \<le> unat p" "unat p + length (ss ! i) + 1 \<le> hi"
    "mem_read m p (length (ss ! i) + 1) = Some (ss ! i @ [0])"
    using assms(1) i by (auto simp: strings_at_def)
  have "unat (a + of_nat (4 * i)) = unat a + 4 * i" by (rule unat_word_address [OF assms(3)]) (use i in simp)
  then have "{unat (a + of_nat (4 * i))..<unat (a + of_nat (4 * i)) + 4} \<subseteq> {unat a..<unat a + 4 * length ss}" using i by auto
  then have "{unat (a + of_nat (4 * i))..<unat (a + of_nat (4 * i)) + 4} \<inter> A = {}" using assms(4) by blast
  from read_changes(2) [OF assms(2) this] have "read_u32 m' (a + of_nat (4 * i)) = Some p" using p(1) by (rule trans)
  moreover have "{unat p..<unat p + (length (ss ! i) + 1)} \<subseteq> {lo..<hi}" using p by auto
  then have "{unat p..<unat p + (length (ss ! i) + 1)} \<inter> A = {}" using assms(5) by blast
  from read_changes(1) [OF assms(2) this] have "mem_read m' p (length (ss ! i) + 1) = Some (ss ! i @ [0])" using p(4) by (rule trans)
  ultimately show "\<exists>p. read_u32 m' (a + of_nat (4 * i)) = Some p \<and> lo \<le> unat p \<and> unat p + length (ss ! i) + 1 \<le> hi
     \<and> mem_read m' p (length (ss ! i) + 1) = Some (ss ! i @ [0])" using p by blast
qed

lemma loads_as_changes:
  assumes "loads_as mem sec" "changes_only A mem mem'" "unat (getLoadAddress sec) + 4 * length (sec_data sec) \<le> data_length"
    "{unat (getLoadAddress sec)..<unat (getLoadAddress sec) + 4 * length (sec_data sec)} \<inter> A = {}"
  shows "loads_as mem' sec"
  unfolding loads_as_def
proof (intro allI impI)
  fix k assume k: "k < length (sec_data sec)"
  let ?a = "getLoadAddress sec + of_nat (4 * k)"
  have "unat ?a = unat (getLoadAddress sec) + 4 * k" by (rule unat_word_address [OF assms(3)]) (use k in simp)
  then have "{unat ?a..<unat ?a + 4} \<subseteq> {unat (getLoadAddress sec)..<unat (getLoadAddress sec) + 4 * length (sec_data sec)}"
    using k by auto
  then have "read_u32 mem' ?a = read_u32 mem ?a" using assms(4) by (intro read_changes(2) [OF assms(2)]) blast
  then show "read_u32 mem' ?a = Some (sec_data sec ! k)" using assms(1) k by (simp add: loads_as_def)
qed

section \<open>Strings\<close>

lemma unat_plus: "unat (a :: u32) + n < 2 ^ 32 \<Longrightarrow> unat (a + of_nat n) = unat a + n"
  by (simp add: unat_word_ariths unat_of_nat)

lemma strings_at_Cons:
  assumes "read_u32 m d = Some p" "mem_read m p (length s + 1) = Some (s @ [0])" "unat p + (length s + 1) \<le> hi"
    "strings_at m (d + 4) (unat p + (length s + 1)) hi ss"
  shows "strings_at m d (unat p) hi (s # ss)"
  unfolding strings_at_def
proof (intro allI impI)
  fix i assume i: "i < length (s # ss)"
  show "\<exists>q. read_u32 m (d + of_nat (4 * i)) = Some q \<and> unat p \<le> unat q \<and> unat q + length ((s # ss) ! i) + 1 \<le> hi
     \<and> mem_read m q (length ((s # ss) ! i) + 1) = Some ((s # ss) ! i @ [0])"
  proof (cases i)
    case 0
    then show ?thesis using assms(1-3) by (intro exI [of _ p]) simp
  next
    case (Suc j)
    then obtain q where q: "read_u32 m (d + 4 + of_nat (4 * j)) = Some q" "unat p + (length s + 1) \<le> unat q"
      "unat q + length (ss ! j) + 1 \<le> hi" "mem_read m q (length (ss ! j) + 1) = Some (ss ! j @ [0])"
      using assms(4) i by (auto simp: strings_at_def)
    have "d + of_nat (4 * i) = d + 4 + of_nat (4 * j)" using Suc by simp
    then show ?thesis using q Suc by (intro exI [of _ q]) (simp add: add.assoc)
  qed
qed

lemma write_strings_ok:
  assumes "unat d + 4 * length ss \<le> unat p" "unat p + string_bytes ss \<le> data_length"
  shows "\<exists>m'. write_strings m d p ss = Some (m', d + of_nat (4 * length ss), p + of_nat (string_bytes ss))
    \<and> strings_at m' d (unat p) (unat p + string_bytes ss) ss
    \<and> changes_only ({unat d..<unat d + 4 * length ss} \<union> {unat p..<unat p + string_bytes ss}) m m'
    \<and> m'\<lparr>mem_data := mem_data m\<rparr> = m"
  using assms
proof (induction ss arbitrary: m d p)
  case Nil
  then show ?case by (simp add: strings_at_def string_bytes_def changes_only_refl)
next
  case (Cons s ss)
  have bytes: "string_bytes (s # ss) = length s + 1 + string_bytes ss" by (simp add: string_bytes_def)
  have sizes: "unat d + 4 + 4 * length ss \<le> unat p" "unat p + (length s + 1) + string_bytes ss \<le> data_length"
    using Cons.prems bytes by simp_all
  have d4: "unat (d + 4) = unat d + 4" using unat_plus [of d 4] sizes by (simp add: data_length_eq)
  have ptr: "ptrStringSize s = of_nat (length s + 1)" by (simp add: ptrStringSize_def)
  have p': "unat (p + ptrStringSize s) = unat p + (length s + 1)"
    unfolding ptr by (rule unat_plus) (use sizes in \<open>simp add: data_length_eq\<close>)
  obtain m1 where m1: "write_u32 m d p = Some m1" "read_u32 m1 d = Some p"
    "changes_only {unat d..<unat d + 4} m m1" "m1\<lparr>mem_data := mem_data m\<rparr> = m"
    by (rule write_word [of d m p]) (use sizes in simp_all)
  obtain m2 where m2: "mem_write m1 p (s @ [0]) = Some m2" "mem_read m2 p (length (s @ [0])) = Some (s @ [0])"
    "changes_only {unat p..<unat p + length (s @ [0])} m1 m2" "m2\<lparr>mem_data := mem_data m1\<rparr> = m1"
    by (rule write_bytes [of p "s @ [0]" m1]) (use sizes in simp_all)
  obtain m' where m': "write_strings m2 (d + 4) (p + ptrStringSize s) ss
      = Some (m', d + 4 + of_nat (4 * length ss), p + ptrStringSize s + of_nat (string_bytes ss))"
    "strings_at m' (d + 4) (unat p + (length s + 1)) (unat p + (length s + 1) + string_bytes ss) ss"
    "changes_only ({unat d + 4..<unat d + 4 + 4 * length ss} \<union> {unat p + (length s + 1)..<unat p + (length s + 1) + string_bytes ss}) m2 m'"
    "m'\<lparr>mem_data := mem_data m2\<rparr> = m2"
    using Cons.IH [of "d + 4" "p + ptrStringSize s" m2] sizes unfolding d4 p' by auto
  have first: "read_u32 m' d = Some p"
  proof -
    have "read_u32 m' d = read_u32 m2 d" by (rule read_changes(2) [OF m'(3)]) (use sizes in auto)
    also have "\<dots> = read_u32 m1 d" by (rule read_changes(2) [OF m2(3)]) (use sizes in auto)
    finally show ?thesis using m1(2) by simp
  qed
  have str: "mem_read m' p (length s + 1) = Some (s @ [0])"
  proof -
    have "mem_read m' p (length s + 1) = mem_read m2 p (length s + 1)" by (rule read_changes(1) [OF m'(3)]) (use sizes in auto)
    then show ?thesis using m2(2) by simp
  qed
  have "strings_at m' d (unat p) (unat p + string_bytes (s # ss)) (s # ss)"
    by (rule strings_at_Cons [OF first str]) (use m'(2) bytes in \<open>simp_all add: add.assoc\<close>)
  moreover have "changes_only ({unat d..<unat d + 4 * length (s # ss)} \<union> {unat p..<unat p + string_bytes (s # ss)}) m m'"
    by (rule changes_only_mono [OF changes_only_trans [OF changes_only_trans [OF m1(3) m2(3)] m'(3)]]) (use bytes in auto)
  moreover have "m'\<lparr>mem_data := mem_data m\<rparr> = m" using m'(4) m2(4) m1(4) by (cases m; cases m1; cases m2; cases m') simp
  moreover have "write_strings m d p (s # ss) = Some (m', d + of_nat (4 * length (s # ss)), p + of_nat (string_bytes (s # ss)))"
    using m1(1) m2(1) m'(1) bytes by (simp add: ptr algebra_simps)
  ultimately show ?case by blast
qed

section \<open>The whole block\<close>

lemma strings_at_wider:
  "strings_at m a lo hi ss \<Longrightarrow> lo' \<le> lo \<Longrightarrow> hi \<le> hi' \<Longrightarrow> strings_at m a lo' hi' ss"
  unfolding strings_at_def by (meson order_trans)

lemma strings_at_fields [simp]: "strings_at (m\<lparr>pageSize := ps\<rparr>) = strings_at m"
  by (simp add: strings_at_def fun_eq_iff read_defs mem_read_def)

lemma length_visible_args: "length (visible_args skip i ss) = length ss - (if skip \<and> i \<le> 1 \<and> 1 < i + length ss then 1 else 0)"
  by (induction skip i ss rule: visible_args.induct) auto

lemma length_guest_args: "aux_fits aux skip \<Longrightarrow> length (guest_args aux skip) = argc aux - (if skip then 1 else 0)"
  by (auto simp: guest_args_def aux_fits_def length_visible_args)

lemma sum_ptrStringSize: "sum_list (map ptrStringSize ss) = of_nat (string_bytes ss)"
  by (induction ss) (simp_all add: ptrStringSize_def string_bytes_def)

lemma getAuxValue_null: "getAuxValue av AT_NULL = 0"
  by (induction av AT_NULL rule: getAuxValue.induct) (auto simp: AT_NULL_def)

lemma stack_pointer:
  assumes "aux_fits aux skip"
  defines "sp0 \<equiv> getSize - of_nat (pointer_bytes aux skip) - of_nat (string_bytes (guest_args aux skip) + string_bytes (envp aux))"
  shows "unat (sp0 - sp0 mod 2) mod 2 = 0" "unat (sp0 - sp0 mod 2) + aux_bytes aux skip \<le> unat getSize"
    "unat getSize \<le> unat (sp0 - sp0 mod 2) + aux_bytes aux skip + 1"
proof -
  have b: "aux_bytes aux skip \<le> 0x80000" using assms(1) by (simp add: aux_fits_def getSize_eq)
  have "sp0 = getSize - of_nat (aux_bytes aux skip)" by (simp add: sp0_def aux_bytes_def)
  moreover have "unat (of_nat (aux_bytes aux skip) :: u32) = aux_bytes aux skip" using b by (simp add: unat_of_nat)
  ultimately have "unat sp0 = 0x80000 - aux_bytes aux skip" using b by (simp add: unat_sub word_le_nat_alt getSize_eq)
  moreover have "unat (sp0 - sp0 mod 2) = unat sp0 - unat sp0 mod 2"
    by (simp add: unat_sub word_le_nat_alt unat_mod)
  ultimately show "unat (sp0 - sp0 mod 2) mod 2 = 0" "unat (sp0 - sp0 mod 2) + aux_bytes aux skip \<le> unat getSize"
    "unat getSize \<le> unat (sp0 - sp0 mod 2) + aux_bytes aux skip + 1"
    using b by (simp_all add: getSize_eq)
qed

lemma auxv_pairs:
  assumes "unat a + 16 \<le> data_length"
  shows "\<exists>m1 m'. writeAuxValue m AT_PAGESZ (ucast (pageSize m)) a = Some (m1, 8) \<and> writeAuxValue m1 AT_NULL 0 (a + 8) = Some (m', 8)
    \<and> auxv_written m' a \<and> changes_only {unat a..<unat a + 16} m m' \<and> m'\<lparr>mem_data := mem_data m\<rparr> = m"
proof -
  have u: "unat (a + 4) = unat a + 4" "unat (a + 8) = unat a + 8" "unat (a + 12) = unat a + 12"
    using unat_plus [of a 4] unat_plus [of a 8] unat_plus [of a 12] assms by (simp_all add: data_length_eq)
  obtain m1 where m1: "write_u32 m a AT_PAGESZ = Some m1" "read_u32 m1 a = Some AT_PAGESZ" "changes_only {unat a..<unat a + 4} m m1"
    "m1\<lparr>mem_data := mem_data m\<rparr> = m" by (rule write_word [of a m AT_PAGESZ]) (use assms in simp_all)
  obtain m2 where m2: "write_u32 m1 (a + 4) (ucast (pageSize m)) = Some m2" "read_u32 m2 (a + 4) = Some (ucast (pageSize m))"
    "changes_only {unat a + 4..<unat a + 8} m1 m2" "m2\<lparr>mem_data := mem_data m1\<rparr> = m1"
    by (rule write_word [of "a + 4" m1 "ucast (pageSize m)"]) (use assms u in \<open>simp_all add: add.commute\<close>)
  obtain m3 where m3: "write_u32 m2 (a + 8) AT_NULL = Some m3" "read_u32 m3 (a + 8) = Some AT_NULL"
    "changes_only {unat a + 8..<unat a + 12} m2 m3" "m3\<lparr>mem_data := mem_data m2\<rparr> = m2"
    by (rule write_word [of "a + 8" m2 AT_NULL]) (use assms u in \<open>simp_all add: add.commute\<close>)
  obtain m4 where m4: "write_u32 m3 (a + 12) 0 = Some m4" "read_u32 m4 (a + 12) = Some 0"
    "changes_only {unat a + 12..<unat a + 16} m3 m4" "m4\<lparr>mem_data := mem_data m3\<rparr> = m3"
    by (rule write_word [of "a + 12" m3 0]) (use assms u in \<open>simp_all add: add.commute\<close>)
  note c24 = changes_only_trans [OF changes_only_trans [OF m2(3) m3(3)] m4(3)] and c34 = changes_only_trans [OF m3(3) m4(3)]
  have "read_u32 m4 a = read_u32 m1 a" by (rule read_changes(2) [OF c24]) auto
  moreover have "read_u32 m4 (a + 4) = read_u32 m2 (a + 4)" by (rule read_changes(2) [OF c34]) (auto simp: u)
  moreover have "read_u32 m4 (a + 8) = read_u32 m3 (a + 8)" by (rule read_changes(2) [OF m4(3)]) (auto simp: u)
  moreover have same: "m4\<lparr>mem_data := mem_data m\<rparr> = m"
    using m1(4) m2(4) m3(4) m4(4) by (cases m; cases m1; cases m2; cases m3; cases m4) simp
  moreover have "pageSize m4 = pageSize m" using same by (cases m; cases m4) simp
  ultimately have "auxv_written m4 a" using m1(2) m2(2) m3(2) m4(2) by (simp add: auxv_written_def)
  moreover have "changes_only {unat a..<unat a + 16} m m4" by (rule changes_only_mono [OF changes_only_trans [OF m1(3) c24]]) auto
  ultimately show ?thesis
    using m1(1) m2(1) m3(1) m4(1) same
    by (intro exI [of _ m2] exI [of _ m4]) (simp add: writeAuxValue_def add.assoc)
qed

lemma loadAux_writes:
  assumes "aux_fits aux skip"
  defines "sp0 \<equiv> getSize - of_nat (pointer_bytes aux skip) - of_nat (string_bytes (guest_args aux skip) + string_bytes (envp aux))"
  defines "sp \<equiv> sp0 - sp0 mod 2"
  shows "loadAux m aux skip =
    (case write_u32 (m\<lparr>initialSP := sp\<rparr>) sp (of_nat (length (guest_args aux skip))) of None \<Rightarrow> None | Some m1 \<Rightarrow>
      (case write_strings m1 (sp + 4) (sp + of_nat (pointer_bytes aux skip)) (guest_args aux skip) of None \<Rightarrow> None | Some (m2, d2, p2) \<Rightarrow>
        (case write_strings m2 (d2 + 4) p2 (envp aux) of None \<Rightarrow> None | Some (m3, d3, p3) \<Rightarrow>
          (let m4 = m3\<lparr>pageSize := getAuxValue (auxv aux) AT_PAGESZ\<rparr>
           in case writeAuxValue m4 AT_PAGESZ (ucast (pageSize m4)) (d3 + 4) of None \<Rightarrow> None
            | Some (m5, n) \<Rightarrow> map_option fst (writeAuxValue m5 AT_NULL 0 (d3 + 4 + n))))))"
proof -
  have argc: "of_nat (argc aux) - (if skip then 1 else 0) = (of_nat (length (guest_args aux skip)) :: u32)"
    using length_guest_args [OF assms(1)] assms(1) by (auto simp: aux_fits_def of_nat_diff)
  have size: "aux_argsSize (of_nat (length (guest_args aux skip))) (length (envp aux)) = of_nat (pointer_bytes aux skip)"
    by (simp add: aux_argsSize_def pointer_bytes_def)
  show ?thesis
    unfolding loadAux_def sp_def sp0_def Let_def argc size getAuxValue_null sum_ptrStringSize guest_args_def [symmetric]
      of_nat_add unsigned_0 ..
qed

text \<open>The writes one after the other, each with what it leaves.\<close>

lemma loadAux_stages:
  fixes aux skip sp
  defines "args \<equiv> guest_args aux skip" and "P \<equiv> pointer_bytes aux skip" and "B \<equiv> aux_bytes aux skip"
  defines "d2 \<equiv> sp + 4 + of_nat (4 * length args) + 4" and "p2 \<equiv> sp + of_nat P + of_nat (string_bytes args)"
  defines "d3 \<equiv> d2 + of_nat (4 * length (envp aux))"
  assumes fits: "unat (sp :: u32) + B \<le> 0x80000"
  obtains m1 m2 m3 m5 m' where
    "write_u32 (m\<lparr>initialSP := sp\<rparr>) sp (of_nat (length args)) = Some m1" "read_u32 m1 sp = Some (of_nat (length args))"
    "changes_only {unat sp..<unat sp + 4} m m1" "m1\<lparr>mem_data := mem_data m\<rparr> = m\<lparr>initialSP := sp\<rparr>"
    "write_strings m1 (sp + 4) (sp + of_nat P) args = Some (m2, sp + 4 + of_nat (4 * length args), p2)"
    "strings_at m2 (sp + 4) (unat sp + P) (unat sp + P + string_bytes args) args"
    "changes_only ({unat sp + 4..<unat sp + 4 + 4 * length args} \<union> {unat sp + P..<unat sp + P + string_bytes args}) m1 m2"
    "m2\<lparr>mem_data := mem_data m1\<rparr> = m1"
    "write_strings m2 d2 p2 (envp aux) = Some (m3, d3, p2 + of_nat (string_bytes (envp aux)))"
    "strings_at m3 d2 (unat sp + P + string_bytes args) (unat sp + B) (envp aux)"
    "changes_only ({unat sp + 8 + 4 * length args..<unat sp + 8 + 4 * length args + 4 * length (envp aux)}
       \<union> {unat sp + P + string_bytes args..<unat sp + B}) m2 m3" "m3\<lparr>mem_data := mem_data m2\<rparr> = m2"
    "writeAuxValue (m3\<lparr>pageSize := ps\<rparr>) AT_PAGESZ (ucast ps) (d3 + 4) = Some (m5, 8)" "writeAuxValue m5 AT_NULL 0 (d3 + 4 + 8) = Some (m', 8)"
    "auxv_written m' (d3 + 4)" "changes_only {unat sp + 12 + 4 * length args + 4 * length (envp aux)..<unat sp + P} m3 m'"
    "m'\<lparr>mem_data := mem_data m3\<rparr> = m3\<lparr>pageSize := ps\<rparr>"
proof -
  let ?n = "length args" and ?e = "length (envp aux)"
  have B: "B = P + string_bytes args + string_bytes (envp aux)" and P: "P = 28 + 4 * ?n + 4 * ?e"
    by (simp_all add: B_def P_def args_def aux_bytes_def pointer_bytes_def)
  have at: "unat (sp + of_nat k) = unat sp + k" if "k \<le> B" for k
    by (rule unat_plus) (use fits that in simp)
  note bounds = fits B P data_length_eq
  obtain m1 where m1: "write_u32 (m\<lparr>initialSP := sp\<rparr>) sp (of_nat ?n) = Some m1" "read_u32 m1 sp = Some (of_nat ?n)"
    "changes_only {unat sp..<unat sp + 4} m m1" "m1\<lparr>mem_data := mem_data m\<rparr> = m\<lparr>initialSP := sp\<rparr>"
    by (rule write_word [of sp "m\<lparr>initialSP := sp\<rparr>" "of_nat ?n"]) (use bounds in simp_all)
  have u1: "unat (sp + 4) = unat sp + 4" "unat (sp + of_nat P) = unat sp + P" using at [of 4] at [of P] B P by simp_all
  obtain m2 where m2: "write_strings m1 (sp + 4) (sp + of_nat P) args = Some (m2, sp + 4 + of_nat (4 * ?n), p2)"
    "strings_at m2 (sp + 4) (unat sp + P) (unat sp + P + string_bytes args) args"
    "changes_only ({unat sp + 4..<unat sp + 4 + 4 * ?n} \<union> {unat sp + P..<unat sp + P + string_bytes args}) m1 m2"
    "m2\<lparr>mem_data := mem_data m1\<rparr> = m1"
    using write_strings_ok [of "sp + 4" args "sp + of_nat P" m1] bounds unfolding u1 p2_def by auto
  have u2: "unat d2 = unat sp + 8 + 4 * ?n" "unat p2 = unat sp + P + string_bytes args"
    using at [of "8 + 4 * ?n"] at [of "P + string_bytes args"] B P by (simp_all add: d2_def p2_def algebra_simps)
  obtain m3 where m3: "write_strings m2 d2 p2 (envp aux) = Some (m3, d3, p2 + of_nat (string_bytes (envp aux)))"
    "strings_at m3 d2 (unat sp + P + string_bytes args) (unat sp + B) (envp aux)"
    "changes_only ({unat sp + 8 + 4 * ?n..<unat sp + 8 + 4 * ?n + 4 * ?e} \<union> {unat sp + P + string_bytes args..<unat sp + B}) m2 m3"
    "m3\<lparr>mem_data := mem_data m2\<rparr> = m2"
    using write_strings_ok [of d2 "envp aux" p2 m2] bounds unfolding u2 d3_def by (auto simp: add.assoc)
  have u3: "unat (d3 + 4) = unat sp + 12 + 4 * ?n + 4 * ?e"
    using at [of "12 + 4 * ?n + 4 * ?e"] B P by (simp add: d3_def d2_def algebra_simps)
  have e3: "unat (d3 + 4) + 16 = unat sp + P" and f3: "unat (d3 + 4) + 16 \<le> data_length" using u3 bounds by simp_all
  obtain m5 m' where w: "writeAuxValue (m3\<lparr>pageSize := ps\<rparr>) AT_PAGESZ (ucast ps) (d3 + 4) = Some (m5, 8)"
    "writeAuxValue m5 AT_NULL 0 (d3 + 4 + 8) = Some (m', 8)" "auxv_written m' (d3 + 4)"
    "changes_only {unat (d3 + 4)..<unat (d3 + 4) + 16} (m3\<lparr>pageSize := ps\<rparr>) m'" "m'\<lparr>mem_data := mem_data m3\<rparr> = m3\<lparr>pageSize := ps\<rparr>"
    using auxv_pairs [OF f3, of "m3\<lparr>pageSize := ps\<rparr>"] by auto
  have c4: "changes_only {unat sp + 12 + 4 * ?n + 4 * ?e..<unat sp + P} m3 m'"
    using w(4) [unfolded e3] unfolding u3 by simp
  show thesis by (rule that [OF m1 m2 m3 w(1-3) c4 w(5)])
qed

lemma loadAux_ok:
  assumes "aux_fits aux skip"
  shows "\<exists>m'. loadAux m aux skip = Some m' \<and> stack_layout m m' aux skip
    \<and> m'\<lparr>mem_data := mem_data m, initialSP := initialSP m, pageSize := pageSize m\<rparr> = m"
proof -
  let ?args = "guest_args aux skip" and ?env = "envp aux" and ?ps = "getAuxValue (auxv aux) AT_PAGESZ"
  let ?n = "length ?args" and ?e = "length ?env" and ?P = "pointer_bytes aux skip" and ?B = "aux_bytes aux skip"
  define sp :: u32 where "sp = (let sp0 = getSize - of_nat ?P - of_nat (string_bytes ?args + string_bytes ?env) in sp0 - sp0 mod 2)"
  have sp: "unat sp mod 2 = 0" "unat sp + ?B \<le> 0x80000" "0x80000 \<le> unat sp + ?B + 1"
    using stack_pointer [OF assms] by (simp_all add: sp_def Let_def getSize_eq)
  have B: "?B = ?P + string_bytes ?args + string_bytes ?env" and P: "?P = 28 + 4 * ?n + 4 * ?e"
    by (simp_all add: aux_bytes_def pointer_bytes_def)
  have at: "unat (sp + of_nat k) = unat sp + k" if "k \<le> ?B" for k
    by (rule unat_plus) (use sp that in simp)
  note bounds = sp(2) B P data_length_eq
  show ?thesis
  proof (rule loadAux_stages [OF sp(2), of m ?ps], goal_cases)
    case (1 m1 m2 m3 m5 m')
    have page: "pageSize (m3\<lparr>pageSize := ?ps\<rparr>) = ?ps" by simp
    have run: "loadAux m aux skip = Some m'"
      unfolding loadAux_writes [OF assms] sp_def [unfolded Let_def, symmetric]
      by (simp only: 1(1,5,9,13,14) option.case prod.case Let_def option.map fst_conv page)
    have fields: "m'\<lparr>mem_data := mem_data m, initialSP := initialSP m, pageSize := pageSize m\<rparr> = m" "initialSP m' = sp" "pageSize m' = ?ps"
      using 1(4,8,12,17) by (cases m; cases m1; cases m2; cases m3; cases m'; simp)+
    note c3 = changes_only_trans [OF 1(11,16)]
    note c2 = changes_only_trans [OF 1(7) c3] and c1 = changes_only_trans [OF 1(3) changes_only_trans [OF 1(7) c3]]
    have "read_u32 m' sp = read_u32 m1 sp" by (rule read_changes(2) [OF c2]) (use P in auto)
    then have "read_u32 m' sp = Some (of_nat ?n)" using 1(2) by simp
    moreover have "strings_at m' (sp + 4) (unat sp + ?P) (unat sp + ?B) ?args"
      by (rule strings_at_wider [OF strings_at_changes [OF 1(6) c3]]) (use bounds at [of 4] in auto)
    moreover have "strings_at m' (sp + 4 + of_nat (4 * ?n) + 4) (unat sp + ?P) (unat sp + ?B) ?env"
      by (rule strings_at_wider [OF strings_at_changes [OF 1(10,16)]]) (use bounds at [of "8 + 4 * ?n"] in \<open>auto simp: algebra_simps\<close>)
    moreover have "read_u32 m' (sp + 4 + of_nat (4 * ?n)) = read_u32 m (sp + 4 + of_nat (4 * ?n))"
      by (rule read_changes(2) [OF c1]) (use at [of "4 + 4 * ?n"] B P in \<open>auto simp: algebra_simps\<close>)
    moreover have "read_u32 m' (sp + 4 + of_nat (4 * ?n) + 4 + of_nat (4 * ?e)) = read_u32 m (sp + 4 + of_nat (4 * ?n) + 4 + of_nat (4 * ?e))"
      by (rule read_changes(2) [OF c1]) (use at [of "8 + 4 * ?n + 4 * ?e"] B P in \<open>auto simp: algebra_simps\<close>)
    moreover have "changes_only {unat sp..<unat sp + ?B} m m'"
      by (rule changes_only_mono [OF c1]) (use B P in auto)
    ultimately have "stack_layout m m' aux skip"
      using sp 1(15) fields by (simp add: stack_layout_def Let_def argv_at_def envp_at_def auxv_at_def getSize_eq)
    then show ?case using run fields by blast
  qed
qed

section \<open>Properties\<close>

text \<open>C17: A program that starts finds its arguments on the stack.  If arguments, environment and their pointers
  fit into memory, loading them succeeds; the stack pointer is even (the source aligns it no further, where the ABI asks for 16) and
  above it, in this order and up to the top of guest memory, is in place: the argument count, an array of pointers to the zero-terminated arguments (without the
  path of the emulated file, when that is skipped), a null pointer, the same for the environment, and
  the page size as auxiliary vector with its terminator.  The null pointers keep the zeros memory has, and nothing
  below the stack pointer changes.\<close>

theorem loadAux_layout:
  assumes "aux_fits aux skip"
  shows "\<exists>m'. loadAux m aux skip = Some m' \<and> stack_layout m m' aux skip"
  using loadAux_ok [OF assms] by blast

theorem loadAux_layout_witness:
  "\<exists>m'. loadAux new_Memory demo_aux True = Some m' \<and> stack_layout new_Memory m' demo_aux True \<and> length (guest_args demo_aux True) = 2"
  using loadAux_layout [of demo_aux True new_Memory]
  by (simp add: aux_fits_def demo_aux_def aux_bytes_def pointer_bytes_def guest_args_def string_bytes_def getSize_eq)

end
