(* ===== verification/Emulator.thy ===== *)
theory Emulator
  imports Stack Engines Text_Format
begin

text \<open>
  The emulator program, \<^verbatim>\<open>emulator/main.cpp\<close>: from the command line over the loaded binary, the initial
  stack, heap, registers and the vector of predecoded instructions to the run of the threaded
  engine.  The loop around the engine, with the checks that the other engines rely on, is modelled
  for any engine.
\<close>

section \<open>State dump\<close>

definition register_line :: "(u8 \<Rightarrow> u32) \<Rightarrow> nat \<Rightarrow> string" where
  "register_line regs i =
     ''  x'' @ pad_left 2 (CHR ''0'') (format_nat i) @ ''   '' @ formatAddress (regs (of_nat i))
     @ ''  '' @ format_int (sint (regs (of_nat i))) @ [CHR 0x0A]"

definition printInfo :: "(u8 \<Rightarrow> u32) \<Rightarrow> string" where
  "printInfo regs =
     (let used = filter (\<lambda>i. regs (of_nat i) \<noteq> 0) [0..<32]
      in (if used = [] then [] else [CHR 0x0A] @ ''Registers:'' @ [CHR 0x0A] @ ''  idx   hex         signed'' @ [CHR 0x0A])
         @ concat (map (register_line regs) used))"

section \<open>Setup\<close>

definition BASE_RA :: u32 where "BASE_RA = 0xdeadbeef"

text \<open>
  The instruction vector: one slot per word between the bounds of the code, invalid where there is no
  instruction.  A slot outside of the vector does not exist (\<open>None\<close>).
\<close>

definition vector_index :: "ElfBinary \<Rightarrow> Instruction \<Rightarrow> nat" where
  "vector_index bin inst = unat ((address inst - getTextStartAddress bin) div 4)"

definition place_instruction :: "ElfBinary \<Rightarrow> Instruction \<Rightarrow> Instruction list option \<Rightarrow> Instruction list option" where
  "place_instruction bin inst v =
     (case v of
        None \<Rightarrow> None
      | Some insts \<Rightarrow>
          if vector_index bin inst < length insts then Some (insts[vector_index bin inst := inst]) else None)"

definition instruction_vector :: "ElfBinary \<Rightarrow> Instruction list option" where
  "instruction_vector bin =
     fold (place_instruction bin) (decodeToContainer bin)
       (Some (replicate (unat (getTextWordCount bin)) (blank_instruction I_INVALID)))"

text \<open>
  The ways in which \<^verbatim>\<open>main\<close> ends before the guest runs.  \<open>NameOverflow\<close> is \<^verbatim>\<open>strcpy(argv[0], argv[1])\<close> with a
  path that is longer than the name the emulator was called by.
\<close>

datatype emulator_error = NoArguments | ElfRejected LoadResult | ElfOverRead | BadAddress | NameOverflow

definition initial_registers :: "libelf \<Rightarrow> ElfBinary \<Rightarrow> Memory \<Rightarrow> u8 \<Rightarrow> u32" where
  "initial_registers lib bin mem =
     (let regs = (\<lambda>_. 0)(REG_sp := initialSP mem)
      in if getSymbolAddress lib bin ''_start'' = None
         then regs(REG_ra := BASE_RA,
                   REG_gp := (case getSymbolAddress lib bin ''__global_pointer$'' of Some gp \<Rightarrow> gp | None \<Rightarrow> 0))
         else regs)"

text \<open>
  \<open>profiling\<close> is \<^verbatim>\<open>profileInstructions\<close>, which is set for one of the two builds of the emulator; the other never
  calls the hooks.
\<close>

definition loaded_machine :: "bool \<Rightarrow> libelf \<Rightarrow> ElfBinary \<Rightarrow> Memory \<Rightarrow> 'w \<Rightarrow> 'w machine" where
  "loaded_machine profiling lib bin mem w =
     \<lparr>reg = initial_registers lib bin mem, pc = getEntryAddress lib bin, memory = mem, world = w,
      exitCallbacks = [], messages = [], profile = (if profiling then Some (new_ProfilingInfo False) else None)\<rparr>"

definition emulator_setup ::
  "bool \<Rightarrow> libelf \<Rightarrow> Auxiliary \<Rightarrow> 'w \<Rightarrow> emulator_error + 'w machine \<times> Instruction list \<times> ElfBinary" where
  "emulator_setup profiling lib aux w =
     (if argc aux < 2 then Inl NoArguments
      else case load lib (new_ElfBinary (map (\<lambda>b. char_of (unat b)) (argv aux ! 1))) of
        None \<Rightarrow> Inl ElfOverRead
      | Some (result, bin) \<Rightarrow>
          if result \<noteq> Success then Inl (ElfRejected result)
          else case loadToMemory bin new_Memory of
            None \<Rightarrow> Inl BadAddress
          | Some (mem1, dataEnd) \<Rightarrow>
              if length (argv aux ! 0) < length (argv aux ! 1) then Inl NameOverflow
              else case loadAux mem1 (aux\<lparr>argv := (argv aux)[0 := argv aux ! 1]\<rparr>) True of
                None \<Rightarrow> Inl BadAddress
              | Some mem2 \<Rightarrow>
                  (case instruction_vector bin of
                     None \<Rightarrow> Inl BadAddress
                   | Some insts \<Rightarrow> Inr (loaded_machine profiling lib bin (initializeHeap mem2 dataEnd) w, insts, bin)))"

section \<open>Running\<close>

text \<open>The checks after each return of an engine.\<close>

datatype stop = ReturnedToBaseRa | PcOutOfBounds

definition loop_check :: "'w machine \<Rightarrow> stop option" where
  "loop_check m =
     (if pc m = BASE_RA then Some ReturnedToBaseRa else if getSize \<le> pc m then Some PcOutOfBounds else None)"

text \<open>
  The \<^verbatim>\<open>while (true)\<close> loop around an engine that executes one instruction; \<open>n\<close> bounds its iterations and
  \<open>Inl\<close> carries the reason for leaving it.
\<close>

fun emulator_loop :: "('w machine \<Rightarrow> 'w machine outcome) \<Rightarrow> nat \<Rightarrow> 'w machine \<Rightarrow> (stop \<times> 'w machine) + 'w machine outcome" where
  "emulator_loop engine 0 m = Inr (Running m)"
| "emulator_loop engine (Suc n) m =
     (case engine m of
        Running m' \<Rightarrow> (case loop_check m' of Some s \<Rightarrow> Inl (s, m') | None \<Rightarrow> emulator_loop engine n m')
      | r \<Rightarrow> Inr r)"

text \<open>
  The engines that \<^verbatim>\<open>main\<close> can be built with: the macros at its head, and the one in \<^verbatim>\<open>Interpreter.cpp\<close>.  The
  threaded ones do not return to the loop.
\<close>

record build_options =
  PREDECODE :: bool
  THREADING :: bool
  SWITCH :: bool
  DIRECT_THREADING :: bool

definition configured_run ::
  "build_options \<Rightarrow> 'w host \<Rightarrow> Instruction list \<Rightarrow> u32 \<Rightarrow> nat \<Rightarrow> 'w machine \<Rightarrow> (stop \<times> 'w machine) + 'w machine outcome" where
  "configured_run b h insts textStart n m =
     (if PREDECODE b then
        if THREADING b then
          Inr (if DIRECT_THREADING b then runInstructionsThreaded h insts textStart n m
               else iterate (indirect_step h insts textStart) n m)
        else emulator_loop (predecoded_step h insts textStart) n m
      else if SWITCH b then emulator_loop (runInstructionSwitch h) n m
      else emulator_loop (runInstruction h) n m)"

text \<open>
  The build as configured (\<^verbatim>\<open>PREDECODE\<close> and \<^verbatim>\<open>THREADING\<close>): the threaded engine runs for as long as
  the guest does, so that the loop around it never gets to its checks.
\<close>

definition emulator_main ::
  "'w host \<Rightarrow> bool \<Rightarrow> libelf \<Rightarrow> Auxiliary \<Rightarrow> 'w \<Rightarrow> nat \<Rightarrow> emulator_error + 'w machine outcome" where
  "emulator_main h profiling lib aux w n =
     (case emulator_setup profiling lib aux w of
        Inl e \<Rightarrow> Inl e
      | Inr (m, insts, bin) \<Rightarrow> Inr (runInstructionsThreaded h insts (getTextStartAddress bin) n m))"

section \<open>Well-formed programs\<close>

text \<open>Instructions at different whole words between the bounds of the code.\<close>

definition text_layout :: "ElfBinary \<Rightarrow> bool" where
  "text_layout bin \<longleftrightarrow>
     list_all (\<lambda>inst. vector_index bin inst < unat (getTextWordCount bin)
       \<and> address inst = getTextStartAddress bin + of_nat (4 * vector_index bin inst)) (decodeToContainer bin)
     \<and> distinct (map address (decodeToContainer bin))"

text \<open>
  A binary the emulator can run: its sections fit below the initial stack and are apart from each other,
  and code is loaded where it runs.
\<close>

definition runnable :: "ElfBinary \<Rightarrow> Auxiliary \<Rightarrow> bool" where
  "runnable bin aux \<longleftrightarrow>
     list_all (\<lambda>sec. unat (getLoadAddress sec) + 4 * length (sec_data sec) + aux_bytes aux True + 1 \<le> unat getSize) (sections bin)
     \<and> sorted_wrt sections_apart (sections bin)
     \<and> list_all (\<lambda>sec. sec_type sec = Text \<longrightarrow> getLoadAddress sec = startAddress sec) (sections bin)
     \<and> text_layout bin"

text \<open>The command line as the guest sees it, and what is required of it.\<close>

definition guest_aux :: "Auxiliary \<Rightarrow> Auxiliary" where
  "guest_aux aux = aux\<lparr>argv := (argv aux)[0 := argv aux ! 1]\<rparr>"

definition command_line_ok :: "Auxiliary \<Rightarrow> bool" where
  "command_line_ok aux \<longleftrightarrow> 2 \<le> argc aux \<and> length (argv aux ! 1) \<le> length (argv aux ! 0) \<and> aux_fits (guest_aux aux) True
     \<and> getAuxValue (auxv aux) AT_PAGESZ \<in> set (map (\<lambda>p. 2 ^ p) [0..<20])"

text \<open>A command line and a binary with one section, \<^verbatim>\<open>addi a0, x0, 5; ecall\<close>.\<close>

definition demo_command :: Auxiliary where
  "demo_command = \<lparr>argc = 3, argv = [[0x2E, 0x2F, 0x65, 0x6D, 0x75], [0x61], [0x78]], envp = [], auxv = [(6, 4096), (0, 0)]\<rparr>"

definition demo_lib :: libelf where
  "demo_lib = \<lparr>l_version_ok = True, l_open = (\<lambda>_. True), l_begin = (\<lambda>_. True), l_is_elf = (\<lambda>_. True),
     l_header = (\<lambda>_. Some (EM_RISCV, 0x100)),
     l_phdrs = (\<lambda>_. Some [Some \<lparr>p_type = PT_LOAD, p_vaddr = 0, p_paddr = 0, p_memsz = 0x1000, p_flags = 5\<rparr>]),
     l_strings_ok = (\<lambda>_. True),
     l_sections = (\<lambda>_. [\<lparr>scn_header = Some \<lparr>sh_type = 1, sh_flags = 6, sh_addr = 0x100, sh_size = 8, sh_entsize = 0\<rparr>,
       scn_name = Some ''.text'', scn_data = Some \<lparr>d_buf = Some [0x13, 0x05, 0x50, 0, 0x73, 0, 0, 0], d_size = 8\<rparr>,
       scn_symbol = (\<lambda>_. (None, 0))\<rparr>])\<rparr>"

definition demo_image :: ElfBinary where
  "demo_image = computeTextBounds ((new_ElfBinary ''a'')\<lparr>sections := [demo_section ''.text'' 0x100 [0x00500513, 0x00000073] 6]\<rparr>)"

section \<open>The vector\<close>

lemma place_all:
  assumes "list_all (\<lambda>inst. vector_index bin inst < length v) insts" "distinct (map (vector_index bin) insts)"
  shows "\<exists>v'. fold (place_instruction bin) insts (Some v) = Some v' \<and> length v' = length v
    \<and> (\<forall>inst\<in>set insts. v' ! vector_index bin inst = inst)
    \<and> (\<forall>k. k \<notin> vector_index bin ` set insts \<longrightarrow> v' ! k = v ! k)"
  using assms
proof (induction insts arbitrary: v)
  case (Cons inst insts)
  let ?v = "v[vector_index bin inst := inst]"
  obtain v' where v': "fold (place_instruction bin) insts (Some ?v) = Some v'" "length v' = length ?v"
    "\<forall>inst\<in>set insts. v' ! vector_index bin inst = inst"
    "\<forall>k. k \<notin> vector_index bin ` set insts \<longrightarrow> v' ! k = ?v ! k"
    using Cons.IH [of ?v] Cons.prems by auto
  have "v' ! vector_index bin inst = inst" using v'(4) Cons.prems by simp
  moreover have "fold (place_instruction bin) (inst # insts) (Some v) = Some v'"
    using v'(1) Cons.prems by (simp add: place_instruction_def [of bin inst])
  ultimately show ?case using v' Cons.prems by (intro exI [of _ v']) auto
qed auto

lemma vector_index_distinct:
  assumes "text_layout bin"
  shows "distinct (map (vector_index bin) (decodeToContainer bin))"
proof -
  have "inj_on (vector_index bin) (set (decodeToContainer bin))"
  proof (rule inj_onI)
    fix x y assume *: "x \<in> set (decodeToContainer bin)" "y \<in> set (decodeToContainer bin)" "vector_index bin x = vector_index bin y"
    then have "address x = address y" using assms by (simp add: text_layout_def list_all_iff)
    then show "x = y" using assms * by (simp add: text_layout_def distinct_map inj_on_def)
  qed
  then show ?thesis using assms by (simp add: text_layout_def distinct_map)
qed

lemma vector_placed:
  assumes "text_layout bin"
  obtains insts where "instruction_vector bin = Some insts" "length insts = unat (getTextWordCount bin)"
    "\<And>inst. inst \<in> set (decodeToContainer bin) \<Longrightarrow> insts ! vector_index bin inst = inst"
    "\<And>k. k < length insts \<Longrightarrow> k \<notin> vector_index bin ` set (decodeToContainer bin) \<Longrightarrow> insts ! k = blank_instruction I_INVALID"
proof -
  let ?v = "replicate (unat (getTextWordCount bin)) (blank_instruction I_INVALID)"
  have "list_all (\<lambda>inst. vector_index bin inst < length ?v) (decodeToContainer bin)"
    using assms by (simp add: text_layout_def list_all_iff)
  then show thesis using place_all [OF _ vector_index_distinct [OF assms], of ?v] that unfolding instruction_vector_def by auto
qed

lemma fetch_placed:
  assumes "text_layout bin" "instruction_vector bin = Some insts" "inst \<in> set (decodeToContainer bin)"
  shows "fetch_instruction insts (getTextStartAddress bin) (address inst) = Some inst"
proof -
  obtain insts' where "instruction_vector bin = Some insts'" "length insts' = unat (getTextWordCount bin)"
    "insts' ! vector_index bin inst = inst" by (rule vector_placed [OF assms(1)]) (use assms(3) in blast)
  then show ?thesis using assms by (auto simp: fetch_instruction_def vector_index_def text_layout_def list_all_iff Let_def)
qed

lemma decoded_instruction:
  assumes "inst \<in> set (decodeToContainer bin)"
  obtains sec k where "sec \<in> set (sections bin)" "sec_type sec = Text" "k < length (sec_data sec)"
    "inst = decode (sec_data sec ! k) (startAddress sec + of_nat (4 * k))"
proof -
  obtain sec where sec: "sec \<in> set (sections bin)" "sec_type sec = Text" "inst \<in> set (decode_words (startAddress sec) (sec_data sec))"
    using assms by (auto simp: decodeToContainer_def getTypeSections_def)
  then obtain k where "k < length (sec_data sec)" "inst = decode_words (startAddress sec) (sec_data sec) ! k"
    by (auto simp: in_set_conv_nth)
  then show thesis using sec nth_decode_words [of k "sec_data sec" "startAddress sec"] by (intro that) simp_all
qed

lemma vector_table_ok:
  assumes "instruction_vector bin = Some insts"
  shows "table_ok insts"
proof -
  have decoded: "itype inst \<noteq> I_TYPE_COUNT" if "inst \<in> set (decodeToContainer bin)" for inst
    using that by (metis decoded_instruction decode_not_count)
  have "\<forall>v. instruction_vector bin = Some v \<longrightarrow> table_ok v"
    unfolding instruction_vector_def
  proof (rule fold_invariant [where Q = "\<lambda>inst. itype inst \<noteq> I_TYPE_COUNT"])
    fix inst :: Instruction and v assume "itype inst \<noteq> I_TYPE_COUNT" "\<forall>v'. v = Some v' \<longrightarrow> table_ok v'"
    then show "\<forall>v'. place_instruction bin inst v = Some v' \<longrightarrow> table_ok v'"
      by (auto simp: place_instruction_def table_ok_def list_all_iff dest!: subsetD [OF set_update_subset_insert] split: option.splits if_splits)
  qed (auto simp: decoded table_ok_def list_all_iff blank_instruction_def)
  then show ?thesis using assms by blast
qed

section \<open>Startup\<close>

text \<open>Memory as the guest finds it: the sections at their load addresses, below the stack.\<close>

lemma loadAux_keeps_sections:
  assumes "loads_as mem sec" "changes_only {lo..<hi} mem mem'" "unat (getLoadAddress sec) + 4 * length (sec_data sec) \<le> lo"
    "lo \<le> data_length"
  shows "loads_as mem' sec"
  by (rule loads_as_changes [OF assms(1,2)]) (use assms(3,4) in auto)

lemma stack_above:
  assumes "stack_layout m m' aux True"
  shows "unat getSize \<le> unat (initialSP m') + aux_bytes aux True + 1" "unat (initialSP m') \<le> data_length"
  using assms by (simp_all add: stack_layout_def Let_def getSize_eq data_length_eq)

lemma stack_layout_initializeHeap: "stack_layout m (initializeHeap m' e) = stack_layout m m'"
  by (simp add: fun_eq_iff stack_layout_def strings_at_def auxv_written_def argv_at_def envp_at_def auxv_at_def changes_only_def
      initializeHeap_def Let_def read_defs mem_read_def)

lemma memory_loaded:
  assumes r: "runnable bin (guest_aux aux)" and c: "command_line_ok aux"
  obtains mem1 dataEnd mem2 where "loadToMemory bin new_Memory = Some (mem1, dataEnd)"
    "loadAux mem1 (guest_aux aux) True = Some mem2" "list_all (loads_as mem2) (sections bin)"
    "stack_layout mem1 mem2 (guest_aux aux) True" "memory_ok (initializeHeap mem2 dataEnd)"
proof -
  have fits: "list_all section_fits (sections bin)" "sorted_wrt sections_apart (sections bin)"
    using r by (auto simp: runnable_def section_fits_def list_all_iff)
  obtain mem1 dataEnd where l: "loadToMemory bin new_Memory = Some (mem1, dataEnd)" "list_all (loads_as mem1) (sections bin)"
    "mem1\<lparr>mem_data := mem_data new_Memory\<rparr> = new_Memory"
    using load_sections_ok [OF fits, of new_Memory 0] unfolding loadToMemory_def by blast
  have fit: "aux_fits (guest_aux aux) True" using c by (simp add: command_line_ok_def)
  obtain mem2 where a: "loadAux mem1 (guest_aux aux) True = Some mem2" "stack_layout mem1 mem2 (guest_aux aux) True"
    "mem2\<lparr>mem_data := mem_data mem1, initialSP := initialSP mem1, pageSize := pageSize mem1\<rparr> = mem1"
    using loadAux_ok [OF fit, of mem1] by blast
  note sp = stack_above [OF a(2)]
  have "loads_as mem2 sec" if sec: "sec \<in> set (sections bin)" for sec
  proof (rule loadAux_keeps_sections)
    show "loads_as mem1 sec" using l(2) sec by (simp add: list_all_iff)
    show "changes_only {unat (initialSP mem2)..<unat (initialSP mem2) + aux_bytes (guest_aux aux) True} mem1 mem2"
      using a(2) by (simp add: stack_layout_def Let_def)
    have "unat (getLoadAddress sec) + 4 * length (sec_data sec) + aux_bytes (guest_aux aux) True + 1 \<le> unat getSize"
      using r sec by (simp add: runnable_def list_all_iff)
    then show "unat (getLoadAddress sec) + 4 * length (sec_data sec) \<le> unat (initialSP mem2)" using sp(1) by simp
  qed (rule sp(2))
  moreover have "mappedAreas mem2 = []"
    using a(3) l(3) by (cases mem2; cases mem1) (simp add: new_Memory_def)
  moreover have "page_ok mem2" using a(2) c by (simp add: stack_layout_def Let_def page_ok_def command_line_ok_def guest_aux_def)
  ultimately show thesis
    by (intro that [OF l(1) a(1) _ a(2)]) (simp_all add: list_all_iff memory_ok_def arena_ok_def initializeHeap_def Let_def page_ok_def)
qed

lemma setup_ok:
  assumes "load lib (new_ElfBinary (map (\<lambda>b. char_of (unat b)) (argv aux ! 1))) = Some (Success, bin)"
    and "runnable bin (guest_aux aux)" and "command_line_ok aux"
  shows "\<exists>m insts mem1 dataEnd. emulator_setup profiling lib aux w = Inr (m, insts, bin) \<and> loadToMemory bin new_Memory = Some (mem1, dataEnd) \<and> pc m = getEntryAddress lib bin \<and> machine_ok m
    \<and> table_ok insts \<and> stack_layout mem1 (memory m) (guest_aux aux) True \<and> reg m REG_sp = initialSP (memory m)
    \<and> (\<forall>inst\<in>set (decodeToContainer bin).
         code_current insts (getTextStartAddress bin) (m\<lparr>pc := address inst\<rparr>))"
proof -
  obtain mem1 dataEnd mem2 where mem: "loadToMemory bin new_Memory = Some (mem1, dataEnd)"
    "loadAux mem1 (guest_aux aux) True = Some mem2" "list_all (loads_as mem2) (sections bin)"
    "stack_layout mem1 mem2 (guest_aux aux) True" "memory_ok (initializeHeap mem2 dataEnd)"
    by (rule memory_loaded [OF assms(2,3)])
  have lay: "text_layout bin" using assms(2) by (simp add: runnable_def)
  obtain insts where v: "instruction_vector bin = Some insts" by (rule vector_placed [OF lay])
  let ?mem = "initializeHeap mem2 dataEnd"
  have run: "emulator_setup profiling lib aux w = Inr (loaded_machine profiling lib bin ?mem w, insts, bin)"
    using assms(1,3) mem(1,2) v by (simp add: emulator_setup_def guest_aux_def command_line_ok_def)
  have same: "read_u32 ?mem = read_u32 mem2" "initialSP ?mem = initialSP mem2"
    by (simp_all add: initializeHeap_def Let_def read_defs mem_read_def fun_eq_iff)
  have "code_current insts (getTextStartAddress bin) (loaded_machine profiling lib bin ?mem w\<lparr>pc := address inst\<rparr>)"
    if i: "inst \<in> set (decodeToContainer bin)" for inst
  proof -
    obtain sec k where sec: "sec \<in> set (sections bin)" "sec_type sec = Text" "k < length (sec_data sec)"
      "inst = decode (sec_data sec ! k) (startAddress sec + of_nat (4 * k))" by (rule decoded_instruction [OF i])
    have "getLoadAddress sec = startAddress sec" using assms(2) sec by (simp add: runnable_def list_all_iff)
    moreover have "loads_as mem2 sec" using mem(3) sec by (simp add: list_all_iff)
    ultimately have "read_u32 mem2 (address inst) = Some (sec_data sec ! k)" using sec by (simp add: loads_as_def)
    then show ?thesis
      using fetch_placed [OF lay v i] sec(4) by (simp add: code_current_def loaded_machine_def same)
  qed
  moreover have "machine_ok (loaded_machine profiling lib bin ?mem w)"
    using mem(5) by (simp add: machine_ok_def loaded_machine_def initial_registers_def Let_def)
  moreover have "stack_layout mem1 ?mem (guest_aux aux) True"
    using mem(4) by (simp add: stack_layout_initializeHeap)
  moreover have "pc (loaded_machine profiling lib bin ?mem w) = getEntryAddress lib bin" "memory (loaded_machine profiling lib bin ?mem w) = ?mem"
    "reg (loaded_machine profiling lib bin ?mem w) REG_sp = initialSP ?mem"
    by (simp_all add: loaded_machine_def initial_registers_def Let_def)
  ultimately show ?thesis
    using run mem(1) vector_table_ok [OF v]
    by (intro exI [of _ "loaded_machine profiling lib bin ?mem w"] exI [of _ insts] exI [of _ mem1] exI [of _ dataEnd]) simp
qed

lemma code_kept:
  assumes "code_current insts start (m\<lparr>pc := address inst\<rparr>)" "pc m' = address inst"
    "fetch_instruction insts start (address inst) = Some inst" "read_u32 (memory m') (pc m') = read_u32 (memory m) (pc m')"
  shows "code_current insts start m'"
  using assms by (auto simp: code_current_def split: option.splits)

lemma emulator_loop_iterate:
  assumes "\<And>k m'. k < n \<Longrightarrow> iterate engine (Suc k) m = Running m' \<Longrightarrow> loop_check m' = None"
  shows "emulator_loop engine n m = Inr (iterate engine n m)"
  using assms
proof (induction n arbitrary: m)
  case (Suc n)
  have "emulator_loop engine n m' = Inr (iterate engine n m')" if "engine m = Running m'" for m'
    by (rule Suc.IH) (use Suc.prems [of "Suc _"] that in auto)
  then show ?case using Suc.prems [of 0] by (cases "engine m") auto
qed simp


section \<open>A program to run\<close>

lemma demo_loads:
  "load demo_lib (new_ElfBinary (map (\<lambda>b. char_of (unat b)) (argv demo_command ! 1))) = Some (Success, demo_image)"
  "getEntryAddress demo_lib demo_image = 0x100"
proof -
  have name: "map (\<lambda>b. char_of (unat b)) (argv demo_command ! 1) = ''a''" by (simp add: demo_command_def char_of_def bit_0)
  have "read_words [0x13, 0x05, 0x50, 0, 0x73, 0, 0, 0] (Suc (Suc 0)) = Some [0x00500513, 0x00000073]" by simp
  then have words: "section_words \<lparr>d_buf = Some [0x13, 0x05, 0x50, 0, 0x73, 0, 0, 0], d_size = 8\<rparr> = Some [0x00500513, 0x00000073]"
    unfolding numeral_2_eq_2 [symmetric] by (simp add: section_words_def)
  show "load demo_lib (new_ElfBinary (map (\<lambda>b. char_of (unat b)) (argv demo_command ! 1))) = Some (Success, demo_image)"
    unfolding name by (simp add: load_def demo_lib_def new_ElfBinary_def decode_binary_def decode_section_def words
        segment_contains_def demo_image_def demo_section_def SHF_ALLOC_def)
  show "getEntryAddress demo_lib demo_image = 0x100" by (simp add: getEntryAddress_def demo_lib_def)
qed

lemma demo_image_simps:
  "sections demo_image = [demo_section ''.text'' 0x100 [0x00500513, 0x00000073] 6]"
  "getTextStartAddress demo_image = 0x100" "getTextWordCount demo_image = 2"
  "decodeToContainer demo_image = [decode 0x00500513 0x100, decode 0x00000073 0x104]"
  by (simp_all add: demo_image_def computeTextBounds_def new_ElfBinary_def demo_section_def new_ElfBinarySection_def
      resolveSectionType_def SHF_EXECINSTR_def SHF_ALLOC_def getEndAddress_def getByteSize_def getTextWordCount_def
      decodeToContainer_def getTypeSections_def)

lemma demo_runnable: "runnable demo_image (guest_aux demo_command)" "command_line_ok demo_command"
proof -
  have "(4096 :: u64) \<in> set (map (\<lambda>p. 2 ^ p) [0..<20])" by (simp add: image_iff) (rule bexI [of _ 12], simp_all)
  then show "command_line_ok demo_command"
    by (simp add: command_line_ok_def demo_command_def guest_aux_def aux_fits_def aux_bytes_def pointer_bytes_def guest_args_def
        string_bytes_def getSize_eq AT_PAGESZ_def)
  have "text_layout demo_image" by (simp add: text_layout_def demo_image_simps vector_index_def)
  then show "runnable demo_image (guest_aux demo_command)"
    by (simp add: runnable_def demo_image_simps demo_section_def new_ElfBinarySection_def getLoadAddress_def getSize_eq
        demo_command_def guest_aux_def aux_bytes_def pointer_bytes_def guest_args_def string_bytes_def)
qed

section \<open>Properties\<close>

text \<open>C14: The emulator starts every well-formed program correctly.  If the binary loads, its sections fit below
  the stack and the command line is as the emulator expects it, setup succeeds: the program counter is
  the entry point, the registers and memory satisfy the machine's invariant, the stack holds the arguments, and for
  every word of an executable section the vector holds what decoding the word in memory at its address
  gives.\<close>

theorem emulator_starts:
  assumes "load lib (new_ElfBinary (map (\<lambda>b. char_of (unat b)) (argv aux ! 1))) = Some (Success, bin)"
    and "runnable bin (guest_aux aux)" and "command_line_ok aux"
  shows "\<exists>m insts mem1 dataEnd. emulator_setup profiling lib aux w = Inr (m, insts, bin) \<and> loadToMemory bin new_Memory = Some (mem1, dataEnd) \<and> pc m = getEntryAddress lib bin \<and> machine_ok m
    \<and> table_ok insts \<and> stack_layout mem1 (memory m) (guest_aux aux) True \<and> reg m REG_sp = initialSP (memory m)
    \<and> (\<forall>inst\<in>set (decodeToContainer bin).
         code_current insts (getTextStartAddress bin) (m\<lparr>pc := address inst\<rparr>))"
  by (rule setup_ok [OF assms])

theorem emulator_starts_witness:
  "\<exists>m insts. emulator_setup True demo_lib demo_command () = Inr (m, insts, demo_image) \<and> pc m = 0x100 \<and> machine_ok m \<and> table_ok insts"
  using emulator_starts [OF demo_loads(1) demo_runnable, of True "()"] demo_loads(2) by auto

text \<open>C5: The emulator executes its guest.  If the program is well-formed and, for the first \<open>n\<close> instructions, the guest
  stays on instructions of the binary and has not overwritten the one it executes, then the
  emulator, with its threaded engine on predecoded instructions, does exactly what fetching each word from memory,
  decoding and executing it does, starting from the entry point.\<close>

theorem emulator_runs_guest:
  assumes "load lib (new_ElfBinary (map (\<lambda>b. char_of (unat b)) (argv aux ! 1))) = Some (Success, bin)"
    and "runnable bin (guest_aux aux)" and "command_line_ok aux"
    and "emulator_setup profiling lib aux w = Inr (m, insts, bin)"
    and "\<And>k m'. k < n \<Longrightarrow> iterate (runInstruction h) k m = Running m' \<Longrightarrow>
      (\<exists>inst\<in>set (decodeToContainer bin). address inst = pc m' \<and> itype inst \<noteq> I_INVALID)
      \<and> read_u32 (memory m') (pc m') = read_u32 (memory m) (pc m')"
  shows "emulator_main h profiling lib aux w n = Inr (iterate (runInstruction h) n m)"
proof -
  have ok: "table_ok insts" "\<And>inst. inst \<in> set (decodeToContainer bin) \<Longrightarrow>
      code_current insts (getTextStartAddress bin) (m\<lparr>pc := address inst\<rparr>)"
    using setup_ok [OF assms(1-3), of profiling w] assms(4) by auto
  have lay: "text_layout bin" using assms(2) by (simp add: runnable_def)
  have vec: "instruction_vector bin = Some insts"
    using assms(4) by (auto simp: emulator_setup_def split: if_splits option.splits prod.splits)
  have "code_current insts (getTextStartAddress bin) m' \<and> logs_agree m'" if run: "k < n" "iterate (runInstruction h) k m = Running m'" for k m'
  proof -
    obtain inst where inst: "inst \<in> set (decodeToContainer bin)" "address inst = pc m'" "itype inst \<noteq> I_INVALID"
      "read_u32 (memory m') (pc m') = read_u32 (memory m) (pc m')" using assms(5) [OF run] by blast
    have cur: "code_current insts (getTextStartAddress bin) m'"
      by (rule code_kept [OF ok(2) [OF inst(1)] inst(2) [symmetric] fetch_placed [OF lay vec inst(1)] inst(4)])
    then show ?thesis
      using inst(2,3) fetch_placed [OF lay vec inst(1)] by (auto simp: code_current_def logs_agree_def split: option.splits)
  qed
  then have "iterate (runInstruction h) n m = iterate (predecoded_step h insts (getTextStartAddress bin)) n m"
    by (rule chain_predecoded.iterate_agree)
  also have "\<dots> = runInstructionsThreaded h insts (getTextStartAddress bin) n m"
    unfolding runInstructionsThreaded_def by (rule threaded_predecoded.iterate_agree [symmetric]) (rule ok(1))
  finally show ?thesis using assms(4) by (simp add: emulator_main_def)
qed

theorem emulator_runs_guest_witness:
  "\<exists>m insts. emulator_setup True demo_lib demo_command [] = Inr (m, insts, demo_image) \<and> pc m = 0x100 \<and>
     emulator_main recording_host True demo_lib demo_command [] 1 = Inr (iterate (runInstruction recording_host) 1 m)"
proof -
  obtain m insts where m: "emulator_setup True demo_lib demo_command ([] :: u8 list) = Inr (m, insts, demo_image)" "pc m = 0x100"
    using setup_ok [OF demo_loads(1) demo_runnable, of True "[]"] demo_loads(2) by auto
  have inst: "decode 0x00500513 0x100 \<in> set (decodeToContainer demo_image)" "itype (decode 0x00500513 0x100) = I_ADDI"
    by (simp_all add: demo_image_simps addi_decoded)
  have "emulator_main recording_host True demo_lib demo_command [] 1 = Inr (iterate (runInstruction recording_host) 1 m)"
    by (rule emulator_runs_guest [OF demo_loads(1) demo_runnable m(1)]) (use inst m(2) in \<open>auto intro!: bexI [of _ "decode 0x00500513 0x100"]\<close>)
  then show ?thesis using m by blast
qed

text \<open>C13: The emulator does the same however it is built.  For as long as the guest stays in memory and on supported
  instructions that it has not modified, every choice of \<^verbatim>\<open>PREDECODE\<close>, \<^verbatim>\<open>THREADING\<close>, \<^verbatim>\<open>SWITCH\<close> and \<^verbatim>\<open>DIRECT_THREADING\<close> computes
  what fetching, decoding and executing one instruction after the other computes.\<close>

theorem builds_agree:
  assumes "table_ok insts"
    and "\<And>k m'. k < n \<Longrightarrow> iterate (runInstruction h) k m = Running m' \<Longrightarrow> code_current insts textStart m' \<and> supported_code m'"
    and "\<And>k m'. k < n \<Longrightarrow> iterate (runInstruction h) (Suc k) m = Running m' \<Longrightarrow> loop_check m' = None"
  shows "configured_run b h insts textStart n m = Inr (iterate (runInstruction h) n m)"
proof -
  have p: "iterate (runInstruction h) k m = iterate (predecoded_step h insts textStart) k m" if "k \<le> n" for k
    by (rule chain_predecoded.iterate_agree) (use assms(2) [OF less_le_trans] that supported_logs in blast)
  have s: "iterate (runInstruction h) k m = iterate (runInstructionSwitch h) k m" if "k \<le> n" for k
    by (rule chain_switch.iterate_agree) (use assms(2) [OF less_le_trans] that in blast)
  have loop: "emulator_loop engine n m = Inr (iterate (runInstruction h) n m)"
    if "\<And>k. k \<le> n \<Longrightarrow> iterate (runInstruction h) k m = iterate engine k m" for engine
    using emulator_loop_iterate [of n engine m] assms(3) that by (simp del: iterate.simps)
  have "iterate (threaded_step h (set_handlers insts) textStart) n m = iterate (predecoded_step h insts textStart) n m"
    "iterate (indirect_step h insts textStart) n m = iterate (predecoded_step h insts textStart) n m"
    by (rule threaded_predecoded.iterate_agree indirect_predecoded.iterate_agree, rule assms(1))+
  then show ?thesis
    using loop [OF p] loop [OF s] loop [OF refl] p [of n] by (simp add: configured_run_def runInstructionsThreaded_def)
qed

theorem builds_agree_witness:
  "configured_run \<lparr>PREDECODE = False, THREADING = False, SWITCH = True, DIRECT_THREADING = False\<rparr> recording_host [decode 0x00500513 0] 0 1 addi_demo
    = configured_run \<lparr>PREDECODE = True, THREADING = True, SWITCH = True, DIRECT_THREADING = True\<rparr> recording_host [decode 0x00500513 0] 0 1 addi_demo"
proof -
  have r: "read_u32 (memory addi_demo) (pc addi_demo) = Some 0x00500513" "pc addi_demo = 0" "profile addi_demo = None"
    by (simp_all add: addi_demo_def boot_machine_def mem_eval)
  have "supported_word 0x00500513"
    by (simp add: supported_word_def addi_decoded getOpcode_def)
  then have cur: "code_current [decode 0x00500513 0] 0 addi_demo" "supported_code addi_demo"
    using r by (simp_all add: supported_code_def code_current_def fetch_instruction_def)
  have "runInstruction recording_host addi_demo = runInstructionPredecoded recording_host addi_demo (decode 0x00500513 0)"
    using r runInstruction_predecoded [of "0x00500513" 0 addi_demo recording_host] by (simp add: runInstruction_def load_then_def)
  then have "loop_check m' = None" if "runInstruction recording_host addi_demo = Running m'" for m'
    using that r by (auto simp: addi_decoded runInstructionPredecoded_def predecoded_arms_def predecoded_groups finish_def loop_check_def
        BASE_RA_def word_le_nat_alt getSize_eq)
  then have "configured_run b recording_host [decode 0x00500513 0] 0 1 addi_demo = Inr (iterate (runInstruction recording_host) 1 addi_demo)" for b
    by (intro builds_agree) (use cur in \<open>auto simp: table_ok_def addi_decoded obind_eq_Running\<close>)
  then show ?thesis by simp
qed

text \<open>A bare-metal program cannot end under the emulator as built.  Its \<^verbatim>\<open>main\<close> returns to the address the loop
  around the engines checks for, but the threaded engine does not return to that loop: the next
  dispatch indexes the instruction vector beyond its end, for any vector of a program that fits into memory.\<close>

theorem baremetal_return_out_of_bounds:
  assumes "pc m = BASE_RA" and "textStart < getSize" and "length insts \<le> 0x20000"
  shows "loop_check m = Some ReturnedToBaseRa \<and> runInstructionsThreaded h insts textStart (Suc n) m = OutOfBounds BASE_RA"
proof -
  have t: "unat textStart < 0x80000" using assms(2) by (simp add: word_less_nat_alt getSize_eq)
  have "unat (BASE_RA - textStart) = 0xdeadbeef - unat textStart"
    using t by (subst unat_sub) (simp_all add: BASE_RA_def word_le_nat_alt)
  then have "\<not> unat ((BASE_RA - textStart) div 4) < length insts" using t assms(3) by (simp add: unat_div)
  then show ?thesis
    using assms(1) by (simp add: loop_check_def runInstructionsThreaded_def threaded_step_def fetch_instruction_def set_handlers_def load_then_def)
qed

theorem baremetal_return_out_of_bounds_witness:
  "runInstructionsThreaded recording_host [decode 0x00500513 0] 0 1 (addi_demo\<lparr>pc := BASE_RA\<rparr>) = OutOfBounds BASE_RA"
  using baremetal_return_out_of_bounds [of "addi_demo\<lparr>pc := BASE_RA\<rparr>" 0 "[decode 0x00500513 0]" recording_host 0]
  by (simp add: getSize_def DATA_SIZE_def)

end
