(* ===== verification/GeneratedMain.thy ===== *)
theory GeneratedMain
  imports GeneratedProgram Emulator
begin

text \<open>
  The \<^verbatim>\<open>main\<close> function that \<^verbatim>\<open>RuntimeEmitter::emitGeneratedMain\<close> writes, executed: the initial stack, the
  registers, the words of the binary and the heap.  With the simulation of \<^verbatim>\<open>runTranslated\<close> it gives the
  behaviour of the generated program from its first instruction to its exit.
\<close>

section \<open>Execution\<close>

text \<open>The globals of \<^verbatim>\<open>output_prologue\<close>; no profile is active in a generated program.\<close>

definition global_machine :: "'w \<Rightarrow> 'w machine" where
  "global_machine w = \<lparr>reg = (\<lambda>_. 0), pc = 0, memory = new_Memory, world = w,
     exitCallbacks = [], messages = [], profile = None\<rparr>"

text \<open>The statements of \<^verbatim>\<open>main\<close>; \<open>None\<close> when one of them writes outside of the memory.\<close>

fun exec_init :: "Auxiliary \<Rightarrow> init \<Rightarrow> 'w machine \<Rightarrow> 'w machine option" where
  "exec_init aux (Init_open entry) m =
     (case loadAux (memory m) aux False of
        None \<Rightarrow> None
      | Some mem \<Rightarrow> Some (m\<lparr>memory := mem, pc := entry, reg := (reg m)(REG_sp := initialSP mem)\<rparr>))"
| "exec_init aux (Init_no_startup base_ra global_pointer) m =
     Some (m\<lparr>reg := (reg m)(REG_ra := base_ra, REG_gp := global_pointer)\<rparr>)"
| "exec_init aux (Init_word a v) m = map_option (\<lambda>mem. m\<lparr>memory := mem\<rparr>) (write_u32 (memory m) a v)"
| "exec_init aux (Init_heap a) m = Some (m\<lparr>memory := initializeHeap (memory m) a\<rparr>)"

fun exec_inits :: "Auxiliary \<Rightarrow> init list \<Rightarrow> 'w machine \<Rightarrow> 'w machine option" where
  "exec_inits aux [] m = Some m"
| "exec_inits aux (x # xs) m = Option.bind (exec_init aux x m) (exec_inits aux xs)"

definition generated_start :: "libelf \<Rightarrow> ElfBinary \<Rightarrow> Auxiliary \<Rightarrow> 'w \<Rightarrow> 'w machine option" where
  "generated_start lib bin aux w = exec_inits aux (generated_main lib bin (decodeToContainer bin)) (global_machine w)"

section \<open>Well-formed images\<close>

text \<open>Code is written where it runs, data where it is loaded.\<close>

definition image_address :: "ElfBinarySection \<Rightarrow> u32" where
  "image_address sec = (if sec_type sec = Text then startAddress sec else getLoadAddress sec)"

definition image_range :: "ElfBinarySection \<Rightarrow> nat set" where
  "image_range sec = {unat (image_address sec)..<unat (image_address sec) + 4 * length (sec_data sec)}"

definition image_apart :: "ElfBinarySection \<Rightarrow> ElfBinarySection \<Rightarrow> bool" where
  "image_apart sec sec' \<longleftrightarrow>
     disjoint_ranges (image_address sec) (4 * length (sec_data sec)) (image_address sec') (4 * length (sec_data sec'))"

text \<open>The sections are apart from each other and end below the initial stack.\<close>

definition image_ok :: "ElfBinary \<Rightarrow> Auxiliary \<Rightarrow> bool" where
  "image_ok bin aux \<longleftrightarrow> aux_fits aux False \<and> getAuxValue (auxv aux) AT_PAGESZ \<in> set (map (\<lambda>p. 2 ^ p) [0..<20])
     \<and> list_all (\<lambda>sec. unat (image_address sec) + 4 * length (sec_data sec) + aux_bytes aux False + 1 \<le> unat getSize) (sections bin)
     \<and> sorted_wrt image_apart (sections bin)"

text \<open>Words with the addresses they are written to.\<close>

definition positions :: "u32 \<Rightarrow> nat \<Rightarrow> u32 list" where
  "positions a n = map (\<lambda>k. a + of_nat (4 * k)) [0..<n]"

definition word_apart :: "u32 \<Rightarrow> u32 \<Rightarrow> bool" where
  "word_apart a b \<longleftrightarrow> disjoint_ranges a 4 b 4"

definition word_range :: "u32 \<Rightarrow> nat set" where
  "word_range a = {unat a..<unat a + 4}"

definition data_image :: "ElfBinarySection list \<Rightarrow> (u32 \<times> u32) list" where
  "data_image secs = concat (map (\<lambda>sec. zip (positions (getLoadAddress sec) (length (sec_data sec))) (sec_data sec)) secs)"

definition code_image :: "ElfBinary \<Rightarrow> (u32 \<times> u32) list" where
  "code_image bin = map (\<lambda>inst. (address inst, instruction inst)) (decodeToContainer bin)"

abbreviation word_init :: "u32 \<times> u32 \<Rightarrow> init" where
  "word_init p \<equiv> Init_word (fst p) (snd p)"

abbreviation section_positions :: "ElfBinarySection \<Rightarrow> u32 list" where
  "section_positions sec \<equiv> positions (image_address sec) (length (sec_data sec))"

definition ends_below :: "nat \<Rightarrow> ElfBinarySection \<Rightarrow> bool" where
  "ends_below n sec \<longleftrightarrow> unat (image_address sec) + 4 * length (sec_data sec) \<le> n"

text \<open>
  The guest is at an instruction of the binary that all engines agree on, and has not overwritten it.
\<close>

definition follows :: "ElfBinary \<Rightarrow> Memory \<Rightarrow> 'w machine \<Rightarrow> bool" where
  "follows bin mem m \<longleftrightarrow>
     list_ex (\<lambda>inst. address inst = pc m \<and> supported_word (instruction inst) \<and> agreeing inst m) (decodeToContainer bin)
     \<and> read_u32 (memory m) (pc m) = read_u32 mem (pc m)"

text \<open>A program that exits, \<^verbatim>\<open>addi a7, x0, 93; ecall\<close>, and one with data among its code.\<close>

definition exit_binary :: ElfBinary where
  "exit_binary = computeTextBounds ((new_ElfBinary ''a.out'')\<lparr>sections := [demo_section ''.text'' 0x100 [0x05D00893, 0x00000073] 6]\<rparr>)"

definition literal_binary :: ElfBinary where
  "literal_binary = computeTextBounds ((new_ElfBinary ''a.out'')\<lparr>sections := [demo_section ''.text'' 0x100 [0x00000073, 0xFFFFFFFF] 6]\<rparr>)"

text \<open>A return at the end of a section, with a gap before the next one.\<close>

definition gap_binary :: ElfBinary where
  "gap_binary = computeTextBounds ((new_ElfBinary ''a.out'')\<lparr>sections :=
     [demo_section ''.init'' 0 [0x00008067] 6, demo_section ''.text'' 8 [0x00000073] 6]\<rparr>)"

section \<open>Sequences of writes\<close>


lemma exec_inits_append: "exec_inits aux (xs @ ys) m = Option.bind (exec_inits aux xs m) (exec_inits aux ys)"
proof (induction xs arbitrary: m)
  case (Cons x xs)
  then show ?case by (cases "exec_init aux x m") simp_all
qed simp

lemma word_apart_ranges: "word_apart a b \<Longrightarrow> word_range a \<inter> word_range b = {}"
  by (auto simp: word_apart_def word_range_def disjoint_ranges_def)

lemma word_inits:
  assumes "list_all (\<lambda>p. unat (fst p) + 4 \<le> data_length) ps" "sorted_wrt word_apart (map fst ps)"
  shows "\<exists>mem. exec_inits aux (map word_init ps) m = Some (m\<lparr>memory := mem\<rparr>)
    \<and> (\<forall>p\<in>set ps. read_u32 mem (fst p) = Some (snd p))
    \<and> changes_only (\<Union>p\<in>set ps. word_range (fst p)) (memory m) mem \<and> mem\<lparr>mem_data := mem_data (memory m)\<rparr> = memory m"
  using assms
proof (induction ps arbitrary: m)
  case Nil
  show ?case by (rule exI [of _ "memory m"]) (simp add: changes_only_refl)
next
  case (Cons p ps)
  obtain mem1 where w: "write_u32 (memory m) (fst p) (snd p) = Some mem1" "read_u32 mem1 (fst p) = Some (snd p)"
    "changes_only (word_range (fst p)) (memory m) mem1" "mem1\<lparr>mem_data := mem_data (memory m)\<rparr> = memory m"
    by (rule write_word [of "fst p" "memory m" "snd p"]) (use Cons.prems in \<open>auto simp: word_range_def\<close>)
  obtain mem where r: "exec_inits aux (map word_init ps) (m\<lparr>memory := mem1\<rparr>) = Some (m\<lparr>memory := mem\<rparr>)"
    "\<forall>p\<in>set ps. read_u32 mem (fst p) = Some (snd p)" "changes_only (\<Union>p\<in>set ps. word_range (fst p)) mem1 mem"
    "mem\<lparr>mem_data := mem_data mem1\<rparr> = mem1"
    using Cons.IH [of "m\<lparr>memory := mem1\<rparr>"] Cons.prems by auto
  have "word_range (fst p) \<inter> (\<Union>p\<in>set ps. word_range (fst p)) = {}" using Cons.prems word_apart_ranges by auto
  then have "read_u32 mem (fst p) = Some (snd p)" using read_changes(2) [OF r(3)] w(2) by (simp add: word_range_def)
  moreover have "mem\<lparr>mem_data := mem_data (memory m)\<rparr> = memory m"
    using r(4) w(4) by (cases mem; cases mem1; cases "memory m") simp
  moreover have "changes_only (\<Union>p\<in>set (p # ps). word_range (fst p)) (memory m) mem"
    using changes_only_trans [OF w(3) r(3)] by simp
  ultimately show ?case using w(1) r by (intro exI [of _ mem]) simp
qed

lemma sorted_wrt_pairwise:
  "sorted_wrt P xs \<Longrightarrow> (\<And>x y. P x y \<Longrightarrow> P y x) \<Longrightarrow> x \<in> set xs \<Longrightarrow> y \<in> set xs \<Longrightarrow> x \<noteq> y \<Longrightarrow> P x y"
  by (induction xs) auto

lemma word_apart_sym: "word_apart a b \<Longrightarrow> word_apart b a"
  by (auto simp: word_apart_def disjoint_ranges_def)

text \<open>Zero words are not written; they are there already.\<close>

lemma nonzero_word_inits:
  assumes "list_all (\<lambda>p. unat (fst p) + 4 \<le> data_length) ps" "sorted_wrt word_apart (map fst ps)"
    "\<And>p. p \<in> set ps \<Longrightarrow> read_u32 (memory m) (fst p) = Some 0"
  shows "\<exists>mem. exec_inits aux (map word_init (filter (\<lambda>p. snd p \<noteq> 0) ps)) m = Some (m\<lparr>memory := mem\<rparr>)
    \<and> (\<forall>p\<in>set ps. read_u32 mem (fst p) = Some (snd p))
    \<and> changes_only (\<Union>p\<in>set ps. word_range (fst p)) (memory m) mem \<and> mem\<lparr>mem_data := mem_data (memory m)\<rparr> = memory m"
proof -
  let ?qs = "filter (\<lambda>p. snd p \<noteq> 0) ps"
  obtain mem where r: "exec_inits aux (map word_init ?qs) m = Some (m\<lparr>memory := mem\<rparr>)"
    "\<forall>p\<in>set ?qs. read_u32 mem (fst p) = Some (snd p)" "changes_only (\<Union>p\<in>set ?qs. word_range (fst p)) (memory m) mem"
    "mem\<lparr>mem_data := mem_data (memory m)\<rparr> = memory m"
  proof -
    have "list_all (\<lambda>p. unat (fst p) + 4 \<le> data_length) ?qs" using assms(1) by (simp add: list_all_iff)
    moreover have "sorted_wrt word_apart (map fst ?qs)" using assms(2) by (simp add: sorted_wrt_map sorted_wrt_filter)
    ultimately show thesis using word_inits that by blast
  qed
  have "read_u32 mem (fst p) = Some (snd p)" if p: "p \<in> set ps" "snd p = 0" for p
  proof -
    have "word_apart (fst p) (fst q)" if "q \<in> set ?qs" for q
      by (rule sorted_wrt_pairwise [of "\<lambda>p q. word_apart (fst p) (fst q)" ps])
        (use assms(2) p that in \<open>auto simp: sorted_wrt_map intro: word_apart_sym\<close>)
    then have "word_range (fst p) \<inter> (\<Union>p\<in>set ?qs. word_range (fst p)) = {}" using word_apart_ranges by blast
    then show ?thesis using read_changes(2) [OF r(3)] assms(3) p by (simp add: word_range_def)
  qed
  then have "\<forall>p\<in>set ps. read_u32 mem (fst p) = Some (snd p)" using r(2) unfolding set_filter by blast
  moreover have "changes_only (\<Union>p\<in>set ps. word_range (fst p)) (memory m) mem"
    by (rule changes_only_mono [OF r(3)]) auto
  ultimately show ?thesis using r(1,4) by blast
qed

section \<open>Images\<close>

lemma length_positions [simp]: "length (positions a n) = n"
  by (simp add: positions_def)

lemma positions_in:
  assumes "unat a + 4 * n \<le> data_length" "p \<in> set (positions a n)"
  shows "unat a \<le> unat p \<and> unat p + 4 \<le> unat a + 4 * n"
proof -
  obtain k where "k < n" "p = a + of_nat (4 * k)" using assms(2) by (auto simp: positions_def)
  then show ?thesis using unat_word_address [OF assms(1), of k] by simp
qed

lemma positions_apart:
  assumes "unat a + 4 * n \<le> data_length"
  shows "sorted_wrt word_apart (positions a n)"
proof -
  have "word_apart (a + of_nat (4 * i)) (a + of_nat (4 * j))" if "i < j" "j < n" for i j
    using that unat_word_address [OF assms, of i] unat_word_address [OF assms, of j]
    by (simp add: word_apart_def disjoint_ranges_def)
  then show ?thesis by (simp add: positions_def sorted_wrt_iff_nth_less)
qed

lemma positions_Suc: "positions a (Suc n) = a # positions (a + 4) n"
proof -
  have "[0..<Suc n] = 0 # map Suc [0..<n]" by (simp add: upt_conv_Cons map_Suc_upt del: upt_Suc)
  then show ?thesis by (simp add: positions_def algebra_simps del: upt_Suc)
qed

lemma section_positions_in:
  assumes "ends_below n sec" "n \<le> data_length" "a \<in> set (section_positions sec)"
  shows "word_range a \<subseteq> image_range sec" "unat a + 4 \<le> n"
proof -
  have "unat (image_address sec) \<le> unat a \<and> unat a + 4 \<le> unat (image_address sec) + 4 * length (sec_data sec)"
    by (rule positions_in) (use assms in \<open>simp_all add: ends_below_def\<close>)
  then show "word_range a \<subseteq> image_range sec" "unat a + 4 \<le> n"
    using assms(1) by (auto simp: word_range_def image_range_def ends_below_def)
qed

lemma image_apart_positions:
  assumes "image_apart sec sec'" "ends_below n sec" "ends_below n sec'" "n \<le> data_length"
    "a \<in> set (section_positions sec)" "b \<in> set (section_positions sec')"
  shows "word_apart a b"
proof -
  have "unat (image_address sec) \<le> unat a \<and> unat a + 4 \<le> unat (image_address sec) + 4 * length (sec_data sec)"
    "unat (image_address sec') \<le> unat b \<and> unat b + 4 \<le> unat (image_address sec') + 4 * length (sec_data sec')"
    by (rule positions_in; use assms in \<open>simp add: ends_below_def\<close>)+
  then show ?thesis using assms(1) by (auto simp: image_apart_def word_apart_def disjoint_ranges_def)
qed

lemma all_positions_apart:
  assumes "list_all (ends_below n) secs" "n \<le> data_length" "sorted_wrt image_apart secs"
  shows "sorted_wrt word_apart (concat (map section_positions secs))"
  using assms
proof (induction secs)
  case (Cons sec secs)
  have "sorted_wrt word_apart (section_positions sec)"
    using Cons.prems by (intro positions_apart) (simp add: ends_below_def)
  moreover have "word_apart a b" if ab: "a \<in> set (section_positions sec)" "b \<in> set (concat (map section_positions secs))" for a b
  proof -
    obtain sec' where "sec' \<in> set secs" "b \<in> set (section_positions sec')" using ab by auto
    then show ?thesis
      using Cons.prems ab by (intro image_apart_positions [of sec sec' n]) (auto simp: list_all_iff)
  qed
  ultimately show ?case using Cons by (simp add: sorted_wrt_append)
qed simp

lemma all_positions_in:
  assumes "list_all (ends_below n) secs" "n \<le> data_length" "a \<in> set (concat (map section_positions secs))"
  shows "word_range a \<subseteq> (\<Union>sec\<in>set secs. image_range sec)" "unat a + 4 \<le> n"
proof -
  obtain sec where "sec \<in> set secs" "a \<in> set (section_positions sec)" using assms(3) by auto
  then show "word_range a \<subseteq> (\<Union>sec\<in>set secs. image_range sec)" "unat a + 4 \<le> n"
    using section_positions_in [of n sec a] assms(1,2) by (auto simp: list_all_iff)
qed

lemma data_words_image: "data_words a ws = map word_init (filter (\<lambda>p. snd p \<noteq> 0) (zip (positions a (length ws)) ws))"
  by (induction a ws rule: data_words.induct) (simp_all add: positions_Suc)

lemma data_inits_image: "fst (data_inits secs e) = map word_init (filter (\<lambda>p. snd p \<noteq> 0) (data_image secs))"
  by (induction secs arbitrary: e) (simp_all add: data_image_def data_words_image split_def Let_def)

lemma data_image_positions:
  assumes "list_all (\<lambda>sec. sec_type sec \<noteq> Text) secs"
  shows "map fst (data_image secs) = concat (map section_positions secs)"
  using assms by (induction secs) (simp_all add: data_image_def image_address_def)

lemma decode_words_positions: "map address (decode_words a ws) = positions a (length ws)"
  by (rule nth_equalityI) (simp_all add: positions_def nth_decode_words)

lemma code_image_positions: "map fst (code_image bin) = concat (map section_positions (getTypeSections bin Text))"
proof -
  have "concat (map (\<lambda>sec. map address (decode_words (startAddress sec) (sec_data sec))) secs) = concat (map section_positions secs)"
    if "list_all (\<lambda>sec. sec_type sec = Text) secs" for secs
    using that by (induction secs) (simp_all add: decode_words_positions image_address_def)
  then show ?thesis
    by (simp add: code_image_def decodeToContainer_def comp_def map_concat getTypeSections_def list_all_iff)
qed

section \<open>Startup\<close>

text \<open>The registers and the program counter after the first statements of \<^verbatim>\<open>main\<close>.\<close>

lemma start_opens:
  assumes "loadAux new_Memory aux False = Some mem0"
  obtains regs where "\<forall>r. r \<notin> {REG_ra, REG_sp, REG_gp} \<longrightarrow> regs r = 0" "regs REG_sp = initialSP mem0"
    "generated_start lib bin aux w =
       Option.bind (exec_inits aux (map word_init (filter (\<lambda>p. snd p \<noteq> 0) (data_image (getTypeSections bin Data))))
         ((global_machine w)\<lparr>memory := mem0, pc := getEntryAddress lib bin, reg := regs\<rparr>))
         (\<lambda>m. exec_inits aux (map word_init (code_image bin))
           (m\<lparr>memory := initializeHeap (memory m) (snd (data_inits (getTypeSections bin Data) 0))\<rparr>))"
proof -
  let ?regs = "if getSymbolAddress lib bin ''_start'' = None
    then (\<lambda>_. 0)(REG_sp := initialSP mem0, REG_ra := getBaseRa bin,
      REG_gp := (case getSymbolAddress lib bin ''__global_pointer$'' of Some gp \<Rightarrow> gp | None \<Rightarrow> 0))
    else (\<lambda>_. 0)(REG_sp := initialSP mem0)"
  have code: "map (\<lambda>inst. Init_word (address inst) (instruction inst)) (decodeToContainer bin) = map word_init (code_image bin)"
    by (simp add: code_image_def)
  have split: "generated_main lib bin (decodeToContainer bin) =
      ([Init_open (getEntryAddress lib bin)]
       @ (if getSymbolAddress lib bin ''_start'' = None
          then [Init_no_startup (getBaseRa bin) (case getSymbolAddress lib bin ''__global_pointer$'' of Some gp \<Rightarrow> gp | None \<Rightarrow> 0)] else []))
      @ map word_init (filter (\<lambda>p. snd p \<noteq> 0) (data_image (getTypeSections bin Data)))
      @ [Init_heap (snd (data_inits (getTypeSections bin Data) 0))] @ map word_init (code_image bin)"
    unfolding generated_main_def code by (simp add: split_def Let_def data_inits_image)
  have heap: "exec_inits aux (Init_heap e # xs) = (\<lambda>m. exec_inits aux xs (m\<lparr>memory := initializeHeap (memory m) e\<rparr>))"
    for e xs by (simp add: fun_eq_iff)
  show thesis
  proof (rule that [of ?regs])
    show "generated_start lib bin aux w =
       Option.bind (exec_inits aux (map word_init (filter (\<lambda>p. snd p \<noteq> 0) (data_image (getTypeSections bin Data))))
         ((global_machine w)\<lparr>memory := mem0, pc := getEntryAddress lib bin, reg := ?regs\<rparr>))
         (\<lambda>m. exec_inits aux (map word_init (code_image bin))
           (m\<lparr>memory := initializeHeap (memory m) (snd (data_inits (getTypeSections bin Data) 0))\<rparr>))"
      unfolding generated_start_def split using assms
      by (cases "getSymbolAddress lib bin ''_start''") (simp_all add: exec_inits_append heap global_machine_def)
  qed simp_all
qed

lemma zero_memory:
  assumes "changes_only {lo..<hi} new_Memory mem" "unat a + 4 \<le> lo" "lo \<le> data_length"
  shows "read_u32 mem a = Some 0"
proof -
  have "read_u32 mem a = read_u32 new_Memory a" by (rule read_changes(2) [OF assms(1)]) (use assms(2) in auto)
  also have "\<dots> = Some 0" using assms(2,3) by (simp add: read_defs mem_read_def in_bounds_def new_Memory_def upt_rec)
  finally show ?thesis .
qed

lemma initializeHeap_reads [simp]: "mem_data (initializeHeap m e) = mem_data m" "mem_read (initializeHeap m e) = mem_read m" "read_u32 (initializeHeap m e) = read_u32 m"
  by (simp_all add: initializeHeap_def Let_def read_defs mem_read_def fun_eq_iff)

lemma changes_only_initializeHeap [simp]: "changes_only A (initializeHeap m e) m' = changes_only A m m'"
  by (simp add: changes_only_def)

lemma image_sections:
  assumes "image_ok bin aux" "stack_layout m mem0 aux False"
  shows "list_all (ends_below (unat (initialSP mem0))) (sections bin)" "unat (initialSP mem0) \<le> data_length"
proof -
  have "unat getSize \<le> unat (initialSP mem0) + aux_bytes aux False + 1" "unat (initialSP mem0) \<le> unat getSize"
    using assms(2) by (simp_all add: stack_layout_def Let_def)
  then show "list_all (ends_below (unat (initialSP mem0))) (sections bin)" "unat (initialSP mem0) \<le> data_length"
    using assms(1) by (auto simp: image_ok_def list_all_iff ends_below_def getSize_eq data_length_eq)
qed

lemma image_apart_ranges: "image_apart sec sec' \<Longrightarrow> image_range sec \<inter> image_range sec' = {}"
  by (auto simp: image_apart_def image_range_def disjoint_ranges_def)

lemma image_apart_sym: "image_apart sec sec' \<Longrightarrow> image_apart sec' sec"
  by (auto simp: image_apart_def disjoint_ranges_def)

lemma type_sections_apart:
  assumes "sorted_wrt image_apart (sections bin)" "sec \<in> set (getTypeSections bin t)" "t \<noteq> t'"
  shows "image_range sec \<inter> (\<Union>sec'\<in>set (getTypeSections bin t'). image_range sec') = {}"
proof -
  have "image_range sec \<inter> image_range sec' = {}" if "sec' \<in> set (getTypeSections bin t')" for sec'
    by (rule image_apart_ranges, rule sorted_wrt_pairwise [OF assms(1) image_apart_sym])
      (use assms(2,3) that in \<open>auto simp: getTypeSections_def\<close>)
  then show ?thesis by blast
qed

text \<open>The words of the sections of one type, written over memory that is known below the stack.\<close>

lemma type_sections_ok:
  assumes "list_all (ends_below n) (sections bin)" "n \<le> data_length" "sorted_wrt image_apart (sections bin)"
    and "map fst ps = concat (map section_positions (getTypeSections bin t))"
  shows "list_all (\<lambda>p. unat (fst p) + 4 \<le> n) ps" "sorted_wrt word_apart (map fst ps)"
    "(\<Union>p\<in>set ps. word_range (fst p)) \<subseteq> (\<Union>sec\<in>set (getTypeSections bin t). image_range sec)"
    "(\<Union>sec\<in>set (getTypeSections bin t). image_range sec) \<subseteq> {..<n}"
proof -
  have t: "list_all (ends_below n) (getTypeSections bin t)" "sorted_wrt image_apart (getTypeSections bin t)"
    using assms(1,3) by (auto simp: getTypeSections_def list_all_iff sorted_wrt_filter)
  have "fst p \<in> set (concat (map section_positions (getTypeSections bin t)))" if "p \<in> set ps" for p
    unfolding assms(4) [symmetric] using that by simp
  then show "list_all (\<lambda>p. unat (fst p) + 4 \<le> n) ps"
    "(\<Union>p\<in>set ps. word_range (fst p)) \<subseteq> (\<Union>sec\<in>set (getTypeSections bin t). image_range sec)"
    using all_positions_in [OF t(1) assms(2)] unfolding list_all_iff by blast+
  show "sorted_wrt word_apart (map fst ps)" unfolding assms(4) by (rule all_positions_apart [OF t(1) assms(2) t(2)])
  show "(\<Union>sec\<in>set (getTypeSections bin t). image_range sec) \<subseteq> {..<n}"
    using t(1) by (auto simp: list_all_iff ends_below_def image_range_def)
qed

lemma data_image_read:
  assumes "\<forall>p\<in>set (data_image secs). read_u32 mem (fst p) = Some (snd p)" "sec \<in> set secs"
  shows "loads_as mem sec"
  unfolding loads_as_def
proof (intro allI impI)
  fix k assume k: "k < length (sec_data sec)"
  have "(getLoadAddress sec + of_nat (4 * k), sec_data sec ! k) \<in> set (zip (positions (getLoadAddress sec) (length (sec_data sec))) (sec_data sec))"
    using k by (auto simp: set_zip positions_def intro!: exI [of _ k])
  then have "(getLoadAddress sec + of_nat (4 * k), sec_data sec ! k) \<in> set (data_image secs)"
    using assms(2) unfolding data_image_def set_concat set_map by blast
  then show "read_u32 mem (getLoadAddress sec + of_nat (4 * k)) = Some (sec_data sec ! k)"
    using bspec [OF assms(1)] by fastforce
qed

text \<open>All words of the image, over memory that is zero below the stack; the heap is set up in between.\<close>

lemma image_written:
  assumes img: "list_all (ends_below n) (sections bin)" "n \<le> data_length" and apart: "sorted_wrt image_apart (sections bin)"
    and zero: "\<And>a. unat a + 4 \<le> n \<Longrightarrow> read_u32 (memory m) a = Some 0"
  obtains mem where
    "Option.bind (exec_inits aux (map word_init (filter (\<lambda>p. snd p \<noteq> 0) (data_image (getTypeSections bin Data)))) m)
       (\<lambda>m. exec_inits aux (map word_init (code_image bin)) (m\<lparr>memory := initializeHeap (memory m) e\<rparr>)) = Some (m\<lparr>memory := mem\<rparr>)"
    "changes_only {..<n} (memory m) mem" "mem\<lparr>mem_data := mem_data (memory m)\<rparr> = initializeHeap (memory m) e"
    "list_all (loads_as mem) (getTypeSections bin Data)"
    "\<forall>inst\<in>set (decodeToContainer bin). read_u32 mem (address inst) = Some (instruction inst)"
proof -
  let ?data = "data_image (getTypeSections bin Data)"
  have data: "map fst ?data = concat (map section_positions (getTypeSections bin Data))"
    by (rule data_image_positions) (simp add: getTypeSections_def list_all_iff)
  note D = type_sections_ok [OF img apart data] and T = type_sections_ok [OF img apart code_image_positions]
  have in_data: "list_all (\<lambda>p. unat (fst p) + 4 \<le> data_length) ps" if "list_all (\<lambda>p. unat (fst p) + 4 \<le> n) ps" for ps :: "(u32 \<times> u32) list"
    using that img(2) by (auto simp: list_all_iff)
  have zero_data: "read_u32 (memory m) (fst p) = Some 0" if "p \<in> set ?data" for p
    by (rule zero) (use D(1) that in \<open>simp add: list_all_iff\<close>)
  obtain mem1 where m1: "exec_inits aux (map word_init (filter (\<lambda>p. snd p \<noteq> 0) ?data)) m = Some (m\<lparr>memory := mem1\<rparr>)"
    "\<forall>p\<in>set ?data. read_u32 mem1 (fst p) = Some (snd p)" "changes_only (\<Union>p\<in>set ?data. word_range (fst p)) (memory m) mem1"
    "mem1\<lparr>mem_data := mem_data (memory m)\<rparr> = memory m"
    using nonzero_word_inits [OF in_data [OF D(1)] D(2) zero_data] by auto
  obtain mem2 where m2: "exec_inits aux (map word_init (code_image bin)) (m\<lparr>memory := initializeHeap mem1 e\<rparr>) = Some (m\<lparr>memory := mem2\<rparr>)"
    "\<forall>p\<in>set (code_image bin). read_u32 mem2 (fst p) = Some (snd p)" "changes_only (\<Union>p\<in>set (code_image bin). word_range (fst p)) mem1 mem2"
    "mem2\<lparr>mem_data := mem_data mem1\<rparr> = initializeHeap mem1 e"
    using word_inits [OF in_data [OF T(1)] T(2), of aux "m\<lparr>memory := initializeHeap mem1 e\<rparr>"] by auto
  note ch = changes_only_mono [OF m1(3) D(3)] changes_only_mono [OF m2(3) T(3)]
  have "loads_as mem2 sec" if sec: "sec \<in> set (getTypeSections bin Data)" for sec
  proof (rule loads_as_changes [OF data_image_read [OF m1(2) sec] ch(2)])
    have "image_address sec = getLoadAddress sec" using sec by (auto simp: image_address_def getTypeSections_def)
    moreover have "ends_below n sec" using img(1) sec by (auto simp: list_all_iff getTypeSections_def)
    ultimately show "unat (getLoadAddress sec) + 4 * length (sec_data sec) \<le> data_length"
      "{unat (getLoadAddress sec)..<unat (getLoadAddress sec) + 4 * length (sec_data sec)}
        \<inter> (\<Union>sec\<in>set (getTypeSections bin Text). image_range sec) = {}"
      using type_sections_apart [OF apart sec, of Text] img(2) by (simp_all add: ends_below_def image_range_def [of sec])
  qed
  moreover have "changes_only {..<n} (memory m) mem2"
    using changes_only_mono [OF changes_only_trans [OF ch]] D(4) T(4) by simp
  moreover have "mem2\<lparr>mem_data := mem_data (memory m)\<rparr> = initializeHeap (memory m) e"
    using m2(4) m1(4) by (cases mem2; cases mem1; cases "memory m") (simp add: initializeHeap_def pageAlignAddress_def Let_def)
  ultimately show thesis
    using m1(1) m2(1,2) by (intro that [of mem2]) (auto simp: code_image_def list_all_iff)
qed

lemma generated_start_ok:
  assumes ok: "image_ok bin aux"
  shows "\<exists>m mem0. loadAux new_Memory aux False = Some mem0 \<and> stack_layout new_Memory mem0 aux False
    \<and> generated_start lib bin aux w = Some m \<and> pc m = getEntryAddress lib bin \<and> reg m REG_sp = initialSP mem0
    \<and> (\<forall>r. r \<notin> {REG_ra, REG_sp, REG_gp} \<longrightarrow> reg m r = 0)
    \<and> machine_ok m \<and> profile m = None \<and> world m = w \<and> exitCallbacks m = []
    \<and> (\<forall>b n. unat (initialSP mem0) \<le> unat b \<longrightarrow> mem_read (memory m) b n = mem_read mem0 b n)
    \<and> list_all (loads_as (memory m)) (getTypeSections bin Data)
    \<and> (\<forall>inst\<in>set (decodeToContainer bin). read_u32 (memory m) (address inst) = Some (instruction inst))"
proof -
  have fits: "aux_fits aux False" and apart: "sorted_wrt image_apart (sections bin)" using ok by (simp_all add: image_ok_def)
  obtain mem0 where m0: "loadAux new_Memory aux False = Some mem0" "stack_layout new_Memory mem0 aux False"
    "mem0\<lparr>mem_data := mem_data new_Memory, initialSP := initialSP new_Memory, pageSize := pageSize new_Memory\<rparr> = new_Memory"
    using loadAux_ok [OF fits, of new_Memory] by blast
  let ?sp = "unat (initialSP mem0)" and ?e = "snd (data_inits (getTypeSections bin Data) 0)"
  note img = image_sections [OF ok m0(2)]
  obtain regs where regs: "\<forall>r. r \<notin> {REG_ra, REG_sp, REG_gp} \<longrightarrow> regs r = 0" "regs REG_sp = initialSP mem0"
    "generated_start lib bin aux w = Option.bind
       (exec_inits aux (map word_init (filter (\<lambda>p. snd p \<noteq> 0) (data_image (getTypeSections bin Data))))
         ((global_machine w)\<lparr>memory := mem0, pc := getEntryAddress lib bin, reg := regs\<rparr>))
       (\<lambda>m. exec_inits aux (map word_init (code_image bin)) (m\<lparr>memory := initializeHeap (memory m) ?e\<rparr>))"
    by (rule start_opens [OF m0(1), of lib bin w])
  let ?m1 = "(global_machine w)\<lparr>memory := mem0, pc := getEntryAddress lib bin, reg := regs\<rparr>"
  have stack: "changes_only {?sp..<?sp + aux_bytes aux False} new_Memory mem0" using m0(2) by (simp add: stack_layout_def Let_def)
  obtain mem where mem: "generated_start lib bin aux w = Some (?m1\<lparr>memory := mem\<rparr>)" "changes_only {..<?sp} mem0 mem"
    "mem\<lparr>mem_data := mem_data mem0\<rparr> = initializeHeap mem0 ?e" "list_all (loads_as mem) (getTypeSections bin Data)"
    "\<forall>inst\<in>set (decodeToContainer bin). read_u32 mem (address inst) = Some (instruction inst)"
    by (rule image_written [OF img apart, of ?m1 aux ?e]) (use zero_memory [OF stack _ img(2)] regs(3) in auto)
  have "mem_read mem b n = mem_read mem0 b n" if "?sp \<le> unat b" for b n
    by (rule read_changes(1) [OF mem(2)]) (use that in auto)
  moreover have "memory_ok mem"
  proof -
    have "mappedAreas mem = []" "heapBase mem = heapEnd mem" "pageSize mem = pageSize mem0"
      using mem(3) m0(3) by (cases mem; cases mem0; simp add: initializeHeap_def Let_def new_Memory_def)+
    moreover have "pageSize mem0 = getAuxValue (auxv aux) AT_PAGESZ" using m0(2) by (simp add: stack_layout_def Let_def)
    ultimately show ?thesis using ok by (simp add: memory_ok_def arena_ok_def page_ok_def image_ok_def)
  qed
  ultimately show ?thesis
    using m0(1,2) regs(1,2) mem(1,4,5)
    by (intro exI [of _ "?m1\<lparr>memory := mem\<rparr>"] exI [of _ mem0]) (simp add: machine_ok_def global_machine_def)
qed

section \<open>Running the generated program\<close>

lemma decoded_word: "instruction (decode v a) = (if itype (decode v a) = I_INVALID then 0 else v)"
proof (cases "\<exists>spec\<in>set all_specs. spec_matches v spec")
  case True
  then obtain spec where spec: "spec \<in> set all_specs" "decode v a = decode_spec v a spec" using decode_eq_spec by blast
  have "list_all (\<lambda>spec. spec_type spec \<noteq> I_INVALID) all_specs" by code_simp
  then show ?thesis using spec by (simp add: decode_spec_def list_all_iff)
qed (simp add: decode_eq_invalid blank_instruction_def)

lemma handle_unprofiled: "profile m = None \<Longrightarrow> orunning (\<lambda>m'. profile m' = None) (handle h m)"
  using kernel.frame [of m h] by (cases "handle h m") (simp_all add: syscall_frame_def)

lemma predecoded_unprofiled: "profile m = None \<Longrightarrow> orunning (\<lambda>m'. profile m' = None) (predecoded_arms h m inst)"
  by (cases "itype inst") (simp_all add: predecoded_arms_def predecoded_groups arm_simps handle_unprofiled)

interpretation unprofiled_engine: stepper "runInstruction h" "\<lambda>m. profile m = None"
  for h :: "'w host"
proof unfold_locales
  fix m :: "'w machine"
  assume m: "profile m = None"
  have "orunning (\<lambda>m'. profile m' = None) (obind (chain_arms h m i) finish)" for i
    using predecoded_unprofiled [OF m, of h "decode i 0"] unfolding chain_eq_predecoded_arms [of h m i 0]
    by (cases "predecoded_arms h m (decode i 0)") (simp_all add: finish_def)
  then show "orunning (\<lambda>m'. profile m' = None) (runInstruction h m)"
    unfolding runInstruction_def runInstruction_word_def logRegister_no_profile [OF m] by (simp add: orunning_load_then)
qed

lemma follows_translatable:
  assumes "contiguous bin" "follows bin mem m" "profile m = None"
    and "\<And>inst. inst \<in> set (decodeToContainer bin) \<Longrightarrow> read_u32 mem (address inst) = Some (instruction inst)"
  shows "translatable bin m"
proof -
  obtain inst where inst: "inst \<in> set (decodeToContainer bin)" "address inst = pc m" "supported_word (instruction inst)" "agreeing inst m"
    using assms(2) by (auto simp: follows_def list_ex_iff)
  obtain k where k: "k < length (decodeToContainer bin)" "decodeToContainer bin ! k = inst" using inst(1) by (auto simp: in_set_conv_nth)
  have fetch: "fetch_instruction (decodeToContainer bin) (getTextStartAddress bin) (pc m) = Some inst"
    using index_of_address [OF assms(1) k(1)] k inst(2) by (simp add: fetch_instruction_def Let_def)
  have word: "read_u32 (memory m) (pc m) = Some (instruction inst)"
    using assms(2) assms(4) [OF inst(1)] inst(2) by (simp add: follows_def)
  obtain v a where v: "inst = decode v a" using decoded_instruction [OF inst(1)] by blast
  have "\<not> supported_word 0" by code_simp
  then have "instruction inst = v" using inst(3) decoded_word [of v a] v by (auto split: if_splits)
  then have "inst = decode (instruction inst) (pc m)" using inst(2) v by simp
  then show ?thesis
    using fetch word inst(3,4) assms(3) by (simp add: translatable_def code_current_def supported_code_def)
qed

lemma exit_code:
  "decodeToContainer exit_binary = [decode 0x05D00893 0x100, decode 0x00000073 0x104]" "getTextStartAddress exit_binary = 0x100"
  "getTextWordCount exit_binary = 2" "sections exit_binary = [demo_section ''.text'' 0x100 [0x05D00893, 0x00000073] 6]"
  by (simp_all add: exit_binary_def decodeToContainer_def getTypeSections_def computeTextBounds_def new_ElfBinary_def demo_section_def
      new_ElfBinarySection_def getTextWordCount_def resolveSectionType_def SHF_EXECINSTR_def SHF_ALLOC_def getEndAddress_def getByteSize_def)

lemma li_decoded: "decode 0x05D00893 a = \<lparr>itype = I_ADDI, instruction = 0x05D00893, immediate = 93,
    address = a, rs1 = 0, rs2 = 29, rd = 17, handler = None\<rparr>"
proof -
  let ?s = "mk_spec I_ADDI FMT_I 0b0010011 True 0 False 0 0 0"
  have "?s \<in> set all_specs" by (simp add: spec_tables)
  moreover have "spec_matches 0x05D00893 ?s" by (simp add: spec_matches_def getOpcode_def getFunct3_def)
  ultimately show ?thesis
    by (simp add: decode_eq_spec decode_spec_def I_FMT_imm_def getRS1_def getRS2_def getRD_def)
qed

lemma ecall_decoded: "itype (decode 0x00000073 a) = I_ECALL" "instruction (decode 0x00000073 a) = 0x00000073"
proof -
  have "\<exists>s\<in>set all_specs. spec_type s = I_ECALL \<and> spec_matches 0x00000073 s" by code_simp
  then show "itype (decode 0x00000073 a) = I_ECALL" "instruction (decode 0x00000073 a) = 0x00000073"
    by (auto simp: decode_eq_spec decode_spec_def)
qed

lemma exit_contiguous: "contiguous exit_binary"
  by (simp add: contiguous_def exit_code less_Suc_eq all_conj_distrib)

lemma exit_compiles: "compiles (translated_program exit_binary default_options (new_ProfilingInfo True))"
  by (rule labels_defined)
    (use exit_contiguous in \<open>auto simp: exit_code li_decoded ecall_decoded branch_types_def recorded_targets_def new_ProfilingInfo_def\<close>)

lemma exit_entry: "getEntryAddress demo_lib exit_binary = 0x100"
  by (simp add: getEntryAddress_def demo_lib_def)

lemma exit_image: "image_ok exit_binary demo_aux"
proof -
  have "(4096 :: u64) \<in> set (map (\<lambda>p. 2 ^ p) [0..<20])" by (simp add: image_iff) (rule bexI [of _ 12], simp_all)
  then show ?thesis
    by (simp add: image_ok_def exit_code image_address_def demo_section_def new_ElfBinarySection_def resolveSectionType_def
        SHF_EXECINSTR_def SHF_ALLOC_def demo_aux_def aux_fits_def aux_bytes_def pointer_bytes_def guest_args_def string_bytes_def
        getSize_eq AT_PAGESZ_def)
qed

text \<open>The two instructions of the program that exits, from any start of its image.\<close>

lemma exit_run:
  assumes m: "pc m = 0x100" "\<forall>r. r \<notin> {REG_ra, REG_sp, REG_gp} \<longrightarrow> reg m r = 0" "profile m = None" "exitCallbacks m = []"
    "read_u32 (memory m) 0x100 = Some 0x05D00893" "read_u32 (memory m) 0x104 = Some 0x00000073"
  defines "m1 \<equiv> m\<lparr>pc := 0x104, reg := (reg m)(17 := 93, 0 := 0)\<rparr>"
  shows "runInstruction h m = Running m1" "runInstruction h m1 = Exited 0 m1"
    "follows exit_binary (memory m) m" "follows exit_binary (memory m) m1"
proof -
  have "supported_word 0x05D00893" "supported_word 0x73" by code_simp+
  then show f: "follows exit_binary (memory m) m" "follows exit_binary (memory m) m1"
    using m by (simp_all add: follows_def exit_code li_decoded ecall_decoded agreeing_def m1_def)
  have code: "read_u32 (memory m) (address inst) = Some (instruction inst)" if "inst \<in> set (decodeToContainer exit_binary)" for inst
    using that m by (auto simp: exit_code li_decoded ecall_decoded)
  have t: "translatable exit_binary m" "translatable exit_binary m1"
    using follows_translatable [OF exit_contiguous f(1) _ code] follows_translatable [OF exit_contiguous f(2) _ code] m
    by (simp_all add: m1_def)
  have "runInstruction h m = runInstructionPredecoded h m (decode 0x05D00893 0x100)"
    using runs_next_instruction(1) [OF exit_contiguous t(1), of 0 h] m(1) by (simp add: exit_code li_decoded)
  also have "\<dots> = Running m1"
    using m by (simp add: li_decoded runInstructionPredecoded_def predecoded_arms_def predecoded_groups finish_def set_reg_def
        m1_def)
  finally show "runInstruction h m = Running m1" .
  have "runInstruction h m1 = runInstructionPredecoded h m1 (decode 0x00000073 0x104)"
    using runs_next_instruction(1) [OF exit_contiguous t(2), of 1 h] by (simp add: exit_code ecall_decoded m1_def)
  also have "\<dots> = Exited 0 m1"
    using m by (simp add: ecall_decoded runInstructionPredecoded_def predecoded_arms_def predecoded_groups
        handle_def handle_num_def sys_exit_def m1_def)
  finally show "runInstruction h m1 = Exited 0 m1" .
qed

section \<open>Properties\<close>

text \<open>C15: The generated \<^verbatim>\<open>main\<close> prepares the machine the translated code expects.  If the sections of the binary are apart
  from each other and below the stack, no statement of it writes outside of the memory, and afterwards the program counter
  is the entry point, the stack pointer points to the arguments and the environment, every data
  section is at its load address, zero words included although no statement writes them, and every instruction is
  where the fallback interpreter will fetch it.\<close>

theorem generated_main_starts:
  assumes "image_ok bin aux"
  shows "\<exists>m mem0. loadAux new_Memory aux False = Some mem0 \<and> stack_layout new_Memory mem0 aux False
    \<and> generated_start lib bin aux w = Some m \<and> pc m = getEntryAddress lib bin \<and> reg m REG_sp = initialSP mem0
    \<and> (\<forall>r. r \<notin> {REG_ra, REG_sp, REG_gp} \<longrightarrow> reg m r = 0)
    \<and> machine_ok m \<and> profile m = None \<and> world m = w \<and> exitCallbacks m = []
    \<and> (\<forall>b n. unat (initialSP mem0) \<le> unat b \<longrightarrow> mem_read (memory m) b n = mem_read mem0 b n)
    \<and> list_all (loads_as (memory m)) (getTypeSections bin Data)
    \<and> (\<forall>inst\<in>set (decodeToContainer bin). read_u32 (memory m) (address inst) = Some (instruction inst))"
  by (rule generated_start_ok [OF assms])

theorem generated_main_starts_witness:
  "\<exists>m. generated_start demo_lib exit_binary demo_aux () = Some m \<and> pc m = 0x100 \<and> read_u32 (memory m) 0x104 = Some 0x73"
  using generated_main_starts [OF exit_image, of demo_lib "()"] exit_entry by (auto simp: exit_code ecall_decoded li_decoded)

text \<open>C1: A translated program exits as the guest does.  Take the program that the translator generates for a binary
  whose executable sections are adjacent and whose image fits, without timing of pinned registers, let every label it jumps to be
  defined, so that it compiles, start it with its own \<^verbatim>\<open>main\<close>, and suppose the guest, interpreted
  from the same machine, exits after \<open>n\<close> instructions of the binary that all engines agree on and that it has
  not overwritten.  Then the generated program terminates, with the same exit status and the same effects on the world.\<close>

theorem generated_program_exits:
  assumes "contiguous bin" and "compiles (translated_program bin opts info)" and "image_ok bin aux"
    and "timing_safe (translated_program bin opts info)"
    and "generated_start lib bin aux w = Some (ctx s)"
    and "\<And>k m. k < n \<Longrightarrow> iterate (runInstruction h) k (ctx s) = Running m \<Longrightarrow> follows bin (memory (ctx s)) m"
    and "iterate (runInstruction h) n (ctx s) = Exited e m"
  shows "\<exists>k t. iterate (tstep h (translated_program bin opts info)) k (start_translated (translated_program bin opts info) s) = Exited e t
    \<and> world (ctx (snd t)) = world m"
proof -
  have start: "reg (ctx s) REG_x0 = 0" "profile (ctx s) = None"
    "\<And>inst. inst \<in> set (decodeToContainer bin) \<Longrightarrow> read_u32 (memory (ctx s)) (address inst) = Some (instruction inst)"
    using generated_start_ok [OF assms(3), of lib w] assms(5) by (auto simp: machine_ok_def)
  have ok: "translatable bin m'" if run: "k < n" "iterate (runInstruction h) k (ctx s) = Running m'" for k m'
    by (rule follows_translatable [OF assms(1) assms(6) [OF run] _ start(3)])
      (use unprofiled_engine.iterate_inv_Running [OF start(2) run(2)] in simp_all)
  from matched_from_start [OF assms(1,2,4) start(1), THEN conjunct2, THEN spec, THEN spec, THEN mp, of n h e m, OF _ assms(7)]
  show ?thesis using ok by blast
qed

theorem generated_program_exits_witness:
  "\<exists>s k t. generated_start demo_lib exit_binary demo_aux ([] :: u8 list) = Some (ctx s) \<and>
     iterate (tstep recording_host (translated_program exit_binary default_options (new_ProfilingInfo True))) k
       (start_translated (translated_program exit_binary default_options (new_ProfilingInfo True)) s) = Exited 0 t"
proof -
  obtain m where m: "generated_start demo_lib exit_binary demo_aux ([] :: u8 list) = Some m" "pc m = 0x100"
    "\<forall>r. r \<notin> {REG_ra, REG_sp, REG_gp} \<longrightarrow> reg m r = 0" "profile m = None" "exitCallbacks m = []" "read_u32 (memory m) 0x100 = Some 0x05D00893" "read_u32 (memory m) 0x104 = Some 0x00000073"
    using generated_start_ok [OF exit_image, of demo_lib "[]"] exit_entry by (auto simp: exit_code ecall_decoded li_decoded)
  note run = exit_run [OF m(2-)]
  let ?s = "(demo_state (\<lambda>_. 0))\<lparr>ctx := m\<rparr>"
  have "iterate (runInstruction recording_host) 2 (ctx ?s) = Exited 0 (m\<lparr>pc := 0x104, reg := (reg m)(17 := 93, 0 := 0)\<rparr>)"
    using run(1,2) by (simp add: numeral_2_eq_2)
  moreover have "follows exit_binary (memory (ctx ?s)) m'" if "k < 2" "iterate (runInstruction recording_host) k (ctx ?s) = Running m'" for k m'
    using that run by (auto simp: less_2_cases_iff)
  ultimately have "\<exists>k t. iterate (tstep recording_host (translated_program exit_binary default_options (new_ProfilingInfo True))) k
       (start_translated (translated_program exit_binary default_options (new_ProfilingInfo True)) ?s) = Exited 0 t
     \<and> world (ctx (snd t)) = world (m\<lparr>pc := 0x104, reg := (reg m)(17 := 93, 0 := 0)\<rparr>)"
    by (intro generated_program_exits [OF exit_contiguous exit_compiles exit_image default_timing, of demo_lib "[]" ?s 2]) (use m(1) in simp_all)
  then show ?thesis using m(1) by (intro exI [of _ ?s]) auto
qed

text \<open>C38: Data among the code is lost.  A word of an executable section that is no instruction (a literal pool, a
  jump table) is recorded by the decoder without its value, and the generated \<^verbatim>\<open>main\<close> writes zero in its place.\<close>

theorem undecodable_word_lost:
  assumes "image_ok bin aux" and "sec \<in> set (getTypeSections bin Text)" and "k < length (sec_data sec)"
    and "itype (decode (sec_data sec ! k) (startAddress sec + of_nat (4 * k))) = I_INVALID"
  shows "\<exists>m. generated_start lib bin aux w = Some m \<and> read_u32 (memory m) (startAddress sec + of_nat (4 * k)) = Some 0"
proof -
  let ?inst = "decode (sec_data sec ! k) (startAddress sec + of_nat (4 * k))"
  have "?inst = decode_words (startAddress sec) (sec_data sec) ! k" using nth_decode_words [OF assms(3)] by simp
  then have "?inst \<in> set (decode_words (startAddress sec) (sec_data sec))" using assms(3) by (simp add: nth_mem)
  then have "?inst \<in> set (decodeToContainer bin)" using assms(2) by (auto simp: decodeToContainer_def)
  moreover have "instruction ?inst = 0" using decoded_word assms(4) by simp
  ultimately show ?thesis using generated_start_ok [OF assms(1), of lib w] by fastforce
qed

theorem undecodable_word_lost_witness:
  "\<exists>m. generated_start demo_lib literal_binary demo_aux () = Some m \<and> read_u32 (memory m) 0x104 = Some 0"
proof -
  let ?sec = "demo_section ''.text'' 0x100 [0x00000073, 0xFFFFFFFF] 6"
  have sec: "sections literal_binary = [?sec]" "?sec \<in> set (getTypeSections literal_binary Text)"
    by (simp_all add: literal_binary_def getTypeSections_def computeTextBounds_def new_ElfBinary_def demo_section_def
        new_ElfBinarySection_def resolveSectionType_def SHF_EXECINSTR_def)
  have "image_ok literal_binary demo_aux"
    using exit_image by (simp add: image_ok_def exit_code sec(1) demo_section_def new_ElfBinarySection_def image_address_def
        resolveSectionType_def SHF_EXECINSTR_def SHF_ALLOC_def)
  moreover have "itype (decode 0xFFFFFFFF 0x104) = I_INVALID" by code_simp
  ultimately show ?thesis
    using undecodable_word_lost [OF _ sec(2), of demo_aux 1 demo_lib "()"] by (simp add: demo_section_def new_ElfBinarySection_def)
qed

text \<open>C39: A gap between executable sections can break the build.  If the last instruction before a gap is a jump or a branch,
  the word after it becomes a leader, the dispatch table refers to its label, and no instruction defines the label: the
  generated program does not compile.\<close>

theorem gap_breaks_build:
  assumes "inst \<in> set (decodeToContainer bin)" and "itype inst \<in> branch_types \<union> {I_JAL, I_JALR}"
    and "address inst + 4 = getTextStartAddress bin + of_nat (4 * i)" and "i < unat (getTextWordCount bin)"
    and "address inst + 4 \<notin> address ` set (decodeToContainer bin)"
  shows "\<not> compiles (translated_program bin opts info)"
proof -
  have "address inst + 4 \<in> static_targets inst" using assms(2) by (auto simp: static_targets_def branch_types_def)
  then have lead: "address inst + 4 \<in> translation_leaders bin opts info"
    using static_targets_lead [OF assms(1)] harvest_keeps unfolding translation_leaders_def by blast
  have "table (translated_program bin opts info) ! i = SlotLabel (address inst + 4)"
    using lead assms(3,4) by (simp add: translated_program_def dispatch_slots_def nth_append mult.commute)
  moreover have "i < length (table (translated_program bin opts info))"
    using assms(4) by (simp add: translated_program_def dispatch_slots_def)
  ultimately have "SlotLabel (address inst + 4) \<in> set (table (translated_program bin opts info))" by (metis nth_mem)
  moreover have "Label (address inst + 4) \<notin> set (code (translated_program bin opts info))"
  proof
    assume "Label (address inst + 4) \<in> set (code (translated_program bin opts info))"
    then obtain k where "k < length (decodeToContainer bin)" "address (decodeToContainer bin ! k) = address inst + 4"
      by (rule defined_label)
    then show False using assms(5) nth_mem by (metis imageI)
  qed
  ultimately show ?thesis unfolding compiles_def by blast
qed

theorem gap_breaks_build_witness: "\<not> compiles (translated_program gap_binary default_options (new_ProfilingInfo True))"
proof -
  have code: "decodeToContainer gap_binary = [decode 0x00008067 0, decode 0x00000073 8]" "getTextStartAddress gap_binary = 0"
    "getTextWordCount gap_binary = 3"
    by (simp_all add: gap_binary_def decodeToContainer_def getTypeSections_def computeTextBounds_def new_ElfBinary_def demo_section_def
        new_ElfBinarySection_def getTextWordCount_def resolveSectionType_def SHF_EXECINSTR_def SHF_ALLOC_def getEndAddress_def getByteSize_def)
  have "itype (decode 0x00008067 0) = I_JALR" by code_simp
  then show ?thesis
    using gap_breaks_build [of "decode 0x00008067 0" gap_binary 1 default_options "new_ProfilingInfo True"] by (simp add: code)
qed

end
