(* ===== verification/Templates.thy ===== *)
theory Templates
  imports GeneratedProgram
begin

text \<open>
  The text the translator writes: filling templates terminates, so that the output is produced whenever
  the template files are there, and the dispatch table it declares fits the jumps that use it.
\<close>

section \<open>Filling templates\<close>

abbreviation percent :: char where "percent \<equiv> CHR ''%''"

text \<open>The template files, by name.\<close>

definition template_names :: "string list" where
  "template_names = [''output_prologue'', ''profiling_globals'', ''run_translated_open'', ''dispatch_table_close'',
     ''dispatch_loop_prologue'', ''indirect_profiling_check'', ''interpreter_fallback'', ''main_open'', ''no_startup_init'',
     ''main_close'']"

definition templates_present :: "templates \<Rightarrow> bool" where
  "templates_present tm \<longleftrightarrow> list_all (\<lambda>name. tm name \<noteq> None) template_names"

lemma replace_first_splits:
  "replace_first token value s = Some s' \<Longrightarrow> \<exists>before after. s = before @ token @ after \<and> s' = before @ value @ after"
proof (induction token "value" s arbitrary: s' rule: replace_first.induct)
  case (2 token "value" c cs)
  show ?case
  proof (cases "take (length token) (c # cs) = token")
    case True
    have "c # cs = token @ drop (length token) (c # cs)" using True by (metis append_take_drop_id)
    then show ?thesis using 2(2) True by (intro exI [of _ "[]"] exI [of _ "drop (length token) (c # cs)"]) simp
  next
    case False
    then obtain s1 where s1: "replace_first token value cs = Some s1" "s' = c # s1" using 2(2) by auto
    obtain before after where "cs = before @ token @ after" "s1 = before @ value @ after" using 2(1) [OF False s1(1)] by blast
    then show ?thesis using s1 by (intro exI [of _ "c # before"] exI [of _ after]) simp
  qed
qed (auto split: if_splits)

text \<open>A value without a percent sign leaves fewer of them behind, so that there is an end to the replacements.\<close>

lemma replace_all_ends:
  assumes "percent \<in> set token" "percent \<notin> set value" "count_list s percent \<le> fuel"
  shows "\<exists>s'. replace_all fuel token value s = Some s' \<and> replace_first token value s' = None"
  using assms(3)
proof (induction fuel arbitrary: s)
  case 0
  have "replace_first token value s = None"
  proof (rule ccontr)
    assume "replace_first token value s \<noteq> None"
    then obtain before after where "s = before @ token @ after" using replace_first_splits by blast
    then show False using 0 assms(1) by (simp add: count_list_0_iff)
  qed
  then show ?case by simp
next
  case (Suc fuel)
  show ?case
  proof (cases "replace_first token value s")
    case (Some s1)
    then obtain before after where "s = before @ token @ after" "s1 = before @ value @ after" using replace_first_splits by blast
    moreover have "0 < count_list token percent" using assms(1) count_list_0_iff by fastforce
    moreover have "count_list value percent = 0" using assms(2) by (simp add: count_list_0_iff)
    ultimately have "count_list s1 percent \<le> fuel" using Suc.prems by simp
    then show ?thesis using Suc.IH Some by simp
  qed simp
qed

lemma fillTemplate_ends:
  assumes "list_all (\<lambda>kv. percent \<notin> set (snd kv)) values"
  shows "\<exists>s. fillTemplate tmpl values = Some s"
  using assms
proof (induction tmpl "values" rule: fillTemplate.induct)
  case (2 tmpl key "value" "values")
  have "count_list tmpl percent \<le> length tmpl" by (rule count_le_length)
  then obtain s where "replace_all (length tmpl) (''%%'' @ key @ ''%%'') value tmpl = Some s"
    using replace_all_ends [of "''%%'' @ key @ ''%%''" "value" tmpl "length tmpl"] 2(2) by auto
  then show ?case using 2 by simp
qed simp

section \<open>Values\<close>

lemma lower_digit_percent: "d < 16 \<Longrightarrow> lower_digit d \<noteq> percent \<and> upper_digit d \<noteq> percent"
proof -
  have "list_all (\<lambda>c. c \<noteq> percent) ''0123456789abcdef'' \<and> list_all (\<lambda>c. c \<noteq> percent) ''0123456789ABCDEF''" by simp
  moreover assume "d < 16"
  ultimately show ?thesis unfolding lower_digit_def upper_digit_def list_all_length by simp
qed

lemma digits_percent:
  "percent \<notin> set (format_nat n)" "percent \<notin> set (format_HEX v)" "percent \<notin> set (hex_text v)"
proof -
  have d: "d < b \<Longrightarrow> b \<le> 16 \<Longrightarrow> lower_digit d \<noteq> percent \<and> upper_digit d \<noteq> percent" for d b :: nat
    using lower_digit_percent by simp
  show "percent \<notin> set (format_nat n)" "percent \<notin> set (format_HEX v)"
    using digits_less [of 10 _ n] digits_less [of 16 _ "unat v"] d by (fastforce simp: format_nat_def format_HEX_def)+
  then show "percent \<notin> set (hex_text v)" by (simp add: hex_text_def)
qed

lemma emitTemplate_ends: "templates_present tm \<Longrightarrow> name \<in> set template_names \<Longrightarrow> \<exists>s. emitTemplate tm n name = Some s"
  by (auto simp: templates_present_def list_all_iff emitTemplate_def)

lemma emitFilledTemplate_ends:
  assumes "templates_present tm" "name \<in> set template_names" "list_all (\<lambda>kv. percent \<notin> set (snd kv)) values"
  shows "\<exists>s. emitFilledTemplate tm n name values = Some s"
proof -
  obtain tmpl where "tm name = Some tmpl" using assms(1,2) by (auto simp: templates_present_def list_all_iff)
  then show ?thesis using fillTemplate_ends [OF assms(3)] by (auto simp: emitFilledTemplate_def)
qed

lemma pieces_ends: "list_all (\<lambda>p. \<exists>s. p = Some s) ps \<Longrightarrow> \<exists>s. pieces ps = Some s"
  by (induction ps rule: pieces.induct) auto

lemmas text_ends = emitTemplate_ends emitFilledTemplate_ends

lemma init_text_ends: "templates_present tm \<Longrightarrow> \<exists>s. init_text tm i = Some s"
  by (cases i) (auto intro!: text_ends simp: template_names_def digits_percent)

lemma parts_end:
  assumes "templates_present tm"
  shows "\<exists>s. emitPrologue tm em = Some s" "\<exists>s. emitDispatchTable tm bin lds em = Some s"
    "\<exists>s. emitDispatchLoopPrologue tm bin em = Some s" "\<exists>s. emitInterpreterFallback tm bin em = Some s"
    "\<exists>s. emitGeneratedMain tm lib bin insts = Some s"
  unfolding emitPrologue_def emitDispatchTable_def emitDispatchLoopPrologue_def emitInterpreterFallback_def emitGeneratedMain_def
  using assms init_text_ends [OF assms]
  by (auto intro!: pieces_ends text_ends simp: list_all_iff template_names_def digits_percent)

text \<open>The whole output is produced, whatever the binary and the options: the values are numbers, which contain no
  percent sign.\<close>

lemma translator_writes_output:
  assumes "templates_present tm"
  shows "\<exists>text. translation_text tm lib bin opts info = Some text"
  unfolding translation_text_def Let_def
  by (rule pieces_ends) (use parts_end [OF assms] in \<open>simp add: list_all_iff\<close>)

section \<open>Properties\<close>

text \<open>C32: A bare-metal guest can end under the translator.  The dispatch table is declared with as many entries as are
  emitted for it, the last of them being the one of the return address the generated \<^verbatim>\<open>main\<close> starts the guest with, and an indirect jump
  there leaves the program with the guest's \<^verbatim>\<open>a0\<close> as its status: through the dispatch loop, unless that takes times
  with pinned registers, and with \<^verbatim>\<open>--translation-chaining\<close> straight from the jump.\<close>

theorem baremetal_return_exits:
  fixes bin opts info
  defines "P \<equiv> translated_program bin opts info" and "em \<equiv> new_Emitter opts x86RegisterMap"
  assumes "represents (fst ` set (pinned P)) s m" and "pc m = getBaseRa bin"
    and "flow_ok (getTextStartAddress bin) fl a s m"
    and "fl = ToLoop \<and> timing_safe P \<or> fl = ToDispatch"
  shows "emitDispatchTable tm bin (translation_leaders bin opts info) em =
      pieces ([emitFilledTemplate tm (indent em) ''run_translated_open'' [(''TEXT_SIZE'', format_nat (length (table P)))]]
        @ map (\<lambda>sl. Some (indented (indent em) (slot_text sl))) (table P) @ [emitTemplate tm (indent em) ''dispatch_table_close''])
    \<and> (\<exists>n t. iterate (tstep h P) n (place_after P rest fl, s) = Exited (sint (reg m REG_a0)) t \<and> world (ctx (snd t)) = world m)"
proof -
  let ?n = "getTextWordCount bin"
  have "unat ?n < 2 ^ 30"
    using unsigned_less [of "getTextEndAddress bin - getTextStartAddress bin", where ?'a = nat] by (simp add: getTextWordCount_def unat_div)
  then have size: "length (table P) = unat (?n + 1)"
    by (simp add: P_def translated_program_def dispatch_slots_def unat_word_ariths)
  have tab: "table P = dispatch_slots ?n (getTextStartAddress bin) (translation_leaders bin opts info)" "text_base P = getTextStartAddress bin"
    by (simp_all add: P_def translated_program_def)
  have idx: "unat (dispatch_index P (getBaseRa bin)) = unat ?n" "table P ! unat ?n = SlotExit" "unat ?n < length (table P)"
    by (simp_all add: dispatch_index_def tab getBaseRa_def getTextWordCount_def dispatch_slots_def nth_append)
  have exit: "\<exists>t. table_step P s' = Exited (sint (reg m REG_a0)) t \<and> world (ctx (snd t)) = world m"
    if "represents (fst ` set (pinned P)) s' m" "pcDispatchIndex s' = dispatch_index P (getBaseRa bin)" for s'
  proof -
    have "guest_reg (fst ` set (pinned P)) s' REG_a0 = reg m REG_a0" "world (ctx s') = world m"
      using that(1) by (simp_all only: represents_def)
    then have "reg (ctx (store_registers (pinned P) s')) REG_a0 = reg m REG_a0" "world (ctx (store_registers (pinned P) s')) = world m"
      by (simp_all add: store_registers_def override_on_def guest_reg_def split: if_splits)
    then show ?thesis using idx that(2) by (simp add: table_step_def leave_def Let_def)
  qed
  have "\<exists>n t. iterate (tstep h P) n (place_after P rest fl, s) = Exited (sint (reg m REG_a0)) t \<and> world (ctx (snd t)) = world m"
    using assms(6)
  proof
    assume "fl = ToLoop \<and> timing_safe P"
    then show ?thesis
      using exit [of "loop_step P s"] loop_step_represents [of P s m] assms(3-5) by (intro exI [of _ 2]) (auto simp: numeral_2_eq_2)
  next
    assume "fl = ToDispatch"
    then show ?thesis
      using exit [of s] assms(3-5) by (intro exI [of _ 1]) (auto simp: dispatch_index_def tab)
  qed
  then show ?thesis by (simp add: emitDispatchTable_def size [symmetric] flip: tab(1))
qed

theorem baremetal_return_exits_witness:
  "\<exists>n t. iterate (tstep recording_host (translated_program loop_binary default_options (new_ProfilingInfo True))) n
     (LoopTop, demo_state ((\<lambda>_. 0)(REG_a0 := 7))\<lparr>ctx := (demo_guest ((\<lambda>_. 0)(REG_a0 := 7)))\<lparr>pc := getBaseRa loop_binary\<rparr>\<rparr>) = Exited 7 t"
proof -
  let ?regs = "(\<lambda>_. 0)(REG_a0 := 7 :: u32)"
  let ?m = "(demo_guest ?regs)\<lparr>pc := getBaseRa loop_binary\<rparr>"
  let ?s = "demo_state ?regs\<lparr>ctx := ?m\<rparr>"
  have "represents (fst ` set (pinned (translated_program loop_binary default_options (new_ProfilingInfo True)))) ?s ?m"
    using x0_not_pinned [of loop_binary default_options "new_ProfilingInfo True"]
    by (simp add: represents_def guest_reg_def demo_state_def demo_guest_def)
  from baremetal_return_exits [OF this, of ToLoop 0 "\<lambda>_. None" recording_host "[]"] show ?thesis
    by (auto simp: demo_guest_def default_timing)
qed

end
