(* ===== verification/ProfilingStore.thy ===== *)
theory ProfilingStore
  imports Profiling Text_Format
begin

text \<open>
  Storing profiles, \<^verbatim>\<open>ProfilingInfo::load\<close> and \<^verbatim>\<open>ProfilingInfo::save\<close>.  The JSON library is a parameter: the
  operations the code calls, and what it relies on (\<open>json_ok\<close>).  An exception of the library or
  of the code itself is \<open>None\<close>.
\<close>

section \<open>The JSON library\<close>

text \<open>
  \<open>'j\<close> are JSON values and \<open>'f\<close> file contents.  An object is built from its members by
  \<^verbatim>\<open>operator[]\<close> and read with \<^verbatim>\<open>items()\<close>, in an order the library chooses; \<open>j_get\<close> and \<open>j_get32\<close> are
  \<^verbatim>\<open>get<uint64_t>()\<close> and \<^verbatim>\<open>get<uint32_t>()\<close>.
\<close>

record ('f, 'j) json_lib =
  j_is_empty :: "'f \<Rightarrow> bool"
  j_parse :: "'f \<Rightarrow> 'j option"
  j_dump :: "'j \<Rightarrow> 'f"
  j_object :: "(string \<times> 'j) list \<Rightarrow> 'j"
  j_array :: "'j list \<Rightarrow> 'j"
  j_number :: "u64 \<Rightarrow> 'j"
  j_items :: "'j \<Rightarrow> (string \<times> 'j) list"
  j_is_array :: "'j \<Rightarrow> bool"
  j_elements :: "'j \<Rightarrow> 'j list"
  j_size :: "'j \<Rightarrow> nat"
  j_get :: "'j \<Rightarrow> u64 option"
  j_get32 :: "'j \<Rightarrow> u32 option"

definition json_ok :: "('f, 'j) json_lib \<Rightarrow> bool" where
  "json_ok lib \<longleftrightarrow>
     (\<forall>j. \<not> j_is_empty lib (j_dump lib j) \<and> j_parse lib (j_dump lib j) = Some j) \<and>
     (\<forall>kvs. distinct (map fst kvs) \<longrightarrow> set (j_items lib (j_object lib kvs)) = set kvs
        \<and> distinct (map fst (j_items lib (j_object lib kvs)))) \<and>
     (\<forall>kvs. \<not> j_is_array lib (j_object lib kvs)) \<and>
     (\<forall>xs. j_is_array lib (j_array lib xs) \<and> j_elements lib (j_array lib xs) = xs) \<and>
     (\<forall>n. j_get lib (j_number lib n) = Some n)"

section \<open>Names\<close>

definition InstructionNames :: "string list" where
  "InstructionNames =
    [''ADD'', ''SUB'', ''XOR'', ''OR'', ''AND'', ''SLL'', ''SRL'', ''SRA'', ''SLT'', ''SLTU'',
     ''ADDI'', ''XORI'', ''ORI'', ''ANDI'', ''SLLI'', ''SRLI'', ''SRAI'', ''SLTI'', ''SLTIU'',
     ''LB'', ''LH'', ''LW'', ''LBU'', ''LHU'', ''SB'', ''SH'', ''SW'',
     ''BEQ'', ''BNE'', ''BLT'', ''BGE'', ''BLTU'', ''BGEU'',
     ''JAL'', ''JALR'', ''LUI'', ''AUIPC'', ''ECALL'', ''EBREAK'', ''FENCE'',
     ''MUL'', ''MULH'', ''MULHSU'', ''MULHU'', ''DIV'', ''DIVU'', ''REM'', ''REMU'',
     ''LR_W'', ''SC_W'', ''INVALID'']"

text \<open>The types that have a counter; \<^verbatim>\<open>TYPE_COUNT\<close> is the number of counters.\<close>

definition counted_types :: "EInstruction list" where
  "counted_types = butlast EInstruction_values"

definition instructionName :: "EInstruction \<Rightarrow> string" where
  "instructionName t = InstructionNames ! toIndex t"

definition parseInstructionName :: "string \<Rightarrow> EInstruction option" where
  "parseInstructionName name =
     (let i = index_of name InstructionNames
      in if i < length InstructionNames then Some (EInstruction_values ! i) else None)"

section \<open>Loading\<close>

fun load_instruction_counts ::
  "('f, 'j) json_lib \<Rightarrow> (string \<times> 'j) list \<Rightarrow> (EInstruction \<Rightarrow> u64) \<Rightarrow> (EInstruction \<Rightarrow> u64) option" where
  "load_instruction_counts lib [] counts = Some counts"
| "load_instruction_counts lib ((name, c) # rest) counts =
     (case (parseInstructionName name, j_get lib c) of
        (Some t, Some n) \<Rightarrow> load_instruction_counts lib rest (counts(t := n))
      | _ \<Rightarrow> None)"

text \<open>The first 32 elements; indexing something that is not an array throws.\<close>

fun load_register_counts :: "('f, 'j) json_lib \<Rightarrow> u32 \<Rightarrow> 'j list \<Rightarrow> (u32 \<Rightarrow> u64) \<Rightarrow> (u32 \<Rightarrow> u64) option" where
  "load_register_counts lib r [] counts = Some counts"
| "load_register_counts lib r (c # rest) counts =
     (case j_get lib c of Some n \<Rightarrow> load_register_counts lib (r + 1) rest (counts(r := n)) | None \<Rightarrow> None)"

definition load_register_accesses :: "('f, 'j) json_lib \<Rightarrow> 'j \<Rightarrow> (u32 \<Rightarrow> u64) \<Rightarrow> (u32 \<Rightarrow> u64) option" where
  "load_register_accesses lib j counts =
     (if j_is_array lib j then load_register_counts lib 0 (take (unat RegisterCount) (j_elements lib j)) counts
      else if j_size lib j = 0 then Some counts else None)"

fun count_destinations :: "('f, 'j) json_lib \<Rightarrow> 'j list \<Rightarrow> BranchDestinations \<Rightarrow> BranchDestinations option" where
  "count_destinations lib [] ds = Some ds"
| "count_destinations lib (j # js) ds =
     (case j_get32 lib j of Some d \<Rightarrow> count_destinations lib js (assoc_update d 0 (\<lambda>c. c + 1) ds) | None \<Rightarrow> None)"

fun load_destinations :: "('f, 'j) json_lib \<Rightarrow> (string \<times> 'j) list \<Rightarrow> BranchDestinations \<Rightarrow> BranchDestinations option" where
  "load_destinations lib [] ds = Some ds"
| "load_destinations lib ((key, c) # rest) ds =
     (case (parseAddress key, j_get lib c) of
        (Some d, Some n) \<Rightarrow> load_destinations lib rest (assoc_update d 0 (\<lambda>_. n) ds)
      | _ \<Rightarrow> None)"

fun load_branches :: "('f, 'j) json_lib \<Rightarrow> (string \<times> 'j) list \<Rightarrow> IndirectBranchTargets \<Rightarrow> IndirectBranchTargets option" where
  "load_branches lib [] targets = Some targets"
| "load_branches lib ((key, dests) # rest) targets =
     (case parseAddress key of
        None \<Rightarrow> None
      | Some b \<Rightarrow>
          (let ds = (case map_of targets b of Some ds \<Rightarrow> ds | None \<Rightarrow> []) in
           case (if j_is_array lib dests then count_destinations lib (j_elements lib dests) ds
                 else load_destinations lib (j_items lib dests) ds) of
             None \<Rightarrow> None
           | Some ds' \<Rightarrow> load_branches lib rest (assoc_update b [] (\<lambda>_. ds') targets)))"

definition member :: "('f, 'j) json_lib \<Rightarrow> 'j \<Rightarrow> string \<Rightarrow> 's \<Rightarrow> ('j \<Rightarrow> 's \<Rightarrow> 's option) \<Rightarrow> 's option" where
  "member lib data key s f = (case map_of (j_items lib data) key of None \<Rightarrow> Some s | Some j \<Rightarrow> f j s)"

definition has_counts :: "ProfilingInfo \<Rightarrow> bool" where
  "has_counts p \<longleftrightarrow> indirectBranchTargets p \<noteq> [] \<or> list_ex (\<lambda>t. 0 < instructionCounts p t) counted_types
     \<or> list_ex (\<lambda>r. 0 < registerAccessCounts p (of_nat r)) [0..<32]"

definition load_profile :: "('f, 'j) json_lib \<Rightarrow> 'f \<Rightarrow> ProfilingInfo \<Rightarrow> ProfilingInfo option" where
  "load_profile lib content p =
     (let p0 = p\<lparr>instructionCounts := (\<lambda>_. 0), registerAccessCounts := (\<lambda>_. 0), indirectBranchTargets := [],
                 hasLoadedExistingData := False\<rparr> in
      if j_is_empty lib content then Some p0
      else case j_parse lib content of None \<Rightarrow> None | Some data \<Rightarrow>
        (case member lib data ''instruction_counts'' (\<lambda>_. 0) (\<lambda>j. load_instruction_counts lib (j_items lib j)) of
           None \<Rightarrow> None | Some ics \<Rightarrow>
        (case member lib data ''register_accesses'' (\<lambda>_. 0) (load_register_accesses lib) of
           None \<Rightarrow> None | Some rcs \<Rightarrow>
        (case member lib data ''indirect_branch_targets'' [] (\<lambda>j. load_branches lib (j_items lib j)) of
           None \<Rightarrow> None | Some targets \<Rightarrow>
           (let p1 = p0\<lparr>instructionCounts := ics, registerAccessCounts := rcs, indirectBranchTargets := targets\<rparr>
            in Some (p1\<lparr>hasLoadedExistingData := has_counts p1\<rparr>))))))"

section \<open>Saving\<close>

definition persisted :: "ProfilingInfo \<Rightarrow> u64 \<Rightarrow> u64" where
  "persisted p count = (if appendMode p \<and> hasLoadedExistingData p then count div 2 else count)"

definition counts_json :: "('f, 'j) json_lib \<Rightarrow> ProfilingInfo \<Rightarrow> 'j" where
  "counts_json lib p =
     j_object lib (map (\<lambda>t. (instructionName t, j_number lib (persisted p (instructionCounts p t))))
       (filter (\<lambda>t. persisted p (instructionCounts p t) \<noteq> 0) counted_types))"

definition destinations_json :: "('f, 'j) json_lib \<Rightarrow> BranchDestinations \<Rightarrow> 'j" where
  "destinations_json lib ds = j_object lib (map (\<lambda>(d, c). (formatAddress d, j_number lib c)) ds)"

definition branches_json :: "('f, 'j) json_lib \<Rightarrow> IndirectBranchTargets \<Rightarrow> 'j" where
  "branches_json lib targets = j_object lib (map (\<lambda>(b, ds). (formatAddress b, destinations_json lib ds)) targets)"

definition save_profile :: "('f, 'j) json_lib \<Rightarrow> ProfilingInfo \<Rightarrow> 'f" where
  "save_profile lib p =
     j_dump lib (j_object lib
       [(''instruction_counts'', counts_json lib p),
        (''register_accesses'', j_array lib (map (\<lambda>r. j_number lib (persisted p (registerAccessCounts p (of_nat r)))) [0..<32])),
        (''indirect_branch_targets'', branches_json lib (indirectBranchTargets p))])"

section \<open>Files\<close>

text \<open>The content of the opened file, an empty one if it had to be created; \<open>None\<close> if that fails.\<close>

definition openFile :: "'f \<Rightarrow> bool \<Rightarrow> 'f option \<Rightarrow> 'f option" where
  "openFile blank creatable disk =
     (case disk of Some content \<Rightarrow> Some content | None \<Rightarrow> if creatable then Some blank else None)"

definition open_profile :: "('f, 'j) json_lib \<Rightarrow> 'f \<Rightarrow> bool \<Rightarrow> 'f option \<Rightarrow> bool \<Rightarrow> ProfilingInfo option" where
  "open_profile lib blank creatable disk appendTo =
     (case openFile blank creatable disk of
        None \<Rightarrow> None
      | Some content \<Rightarrow>
          if appendTo then load_profile lib content (new_ProfilingInfo True) else Some (new_ProfilingInfo False))"

section \<open>What is stored\<close>

definition profile_ok :: "ProfilingInfo \<Rightarrow> bool" where
  "profile_ok p \<longleftrightarrow> distinct (map fst (indirectBranchTargets p))
     \<and> list_all (\<lambda>(b, ds). distinct (map fst ds)) (indirectBranchTargets p)"

definition branch_count :: "ProfilingInfo \<Rightarrow> u32 \<Rightarrow> u32 \<Rightarrow> u64 option" where
  "branch_count p b d = (case map_of (indirectBranchTargets p) b of None \<Rightarrow> None | Some ds \<Rightarrow> map_of ds d)"

text \<open>The same profile as far as lookups can tell, with instruction and register counts changed by \<open>f\<close>.\<close>

definition same_counts :: "(u64 \<Rightarrow> u64) \<Rightarrow> ProfilingInfo \<Rightarrow> ProfilingInfo \<Rightarrow> bool" where
  "same_counts f p p' \<longleftrightarrow>
     (\<forall>t\<in>set counted_types. instructionCounts p' t = f (instructionCounts p t)) \<and>
     (\<forall>r<32. registerAccessCounts p' r = f (registerAccessCounts p r)) \<and>
     (\<forall>b d. branch_count p' b d = branch_count p b d)"

text \<open>A library to try the code with: values are trees, and a file holds a tree or other text.\<close>

datatype json_tree = JNumber u64 | JArray "json_tree list" | JObject "(string \<times> json_tree) list"

definition tree_lib :: "(json_tree + string, json_tree) json_lib" where
  "tree_lib = \<lparr>j_is_empty = (\<lambda>f. f = Inr []), j_parse = (\<lambda>f. case f of Inl tree \<Rightarrow> Some tree | Inr _ \<Rightarrow> None), j_dump = Inl, j_object = JObject, j_array = JArray, j_number = JNumber,
     j_items = (\<lambda>j. case j of JObject kvs \<Rightarrow> kvs | _ \<Rightarrow> []), j_is_array = (\<lambda>j. case j of JArray _ \<Rightarrow> True | _ \<Rightarrow> False),
     j_elements = (\<lambda>j. case j of JArray js \<Rightarrow> js | _ \<Rightarrow> []),
     j_size = (\<lambda>j. case j of JNumber _ \<Rightarrow> 1 | JArray js \<Rightarrow> length js | JObject kvs \<Rightarrow> length kvs),
     j_get = (\<lambda>j. case j of JNumber n \<Rightarrow> Some n | _ \<Rightarrow> None), j_get32 = (\<lambda>j. case j of JNumber n \<Rightarrow> Some (ucast n) | _ \<Rightarrow> None)\<rparr>"

definition demo_profile :: ProfilingInfo where
  "demo_profile = recordIndirectBranch 0x100 0x200 (incrementInstructionCount I_ADDI (new_ProfilingInfo False))"

section \<open>Association lists\<close>

lemma map_of_assoc_update:
  "map_of (assoc_update k dflt f xs) = (map_of xs)(k \<mapsto> f (case map_of xs k of Some v \<Rightarrow> v | None \<Rightarrow> dflt))"
  by (induction xs) (auto simp: fun_eq_iff)

lemma fst_assoc_update: "fst ` set (assoc_update k dflt f xs) = insert k (fst ` set xs)"
  by (induction k dflt f xs rule: assoc_update.induct) (simp_all add: insert_commute)

lemma distinct_assoc_update: "distinct (map fst xs) \<Longrightarrow> distinct (map fst (assoc_update k dflt f xs))"
proof (induction xs)
  case (Cons x xs)
  then show ?case using fst_assoc_update [of k dflt f xs] by (cases x) (auto simp flip: set_map)
qed simp

lemma assoc_update_entry:
  "(k', v) \<in> set (assoc_update k dflt f xs) \<Longrightarrow> v \<in> insert (f dflt) (snd ` set xs \<union> f ` snd ` set xs)"
  by (induction k dflt f xs rule: assoc_update.induct) (auto split: if_splits intro: rev_image_eqI)

section \<open>Recording\<close>

lemma recordIndirectBranch_ok:
  assumes "profile_ok p"
  shows "profile_ok (recordIndirectBranch b d p)"
proof -
  let ?f = "assoc_update d (0 :: u64) (\<lambda>c. c + 1)"
  have "distinct (map fst ds')" if "(b', ds') \<in> set (assoc_update b [] ?f (indirectBranchTargets p))" for b' ds'
    using assoc_update_entry [OF that] assms distinct_assoc_update [of _ d 0 "\<lambda>c. c + 1"]
    by (fastforce simp: profile_ok_def list_all_iff)
  then show ?thesis
    using assms distinct_assoc_update by (auto simp: profile_ok_def recordIndirectBranch_def list_all_iff)
qed

section \<open>Names\<close>

lemma names_distinct: "distinct InstructionNames"
  by (simp add: InstructionNames_def)

lemma counted_types_iff: "t \<in> set counted_types \<longleftrightarrow> t \<noteq> I_TYPE_COUNT"
  by (cases t) (simp_all add: counted_types_def EInstruction_values_def)

lemma counted_index: "t \<noteq> I_TYPE_COUNT \<Longrightarrow> toIndex t < length InstructionNames"
  by (cases t) (simp_all add: toIndex_def EInstruction_values_def InstructionNames_def)

lemma parse_instructionName: "t \<noteq> I_TYPE_COUNT \<Longrightarrow> parseInstructionName (instructionName t) = Some t"
  using counted_index [of t] index_of_nth [OF names_distinct] nth_toIndex [of t]
  by (simp add: parseInstructionName_def instructionName_def Let_def)

lemma instructionName_inj: "inj_on instructionName (set counted_types)"
  by (rule inj_onI) (metis counted_types_iff option.inject parse_instructionName)

section \<open>Reading objects back\<close>

lemma json_okD:
  assumes "json_ok lib"
  shows "\<not> j_is_empty lib (j_dump lib j)" "j_parse lib (j_dump lib j) = Some j" "\<not> j_is_array lib (j_object lib kvs)"
    "j_is_array lib (j_array lib xs)" "j_elements lib (j_array lib xs) = xs" "j_get lib (j_number lib n) = Some n"
  using assms by (simp_all add: json_ok_def)

lemma read_members:
  assumes "json_ok lib" "distinct (map fst kvs)"
  shows "map_of (j_items lib (j_object lib kvs)) = map_of kvs"
  using assms map_of_inject_set [of "j_items lib (j_object lib kvs)" kvs] by (auto simp: json_ok_def)

lemma read_entries:
  assumes ok: "json_ok lib" and d: "distinct (map (fst \<circ> enc) xs)"
  obtains ys where "j_items lib (j_object lib (map enc xs)) = map enc ys" "set ys = set xs" "distinct (map (fst \<circ> enc) ys)"
proof -
  let ?items = "j_items lib (j_object lib (map enc xs))" and ?dec = "inv_into (set xs) enc"
  have "distinct (map fst (map enc xs))" using d by simp
  then have items: "set ?items = enc ` set xs" "distinct (map fst ?items)" using ok by (simp_all add: json_ok_def)
  have inj: "inj_on enc (set xs)" using d by (auto simp: distinct_map comp_def intro: inj_on_imageI2)
  have dec: "map enc (map ?dec ?items) = ?items"
    unfolding map_map by (rule map_idI) (simp add: items(1) f_inv_into_f)
  show thesis
  proof (rule that [of "map ?dec ?items"])
    show "?items = map enc (map ?dec ?items)" by (rule dec [symmetric])
    show "set (map ?dec ?items) = set xs" using inj by (simp add: items(1) image_image)
    show "distinct (map (fst \<circ> enc) (map ?dec ?items))" using items(2) dec by (metis map_map)
  qed
qed

section \<open>Loading what was saved\<close>

lemma load_instruction_entries:
  assumes "json_ok lib" "set ts \<subseteq> set counted_types"
  shows "load_instruction_counts lib (map (\<lambda>t. (instructionName t, j_number lib (f t))) ts) counts
    = Some (override_on counts f (set ts))"
  using assms(2)
proof (induction ts arbitrary: counts)
  case (Cons t ts)
  have "override_on (counts(t := f t)) f (set ts) = override_on counts f (set (t # ts))"
    by (auto simp: override_on_def fun_eq_iff)
  then show ?case
    using Cons parse_instructionName [of t] by (simp add: json_okD [OF assms(1)] counted_types_iff)
qed simp

lemma load_register_entries:
  assumes "json_ok lib" "unat r + length rs < 2 ^ 32"
  shows "load_register_counts lib r (map (j_number lib) rs) counts
    = Some (\<lambda>i. if unat r \<le> unat i \<and> unat i < unat r + length rs then rs ! (unat i - unat r) else counts i)"
  using assms(2)
proof (induction rs arbitrary: r counts)
  case (Cons c rs)
  have r: "unat (r + 1) = unat r + 1" using Cons.prems by (simp add: unat_word_ariths)
  have "(if unat (r + 1) \<le> unat i \<and> unat i < unat (r + 1) + length rs then rs ! (unat i - unat (r + 1)) else (counts(r := c)) i)
      = (if unat r \<le> unat i \<and> unat i < unat r + length (c # rs) then (c # rs) ! (unat i - unat r) else counts i)" for i
    by (cases "i = r") (auto simp: r nth_Cons' word_unat_eq_iff)
  then show ?case using Cons.IH [of "r + 1"] Cons.prems r by (simp add: json_okD [OF assms(1)])
qed (auto simp: fun_eq_iff)

lemma load_destination_entries:
  assumes "json_ok lib" "distinct (map fst ds0)"
  shows "\<exists>ds'. load_destinations lib (map (\<lambda>(d, c). (formatAddress d, j_number lib c)) ds0) ds = Some ds'
    \<and> map_of ds' = map_of ds ++ map_of ds0"
  using assms(2)
proof (induction ds0 arbitrary: ds)
  case (Cons x ds0)
  obtain d c where x: "x = (d, c)" by fastforce
  obtain ds' where ds': "load_destinations lib (map (\<lambda>(d, c). (formatAddress d, j_number lib c)) ds0) (assoc_update d 0 (\<lambda>_. c) ds) = Some ds'"
    "map_of ds' = map_of (assoc_update d 0 (\<lambda>_. c) ds) ++ map_of ds0"
    using Cons by fastforce
  have "d \<notin> dom (map_of ds0)" using Cons.prems x by (simp add: dom_map_of_conv_image_fst)
  then have eq: "(map_of ds)(d \<mapsto> c) ++ map_of ds0 = map_of ds ++ map_of (x # ds0)" using x by (simp add: map_add_upd_left)
  have run: "load_destinations lib (map (\<lambda>(d, c). (formatAddress d, j_number lib c)) (x # ds0)) ds = Some ds'"
    using ds'(1) x by (simp add: json_okD [OF assms(1)] parse_formatAddress)
  show ?case by (rule exI, rule conjI [OF run trans [OF ds'(2) [unfolded map_of_assoc_update] eq]])
qed simp

lemma load_saved_destinations:
  assumes "json_ok lib" "distinct (map fst ds)"
  shows "\<exists>ds'. load_destinations lib (j_items lib (destinations_json lib ds)) [] = Some ds' \<and> map_of ds' = map_of ds"
proof -
  let ?enc = "\<lambda>(d, c). (formatAddress d, j_number lib c)"
  have "distinct (map (fst \<circ> ?enc) ds)"
    using assms(2) by (auto simp: distinct_map inj_on_def formatAddress_inject comp_def split_def)
  then obtain ys where ys: "j_items lib (j_object lib (map ?enc ds)) = map ?enc ys" "set ys = set ds" "distinct (map (fst \<circ> ?enc) ys)"
    by (rule read_entries [OF assms(1)])
  have d: "distinct (map fst ys)"
    using ys(3) by (auto simp: distinct_map inj_on_def comp_def split_def)
  then have "map_of ys = map_of ds" using ys(2) assms(2) map_of_inject_set by blast
  then show ?thesis using load_destination_entries [OF assms(1) d, of "[]"] by (simp add: destinations_json_def ys(1))
qed

lemma load_branch_entries:
  assumes "json_ok lib" "distinct (map fst bs)" "list_all (\<lambda>(b, ds). distinct (map fst ds)) bs" "fst ` set ts \<inter> fst ` set bs = {}"
  shows "\<exists>ts'. load_branches lib (map (\<lambda>(b, ds). (formatAddress b, destinations_json lib ds)) bs) ts = Some ts'
    \<and> (\<forall>b. map_option map_of (map_of ts' b) = map_option map_of ((map_of ts ++ map_of bs) b))"
  using assms(2-)
proof (induction bs arbitrary: ts)
  case (Cons x bs)
  obtain b ds where x: "x = (b, ds)" by fastforce
  obtain ds' where ds': "load_destinations lib (j_items lib (destinations_json lib ds)) [] = Some ds'" "map_of ds' = map_of ds"
    using load_saved_destinations [OF assms(1), of ds] Cons.prems x by auto
  let ?ts = "assoc_update b [] (\<lambda>_. ds') ts"
  obtain ts' where ts': "load_branches lib (map (\<lambda>(b, ds). (formatAddress b, destinations_json lib ds)) bs) ?ts = Some ts'"
    "\<forall>b. map_option map_of (map_of ts' b) = map_option map_of ((map_of ?ts ++ map_of bs) b)"
    using Cons.IH [of ?ts] Cons.prems x fst_assoc_update [of b "[]" "\<lambda>_. ds'" ts] by auto
  have new: "map_of ts b = None" using Cons.prems(3) x by (simp add: map_of_eq_None_iff)
  have b: "map_of bs b = None" using Cons.prems(1) x by (simp add: map_of_eq_None_iff)
  have "map_option map_of ((map_of ?ts ++ map_of bs) c) = map_option map_of ((map_of ts ++ map_of (x # bs)) c)" for c
    using x ds'(2) b by (auto simp: map_of_assoc_update map_add_def split: option.splits)
  then have eq: "\<forall>c. map_option map_of (map_of ts' c) = map_option map_of ((map_of ts ++ map_of (x # bs)) c)"
    using ts'(2) by metis
  have run: "load_branches lib (map (\<lambda>(b, ds). (formatAddress b, destinations_json lib ds)) (x # bs)) ts = Some ts'"
    using x ds'(1) ts'(1) new by (simp add: parse_formatAddress destinations_json_def json_okD [OF assms(1)] Let_def)
  show ?case by (rule exI, rule conjI [OF run eq])
qed simp

lemma load_saved_branches:
  assumes "json_ok lib" "profile_ok p"
  shows "\<exists>ts'. load_branches lib (j_items lib (branches_json lib (indirectBranchTargets p))) [] = Some ts'
    \<and> (\<forall>b. map_option map_of (map_of ts' b) = map_option map_of (map_of (indirectBranchTargets p) b))"
proof -
  let ?enc = "\<lambda>(b, ds). (formatAddress b, destinations_json lib ds)" and ?bs = "indirectBranchTargets p"
  have p: "distinct (map fst ?bs)" "list_all (\<lambda>(b, ds). distinct (map fst ds)) ?bs" using assms(2) by (simp_all add: profile_ok_def)
  have "distinct (map (fst \<circ> ?enc) ?bs)"
    using p(1) by (auto simp: distinct_map inj_on_def formatAddress_inject comp_def split_def)
  then obtain ys where ys: "j_items lib (j_object lib (map ?enc ?bs)) = map ?enc ys" "set ys = set ?bs" "distinct (map (fst \<circ> ?enc) ys)"
    by (rule read_entries [OF assms(1)])
  have d: "distinct (map fst ys)" using ys(3) by (auto simp: distinct_map inj_on_def comp_def split_def)
  then have "map_of ys = map_of ?bs" using ys(2) p(1) map_of_inject_set by blast
  moreover have "list_all (\<lambda>(b, ds). distinct (map fst ds)) ys" using p(2) ys(2) by (simp add: list_all_iff)
  ultimately show ?thesis using load_branch_entries [OF assms(1) d, of "[]"] by (simp add: branches_json_def ys(1))
qed

lemma load_saved_counts:
  assumes "json_ok lib"
  shows "load_instruction_counts lib (j_items lib (counts_json lib p)) (\<lambda>_. 0) =
    Some (\<lambda>t. if t = I_TYPE_COUNT then 0 else persisted p (instructionCounts p t))"
proof -
  let ?f = "\<lambda>t. persisted p (instructionCounts p t)"
  let ?enc = "\<lambda>t. (instructionName t, j_number lib (?f t))" and ?ts = "filter (\<lambda>t. ?f t \<noteq> 0) counted_types"
  have "distinct counted_types" by (simp add: counted_types_def EInstruction_values_def)
  then have "distinct (map (fst \<circ> ?enc) ?ts)"
    using instructionName_inj by (auto simp: distinct_map comp_def intro: inj_on_subset)
  then obtain ys where ys: "j_items lib (j_object lib (map ?enc ?ts)) = map ?enc ys" "set ys = set ?ts"
    by (rule read_entries [OF assms])
  have "set ys \<subseteq> set counted_types" using ys(2) by auto
  from load_instruction_entries [OF assms this, of ?f "\<lambda>_. 0"] show ?thesis
    unfolding counts_json_def ys(1) by (auto simp: ys(2) override_on_def counted_types_iff fun_eq_iff)
qed

lemma load_saved_registers:
  assumes "json_ok lib"
  shows "\<exists>rcs. load_register_accesses lib (j_array lib (map (\<lambda>r. j_number lib (persisted p (registerAccessCounts p (of_nat r)))) [0..<32])) (\<lambda>_. 0)
    = Some rcs \<and> (\<forall>r<32. rcs r = persisted p (registerAccessCounts p r))"
proof -
  let ?rs = "map (\<lambda>r. persisted p (registerAccessCounts p (of_nat r))) [0..<32]"
  have "map (\<lambda>r. j_number lib (persisted p (registerAccessCounts p (of_nat r)))) [0..<32] = map (j_number lib) ?rs" by simp
  moreover have "?rs ! unat r = persisted p (registerAccessCounts p r)" if "r < 32" for r :: u32
    using that by (simp add: word_less_nat_alt)
  ultimately show ?thesis
    using load_register_entries [OF assms, of 0 ?rs "\<lambda>_. 0"]
    by (auto simp: load_register_accesses_def json_okD [OF assms] RegisterCount_def word_less_nat_alt simp del: map_map)
qed

lemma load_saved:
  assumes "json_ok lib" "profile_ok p"
  shows "\<exists>p'. load_profile lib (save_profile lib p) q = Some p' \<and> same_counts (persisted p) p p'
    \<and> appendMode p' = appendMode q \<and> hasLoadedExistingData p' = has_counts p'"
proof -
  let ?data = "[(''instruction_counts'', counts_json lib p),
        (''register_accesses'', j_array lib (map (\<lambda>r. j_number lib (persisted p (registerAccessCounts p (of_nat r)))) [0..<32])),
        (''indirect_branch_targets'', branches_json lib (indirectBranchTargets p))]"
  have items: "map_of (j_items lib (j_object lib ?data)) = map_of ?data" by (rule read_members [OF assms(1)]) simp
  obtain rcs where r: "load_register_accesses lib (snd (?data ! 1)) (\<lambda>_. 0) = Some rcs" "\<forall>r<32. rcs r = persisted p (registerAccessCounts p r)"
    using load_saved_registers [OF assms(1), of p] by auto
  obtain ts where t: "load_branches lib (j_items lib (branches_json lib (indirectBranchTargets p))) [] = Some ts"
    "\<forall>b. map_option map_of (map_of ts b) = map_option map_of (map_of (indirectBranchTargets p) b)"
    using load_saved_branches [OF assms] by blast
  define p1 where "p1 = q\<lparr>instructionCounts := (\<lambda>t. if t = I_TYPE_COUNT then 0 else persisted p (instructionCounts p t)),
    registerAccessCounts := rcs, indirectBranchTargets := ts, hasLoadedExistingData := False\<rparr>"
  have "load_profile lib (save_profile lib p) q = Some (p1\<lparr>hasLoadedExistingData := has_counts p1\<rparr>)"
    using r(1) t(1) load_saved_counts [OF assms(1), of p]
    by (simp add: load_profile_def save_profile_def json_okD [OF assms(1)] member_def items Let_def p1_def has_counts_def)
  moreover have "branch_count p1 b d = branch_count p b d" for b d
    using t(2) [rule_format, of b]
    by (cases "map_of ts b"; cases "map_of (indirectBranchTargets p) b") (simp_all add: branch_count_def p1_def)
  then have "same_counts (persisted p) p (p1\<lparr>hasLoadedExistingData := has_counts p1\<rparr>)"
    using r(2) by (simp add: same_counts_def p1_def counted_types_iff branch_count_def)
  ultimately show ?thesis by (simp add: p1_def has_counts_def)
qed

lemma loaded_destinations_distinct:
  "load_destinations lib items ds = Some ds' \<Longrightarrow> distinct (map fst ds) \<Longrightarrow> distinct (map fst ds')"
  "count_destinations lib js ds = Some ds' \<Longrightarrow> distinct (map fst ds) \<Longrightarrow> distinct (map fst ds')"
  subgoal by (induction lib items ds rule: load_destinations.induct) (auto split: option.splits dest: distinct_assoc_update)
  subgoal by (induction lib js ds rule: count_destinations.induct) (auto split: option.splits dest: distinct_assoc_update)
  done

lemma loaded_branches_distinct:
  assumes "load_branches lib items ts = Some ts'" "distinct (map fst ts)" "\<forall>ds\<in>snd ` set ts. distinct (map fst ds)"
  shows "distinct (map fst ts') \<and> (\<forall>ds\<in>snd ` set ts'. distinct (map fst ds))"
  using assms
proof (induction lib items ts rule: load_branches.induct)
  case (2 lib key dests rest ts)
  obtain b where b: "parseAddress key = Some b" using 2(2) by (auto split: option.splits)
  let ?ds = "case map_of ts b of Some ds \<Rightarrow> ds | None \<Rightarrow> []"
  obtain ds' where ds': "(if j_is_array lib dests then count_destinations lib (j_elements lib dests) ?ds
      else load_destinations lib (j_items lib dests) ?ds) = Some ds'"
    using 2(2) b by (auto simp: Let_def split: option.splits)
  have "distinct (map fst ?ds)" using 2(4) by (auto split: option.splits dest!: map_of_SomeD)
  then have d: "distinct (map fst ds')" using ds' loaded_destinations_distinct by (metis (no_types, lifting))
  let ?ts = "assoc_update b [] (\<lambda>_. ds') ts"
  have "load_branches lib rest ?ts = Some ts'" using 2(2) b ds' by (simp add: Let_def)
  moreover have "\<forall>ds\<in>snd ` set ?ts. distinct (map fst ds)"
    using 2(4) d by (auto dest!: assoc_update_entry)
  ultimately show ?case using 2(1) [OF b refl ds'] distinct_assoc_update [OF 2(3)] by blast
qed simp

lemma loaded_profile_ok:
  assumes "load_profile lib content q = Some p"
  shows "profile_ok p"
proof -
  have "distinct (map fst ts) \<and> (\<forall>ds\<in>snd ` set ts. distinct (map fst ds))"
    if "member lib data key [] (\<lambda>j. load_branches lib (j_items lib j)) = Some ts" for data key ts
    using that loaded_branches_distinct by (fastforce simp: member_def split: option.splits)
  then show ?thesis
    using assms by (fastforce simp: load_profile_def profile_ok_def list_all_iff Let_def split: option.splits if_splits)
qed

lemma branch_count_record:
  "branch_count (recordIndirectBranch b d p) b' d' =
     (if b' = b \<and> d' = d then Some ((case branch_count p b d of Some c \<Rightarrow> c | None \<Rightarrow> 0) + 1) else branch_count p b' d')"
  by (auto simp: branch_count_def recordIndirectBranch_def map_of_assoc_update split: option.splits)

lemma tree_lib_ok: "json_ok tree_lib"
  by (simp add: json_ok_def tree_lib_def)

lemma demo_profile_ok: "profile_ok demo_profile"
  by (simp add: demo_profile_def profile_ok_def recordIndirectBranch_def incrementInstructionCount_def new_ProfilingInfo_def)

section \<open>Properties\<close>

text \<open>C30: Recording counts exactly: after any sequence of indirect branches, the profile holds for every branch and destination
  how often that pair occurred (modulo the 64 bits of the counter), nothing for pairs that did not
  occur, and each branch and each of its destinations once.\<close>

theorem recorded_branches_counted:
  "profile_ok (fold (\<lambda>(b, d). recordIndirectBranch b d) bs (new_ProfilingInfo a)) \<and>
   branch_count (fold (\<lambda>(b, d). recordIndirectBranch b d) bs (new_ProfilingInfo a)) b d =
     (if (b, d) \<in> set bs then Some (of_nat (count_list bs (b, d))) else None)"
proof (induction bs rule: rev_induct)
  case Nil
  show ?case by (simp add: profile_ok_def branch_count_def new_ProfilingInfo_def)
next
  case (snoc x bs)
  obtain b' d' where x: "x = (b', d')" by fastforce
  have none: "(b, d) \<notin> set bs \<Longrightarrow> count_list bs (b, d) = 0" by simp
  show ?case
  proof (cases "x = (b, d)")
    case True
    then show ?thesis using snoc none
      by (cases "(b, d) \<in> set bs") (simp_all add: recordIndirectBranch_ok branch_count_record add.commute)
  next
    case False
    then show ?thesis using snoc x by (auto simp: recordIndirectBranch_ok branch_count_record)
  qed
qed

text \<open>C29: Profiles survive being stored: what \<^verbatim>\<open>save\<close> writes, \<^verbatim>\<open>load\<close> accepts, and all counts come back, of every
  instruction, register and pair of branch and destination, except that a profile which
  had already been loaded in append mode comes back with its instruction and register counts halved.\<close>

theorem profile_roundtrip:
  assumes "json_ok lib" and "profile_ok p"
  shows "\<exists>p'. load_profile lib (save_profile lib p) q = Some p' \<and> profile_ok p' \<and> same_counts (persisted p) p p'"
proof -
  obtain p' where "load_profile lib (save_profile lib p) q = Some p'" "same_counts (persisted p) p p'"
    using load_saved [OF assms, of q] by (elim exE conjE)
  then show ?thesis using loaded_profile_ok by (intro exI conjI)
qed

theorem profile_roundtrip_witness:
  "\<exists>p'. load_profile tree_lib (save_profile tree_lib demo_profile) (new_ProfilingInfo True) = Some p'
     \<and> same_counts (persisted demo_profile) demo_profile p' \<and> instructionCounts demo_profile I_ADDI = 1"
proof -
  have "instructionCounts demo_profile I_ADDI = 1"
    by (simp add: demo_profile_def recordIndirectBranch_def incrementInstructionCount_def new_ProfilingInfo_def)
  then show ?thesis using profile_roundtrip [OF tree_lib_ok demo_profile_ok, of "new_ProfilingInfo True"] by blast
qed

text \<open>C40: Reading a profile destroys it by and by.  The translator opens the profile in append mode and records nothing;
  when it ends, the profile is written back.  If there was anything in it, all instruction and
  register counts are halved by that, while the counts of branches stay.\<close>

theorem translator_halves_profile:
  assumes "json_ok lib" and "profile_ok p" and "\<not> appendMode p"
  shows "\<exists>p1. open_profile lib blank creatable (Some (save_profile lib p)) True = Some p1 \<and> same_counts (\<lambda>c. c) p p1 \<and>
    (has_counts p1 \<longrightarrow> (\<exists>p2. load_profile lib (save_profile lib p1) q = Some p2 \<and> same_counts (\<lambda>c. c div 2) p p2))"
proof -
  have keep: "persisted p = (\<lambda>c. c)" using assms(3) by (simp add: persisted_def fun_eq_iff)
  obtain p1 where p1: "load_profile lib (save_profile lib p) (new_ProfilingInfo True) = Some p1" "same_counts (\<lambda>c. c) p p1"
    "appendMode p1" "hasLoadedExistingData p1 = has_counts p1"
    using load_saved [OF assms(1,2), of "new_ProfilingInfo True"] by (auto simp: keep new_ProfilingInfo_def)
  have "\<exists>p2. load_profile lib (save_profile lib p1) q = Some p2 \<and> same_counts (\<lambda>c. c div 2) p p2" if "has_counts p1"
  proof -
    have half: "persisted p1 = (\<lambda>c. c div 2)" using p1(3,4) that by (simp add: persisted_def fun_eq_iff)
    obtain p2 where "load_profile lib (save_profile lib p1) q = Some p2" "same_counts (\<lambda>c. c div 2) p1 p2"
      using load_saved [OF assms(1) loaded_profile_ok [OF p1(1)], of q] by (auto simp: half)
    then show ?thesis using p1(2) by (auto simp: same_counts_def)
  qed
  then show ?thesis using p1 by (auto simp: open_profile_def openFile_def)
qed

theorem translator_halves_profile_witness:
  "\<exists>p1 p2. open_profile tree_lib (Inr []) True (Some (save_profile tree_lib demo_profile)) True = Some p1
     \<and> instructionCounts p1 I_ADDI = 1 \<and> load_profile tree_lib (save_profile tree_lib p1) (new_ProfilingInfo True) = Some p2
     \<and> instructionCounts p2 I_ADDI = 0 \<and> branch_count p2 0x100 0x200 = Some 1"
proof -
  have d: "\<not> appendMode demo_profile" "instructionCounts demo_profile I_ADDI = 1" "branch_count demo_profile 0x100 0x200 = Some 1"
    by (simp_all add: demo_profile_def recordIndirectBranch_def incrementInstructionCount_def new_ProfilingInfo_def branch_count_def)
  obtain p1 where p1: "open_profile tree_lib (Inr []) True (Some (save_profile tree_lib demo_profile)) True = Some p1" "same_counts (\<lambda>c. c) demo_profile p1"
    "has_counts p1 \<longrightarrow> (\<exists>p2. load_profile tree_lib (save_profile tree_lib p1) (new_ProfilingInfo True) = Some p2 \<and> same_counts (\<lambda>c. c div 2) demo_profile p2)"
    using translator_halves_profile [OF tree_lib_ok demo_profile_ok d(1), of "Inr []" True "new_ProfilingInfo True"] by blast
  have addi: "I_ADDI \<in> set counted_types" by code_simp
  then have one: "instructionCounts p1 I_ADDI = 1" using p1(2) d(2) by (simp add: same_counts_def)
  then have "\<exists>t\<in>set counted_types. 0 < instructionCounts p1 t" using addi by (intro bexI [of _ I_ADDI]) simp_all
  then have "has_counts p1" by (simp add: has_counts_def list_ex_iff)
  then obtain p2 where "load_profile tree_lib (save_profile tree_lib p1) (new_ProfilingInfo True) = Some p2" "same_counts (\<lambda>c. c div 2) demo_profile p2"
    using p1(3) by blast
  then show ?thesis using p1(1) one addi d by (auto simp: same_counts_def)
qed

end
