(* ===== verification/Programs.thy ===== *)
theory Programs
  imports GeneratedMain Templates ProfilingStore
begin

text \<open>
  The emulator and the translator as processes: the files they open, read and write from their start to their end,
  with \<^verbatim>\<open>loadTemplate\<close> and the output stream of \<^verbatim>\<open>sbt/codegen/Emitter.cpp\<close>, \<^verbatim>\<open>Options::printHelp\<close>, and the profile that
  is opened by a constructor and written back by a destructor.  Proved here: what the two processes leave
  behind, and that a profiled run of the one makes the other translate what the guest jumped to.
\<close>

section \<open>Files\<close>

text \<open>
  A disk holds contents by file.  What is outside the program is the parameter \<open>fs\<close>: the file a path names (so that two paths
  may name one file), whether a path can be opened for reading and writing, created if need be, whether it can be opened
  for writing once more when the process ends, and contents as text.  Contents are of the JSON library's kind, as the profile is a file like the
  others, and text can be written as such and read back.  A file that is on the disk can be read.
\<close>

type_synonym 'f disk = "string \<Rightarrow> 'f option"

record 'f file_system =
  resolve :: "string \<Rightarrow> string"
  writable :: "string \<Rightarrow> bool"
  reopens :: "string \<Rightarrow> bool"
  as_text :: "'f \<Rightarrow> string"
  of_text :: "string \<Rightarrow> 'f"

definition text_ok :: "'f file_system \<Rightarrow> bool" where
  "text_ok fs \<longleftrightarrow> (\<forall>s. as_text fs (of_text fs s) = s)"

definition read_text :: "'f file_system \<Rightarrow> 'f disk \<Rightarrow> string \<Rightarrow> string option" where
  "read_text fs d path = map_option (as_text fs) (d (resolve fs path))"

definition profile_path :: string where "profile_path = ''./profiling.json''"

definition template_path :: "string \<Rightarrow> string" where
  "template_path name = ''./sbt/templates/'' @ name @ ''.cpp.in''"

definition template_scriptPath :: "string \<Rightarrow> string" where
  "template_scriptPath name = ''../sbt/templates/'' @ name @ ''.cpp.in''"

definition loadTemplate :: "(string \<Rightarrow> string option) \<Rightarrow> templates" where
  "loadTemplate files name =
     (case files (template_path name) of Some tmpl \<Rightarrow> Some tmpl | None \<Rightarrow> files (template_scriptPath name))"

text \<open>An output stream: the path it writes to, or nothing if it could not be opened.  Opening truncates.\<close>

type_synonym stream = "string option"

definition open_output :: "'f file_system \<Rightarrow> string \<Rightarrow> 'f disk \<Rightarrow> stream \<times> 'f disk" where
  "open_output fs path d =
     (if writable fs path then (Some path, d(resolve fs path \<mapsto> of_text fs [])) else (None, d))"

definition isOpen :: "stream \<Rightarrow> bool" where
  "isOpen out \<longleftrightarrow> out \<noteq> None"

text \<open>Everything the stream was given is in the file once it is destroyed; a stream that is not open ignores it.\<close>

definition put :: "'f file_system \<Rightarrow> stream \<Rightarrow> string \<Rightarrow> 'f disk \<Rightarrow> 'f disk" where
  "put fs out text d =
     (case out of
        None \<Rightarrow> d
      | Some path \<Rightarrow>
          d(resolve fs path \<mapsto> of_text fs ((case read_text fs d path of Some old \<Rightarrow> old | None \<Rightarrow> []) @ text)))"

section \<open>The profile of a process\<close>

definition start_profile ::
  "('f, 'j) json_lib \<Rightarrow> 'f file_system \<Rightarrow> bool \<Rightarrow> 'f disk \<Rightarrow> (ProfilingInfo \<times> 'f disk) option" where
  "start_profile jl fs appendTo d =
     (let file = resolve fs profile_path; blank = of_text fs [] in
      case open_profile jl blank (writable fs profile_path) (if writable fs profile_path then d file else None) appendTo of
        None \<Rightarrow> None
      | Some p \<Rightarrow> Some (p, d(file \<mapsto> (case d file of Some content \<Rightarrow> content | None \<Rightarrow> blank))))"

text \<open>
  The destructor saves.  Opening the file once more, to write it from its start, may fail; \<^verbatim>\<open>save\<close> then throws, and
  as a destructor must not, that ends the process: \<open>None\<close>.
\<close>

definition end_profile :: "('f, 'j) json_lib \<Rightarrow> 'f file_system \<Rightarrow> ProfilingInfo \<Rightarrow> 'f disk \<Rightarrow> 'f disk option" where
  "end_profile jl fs p d =
     (if reopens fs profile_path then Some (d(resolve fs profile_path \<mapsto> save_profile jl p)) else None)"

section \<open>Processes\<close>

text \<open>
  How a process ends: with a status, by an exception nobody catches, by undefined behaviour or a failed assertion, or because
  \<^verbatim>\<open>execve\<close> replaced it.
\<close>

datatype process = StillRunning | Finished int | Uncaught | Crashed | Replaced

text \<open>A process that returns \<open>status\<close> and destroys its profile on the way.\<close>

definition ending :: "('f, 'j) json_lib \<Rightarrow> 'f file_system \<Rightarrow> int \<Rightarrow> ProfilingInfo \<Rightarrow> 'f disk \<Rightarrow> process \<times> 'f disk" where
  "ending jl fs status p d = (case end_profile jl fs p d of Some d' \<Rightarrow> (Finished status, d') | None \<Rightarrow> (Uncaught, d))"

text \<open>
  The emulator: the profile is a global object, constructed before \<^verbatim>\<open>main\<close> and destroyed by \<^verbatim>\<open>exit\<close>, in the
  build without profiling too.  The files of the guest are in the world its system calls act on.
\<close>

definition kept_profile :: "'w machine \<Rightarrow> ProfilingInfo" where
  "kept_profile m = (case profile m of Some p \<Rightarrow> p | None \<Rightarrow> new_ProfilingInfo False)"

definition emulator_process ::
  "'w host \<Rightarrow> bool \<Rightarrow> ('f, 'j) json_lib \<Rightarrow> libelf \<Rightarrow> 'f file_system \<Rightarrow> Auxiliary \<Rightarrow> 'w \<Rightarrow> nat \<Rightarrow> 'f disk
     \<Rightarrow> process \<times> 'f disk" where
  "emulator_process h profiling jl lib fs aux w n d =
     (case start_profile jl fs False d of
        None \<Rightarrow> (Uncaught, d)
      | Some (p, d1) \<Rightarrow>
          (case emulator_main h profiling lib aux w n of
             Inl NoArguments \<Rightarrow> ending jl fs 1 p d1
           | Inl (ElfRejected result) \<Rightarrow> ending jl fs 1 p d1
           | Inl _ \<Rightarrow> (Crashed, d1)
           | Inr (Running m) \<Rightarrow> (StillRunning, d1)
           | Inr (Exited e m) \<Rightarrow> ending jl fs e (kept_profile m) d1
           | Inr (Execed m) \<Rightarrow> (Replaced, d1)
           | Inr _ \<Rightarrow> (Crashed, d1)))"

definition printHelp :: "string \<Rightarrow> string" where
  "printHelp program =
     ''Usage: '' @ program @ '' <elf binary> [output directory] [options]'' @ newline
     @ ''Options:'' @ newline
     @ ''  --translation-chaining        Enable translation chaining between indirect jumps (default: disabled)'' @ newline
     @ ''  --profile-indirect            Collect overhead data for indirect branch handling, requires --translation-chaining (default: disabled)'' @ newline
     @ ''  --software-branch-prediction  Hardcode most frequent indirect branch targets using profiling data (default: disabled)'' @ newline
     @ ''  --use-profiling-data          Use profiling data to supplement jump target identification (default: disabled)'' @ newline
     @ ''  --pin-registers               Pins most frequently used guest registers to host ones (default: enabled)'' @ newline"

text \<open>
  The translator.  A template that is missing ends the process in \<^verbatim>\<open>std::exit\<close>, which destroys neither the emitter
  nor the profile: of the output, \<open>flushed\<close> is what its buffer happens to have passed on.  Templates are read when the
  output has been truncated; a template that is the output itself would be read while it is written, which this does not describe.
\<close>

definition translator_process ::
  "('f, 'j) json_lib \<Rightarrow> libelf \<Rightarrow> 'f file_system \<Rightarrow> string \<Rightarrow> string list \<Rightarrow> 'f disk \<Rightarrow> process \<times> string \<times> 'f disk" where
  "translator_process jl lib fs flushed args d =
     (let (opts, positional) = parseArguments args default_options in
      case positional of
        [] \<Rightarrow> (Finished 1, printHelp (hd args), d)
      | input # outputs \<Rightarrow>
          (case load lib (new_ElfBinary input) of
             None \<Rightarrow> (Crashed, [], d)
           | Some (result, bin) \<Rightarrow>
               if result \<noteq> Success then (Finished 1, ''Failed to load elf binary'' @ newline, d)
               else (case start_profile jl fs True d of
                       None \<Rightarrow> (Uncaught, [], d)
                     | Some (info, d1) \<Rightarrow>
                         (let (out, d2) = open_output fs (case outputs of [] \<Rightarrow> ''./sbt/translated/src.cpp'' | path # _ \<Rightarrow> path) d1 in
                          case translation_text (loadTemplate (read_text fs d2)) lib bin opts info of
                            None \<Rightarrow> (Finished 1, [], put fs out flushed d2)
                          | Some text \<Rightarrow>
                              (let (status, d3) = ending jl fs 0 info (put fs out text d2) in (status, [], d3))))))"

section \<open>A program that jumps\<close>

text \<open>\<^verbatim>\<open>addi a7, x0, 93; jalr ra, 0x108(x0); ecall\<close>, as an executable and as the binary that is loaded from it.\<close>

definition jump_lib :: libelf where
  "jump_lib = demo_lib\<lparr>l_sections := (\<lambda>_. [\<lparr>scn_header = Some \<lparr>sh_type = 1, sh_flags = 6, sh_addr = 0x100, sh_size = 12, sh_entsize = 0\<rparr>,
     scn_name = Some ''.text'', scn_data = Some \<lparr>d_buf = Some [0x93, 0x08, 0xD0, 0x05, 0xE7, 0, 0x80, 0x10, 0x73, 0, 0, 0], d_size = 12\<rparr>,
     scn_symbol = (\<lambda>_. (None, 0))\<rparr>])\<rparr>"

definition jump_binary :: ElfBinary where
  "jump_binary = computeTextBounds ((new_ElfBinary ''a'')\<lparr>sections := [demo_section ''.text'' 0x100 [0x05D00893, 0x108000E7, 0x00000073] 6]\<rparr>)"

text \<open>A disk with a profile, on which every other file is a template, and where every path names a file of its own.\<close>

definition demo_files :: "(json_tree + string) file_system" where
  "demo_files = \<lparr>resolve = id, writable = (\<lambda>_. True), reopens = (\<lambda>_. True),
     as_text = (\<lambda>f. case f of Inl _ \<Rightarrow> [] | Inr s \<Rightarrow> s), of_text = Inr\<rparr>"

definition profiled_disk :: "(json_tree + string) disk" where
  "profiled_disk = (\<lambda>_. Some (Inr ''%%ENTRY_ADDRESS%%''))(profile_path \<mapsto> save_profile tree_lib demo_profile)"

section \<open>What profiling keeps\<close>

lemma oall_load_then [outcome_simps]: "oall P (load_then a v f) \<longleftrightarrow> (\<forall>x. v = Some x \<longrightarrow> oall P (f x))"
  by (simp add: load_then_def split: option.splits)

lemma oall_store_then [outcome_simps]: "oall P (store_then a mm m) \<longleftrightarrow> (\<forall>m'. mm = Some m' \<longrightarrow> P (m\<lparr>memory := m'\<rparr>))"
  by (simp add: store_then_def split: option.splits)

lemma writev_profile: "profile m = p \<Longrightarrow> oall (\<lambda>m'. profile m' = p) (writev_loop h fd iov n i sent m)"
proof (induction n arbitrary: i sent m)
  case (Suc n)
  show ?case
    using Suc.IH [of "m\<lparr>world := w\<rparr>" for w] Suc.prems by (auto simp: oall_load_then Let_def split: prod.splits)
qed simp

lemma handlers_profile:
  "oall (\<lambda>m'. profile m' = profile m) (sys_read h m)" "oall (\<lambda>m'. profile m' = profile m) (sys_statx h m)"
  "oall (\<lambda>m'. profile m' = profile m) (sys_clock_gettime64 h m)" "oall (\<lambda>m'. profile m' = profile m) (sys_mmap h m)"
  "oall (\<lambda>m'. profile m' = profile m) (sys_clone h m)" "oall (\<lambda>m'. profile m' = profile m) (sys_execve h m)"
  "oall (\<lambda>m'. profile m' = profile m) (sys_openat h m)" "oall (\<lambda>m'. profile m' = profile m) (sys_write h m)"
  subgoal by (simp add: sys_read_def outcome_simps Let_def split: prod.split)
  subgoal by (simp add: sys_statx_def outcome_simps Let_def split: prod.split)
  subgoal by (simp add: sys_clock_gettime64_def outcome_simps Let_def split: prod.split)
  subgoal by (simp add: sys_mmap_def outcome_simps Let_def split: prod.split option.split)
  subgoal by (simp add: sys_clone_def outcome_simps Let_def split: prod.split)
  subgoal by (simp add: sys_execve_def outcome_simps Let_def split: prod.split option.split)
  subgoal by (simp add: sys_openat_def outcome_simps Let_def split: prod.split)
  subgoal by (simp add: sys_write_def outcome_simps Let_def split: prod.split)
  done

lemma handle_profile: "oall (\<lambda>m'. profile m' = profile m) (handle h m)"
proof -
  have "profile (sys_close h m) = profile m" "profile (sys_brk m) = profile m" "profile (sys_munmap h m) = profile m"
    by (simp_all add: sys_close_def sys_brk_def sys_munmap_def Let_def split: prod.split)
  then show ?thesis
    unfolding handle_def handle_num_def by (simp add: handlers_profile sys_writev_def writev_profile sys_exit_def)
qed

text \<open>
  What holds of the profile of a process, absent or not, and is kept by everything the hooks do to it, holds
  for as long as the process runs and when it exits.
\<close>

locale profile_property =
  fixes Q :: "ProfilingInfo option \<Rightarrow> bool"
  assumes count: "Q p \<Longrightarrow> Q (map_option (incrementInstructionCount t) p)"
    and branch: "Q p \<Longrightarrow> Q (map_option (recordIndirectBranch b d) p)"
    and access: "Q p \<Longrightarrow> Q (map_option (recordRegisterAccess u x y z) p)"
begin

lemma hooks:
  "Q (profile m) \<Longrightarrow> Q (profile (logInstruction t m))" "Q (profile m) \<Longrightarrow> Q (profile (logJump a m))"
  "Q (profile m) \<Longrightarrow> Q (profile (logRegister u r1 r2 r3 m))"
  by (simp_all add: logInstruction_def logJump_def logRegister_def count branch access)

lemma handled: "Q (profile m) \<Longrightarrow> oall (\<lambda>m'. Q (profile m')) (handle h m)"
  using handle_profile [of m h] by (cases "handle h m") simp_all

lemma arms: "Q (profile m) \<Longrightarrow> oall (\<lambda>m'. Q (profile m')) (predecoded_arms h m inst)"
  by (cases "itype inst")
    (simp_all add: predecoded_arms_def predecoded_groups outcome_simps Let_def hooks handled count branch)

lemma step: "Q (profile m) \<Longrightarrow> oall (\<lambda>m'. Q (profile m')) (predecoded_step h is t m)"
  unfolding predecoded_step_def runInstructionPredecoded_def oall_load_then
  by (intro allI impI oall_obind arms hooks(3)) (simp_all add: finish_def)

lemma run: "Q (profile m) \<Longrightarrow> oall (\<lambda>m'. Q (profile m')) (iterate (predecoded_step h is t) n m)"
  by (induction n arbitrary: m) (auto intro!: oall_obind step)

end

lemma branches_kept [simp]:
  "indirectBranchTargets (incrementInstructionCount t p) = indirectBranchTargets p"
  "indirectBranchTargets (recordRegisterAccess u x y z p) = indirectBranchTargets p"
  by (simp_all add: incrementInstructionCount_def recordRegisterAccess_def count_register_def)

lemma branch_count_kept [simp]:
  "branch_count (incrementInstructionCount t p) = branch_count p" "branch_count (recordRegisterAccess u x y z p) = branch_count p"
  by (simp_all add: fun_eq_iff branch_count_def)

interpretation unprofiled: profile_property "\<lambda>p. p = None"
  by unfold_locales simp_all

interpretation profiled: profile_property "\<lambda>p. p \<noteq> None"
  by unfold_locales simp_all

interpretation well_formed: profile_property "\<lambda>p. \<forall>p'. p = Some p' \<longrightarrow> profile_ok p'"
  by unfold_locales (auto simp: recordIndirectBranch_ok profile_ok_def [of "incrementInstructionCount _ _"]
      profile_ok_def [of "recordRegisterAccess _ _ _ _ _"] simp flip: profile_ok_def)

interpretation recorded: profile_property "\<lambda>p. \<exists>p'. p = Some p' \<and> branch_count p' b d \<noteq> None" for b d
  by unfold_locales (auto simp: branch_count_record)

section \<open>Recording an indirect jump\<close>

lemma logJump_profile:
  "profile (logJump d m) = map_option (recordIndirectBranch (pc m) d) (profile m)"
  by (simp add: logJump_def)

lemma jump_recorded:
  assumes "fetch_instruction is t (pc m) = Some inst" "itype inst = I_JALR" "rd inst \<noteq> rs1 inst" "profile m = Some p"
    and "predecoded_step h is t m = Running m'"
  shows "\<exists>p'. profile m' = Some p' \<and> branch_count p' (pc m) (pc m') \<noteq> None"
  using assms
  by (auto simp: predecoded_step_def load_then_def runInstructionPredecoded_def predecoded_arms_def predecoded_groups finish_def Let_def
      logInstruction_def logJump_profile logRegister_def set_reg_def branch_count_record)

text \<open>The profile that the exit of a run leaves, for a jump on the way.\<close>

lemma jump_kept:
  assumes "iterate (predecoded_step h is t) k m0 = Running m" "iterate (predecoded_step h is t) (Suc k) m0 = Running m1"
    and "k < n" "iterate (predecoded_step h is t) n m0 = Exited e m'"
    and "fetch_instruction is t (pc m) = Some inst" "itype inst = I_JALR" "rd inst \<noteq> rs1 inst"
    and "profile m0 = Some p0" "profile_ok p0"
  shows "\<exists>p. profile m' = Some p \<and> profile_ok p \<and> branch_count p (pc m) (pc m1) \<noteq> None"
proof -
  have run: "predecoded_step h is t m = Running m1" using assms(1,2) unfolding iterate_last by simp
  obtain p where p: "profile m = Some p"
    using profiled.run [of m0 h "is" t k] assms(1,8) by auto
  obtain j where "n = Suc k + j" using assms(3) less_iff_Suc_add by auto
  then have "iterate (predecoded_step h is t) j m1 = Exited e m'"
    using assms(2,4) iterate_add [of "predecoded_step h is t" "Suc k" j m0] by (simp del: iterate.simps)
  then have "\<exists>p'. profile m' = Some p' \<and> branch_count p' (pc m) (pc m1) \<noteq> None"
    using recorded.run [of m1 "pc m" "pc m1" h "is" t j] jump_recorded [OF assms(5-7) p run] by simp
  moreover have "\<forall>p'. profile m' = Some p' \<longrightarrow> profile_ok p'"
    using well_formed.run [of m0 h "is" t n] assms(4,8,9) by simp
  ultimately show ?thesis by blast
qed

lemma new_profile_ok: "profile_ok (new_ProfilingInfo a)"
  by (simp add: profile_ok_def new_ProfilingInfo_def)

lemma setup_machine:
  assumes "emulator_setup profiling lib aux w = Inr (m, insts, bin)"
  shows "instruction_vector bin = Some insts" "profile m = (if profiling then Some (new_ProfilingInfo False) else None)"
    "load lib (new_ElfBinary (map (\<lambda>b. char_of (unat b)) (argv aux ! 1))) = Some (Success, bin)"
  using assms by (auto simp: emulator_setup_def loaded_machine_def split: if_splits option.splits prod.splits)

lemma vector_threaded:
  assumes "instruction_vector bin = Some insts"
  shows "runInstructionsThreaded h insts t n m = iterate (predecoded_step h insts t) n m"
  unfolding runInstructionsThreaded_def by (rule threaded_predecoded.iterate_agree) (rule vector_table_ok [OF assms])

lemma contiguous_layout:
  assumes "contiguous bin"
  shows "text_layout bin"
proof -
  have idx: "vector_index bin (decodeToContainer bin ! k) = k" if "k < length (decodeToContainer bin)" for k
    using index_of_address [OF assms that] by (simp add: vector_index_def)
  then have "distinct (map address (decodeToContainer bin))"
    unfolding distinct_conv_nth by (auto simp: vector_index_def) metis
  then show ?thesis using idx assms by (auto simp: text_layout_def list_all_length contiguous_def)
qed

lemma recorded_targets_iff:
  assumes "profile_ok info"
  shows "a \<in> recorded_targets info \<longleftrightarrow> (\<exists>b. branch_count info b a \<noteq> None)"
proof
  assume "a \<in> recorded_targets info"
  then obtain b ds where ds: "(b, ds) \<in> set (indirectBranchTargets info)" "a \<in> fst ` set ds" by (auto simp: recorded_targets_def)
  then have "map_of (indirectBranchTargets info) b = Some ds" using assms by (simp add: profile_ok_def)
  moreover have "map_of ds a \<noteq> None" using ds(2) by (simp add: map_of_eq_None_iff)
  ultimately show "\<exists>b. branch_count info b a \<noteq> None" by (intro exI [of _ b]) (simp add: branch_count_def)
next
  assume "\<exists>b. branch_count info b a \<noteq> None"
  then show "a \<in> recorded_targets info"
    by (force simp: branch_count_def recorded_targets_def split: option.splits dest: map_of_SomeD)
qed

lemma recorded_label:
  assumes c: "contiguous bin" and j: "j < length (decodeToContainer bin)" "a = address (decodeToContainer bin ! j)"
    and info: "profile_ok info" "branch_count info b a \<noteq> None" and opts: "useProfilingData opts"
  shows "table (translated_program bin opts info) ! unat ((a - getTextStartAddress bin) div 4) = SlotLabel a"
proof -
  have "a \<in> recorded_targets info" using info recorded_targets_iff by blast
  moreover obtain first rest where "decodeToContainer bin = first # rest" using j(1) by (cases "decodeToContainer bin") auto
  ultimately have "a \<in> getLeaders (decodeToContainer bin) opts info"
    using opts by (simp add: fold_recorded getAllBranchTargets_def recorded_targets_def Let_def del: fold.simps)
  then have "a \<in> translation_leaders bin opts info" using harvest_keeps by (auto simp: translation_leaders_def)
  moreover have "address (decodeToContainer bin ! j) = getTextStartAddress bin + of_nat j * 4" "unat (getTextWordCount bin) = length (decodeToContainer bin)"
    using c j by (simp_all add: contiguous_def mult.commute)
  ultimately show ?thesis
    using index_of_address [OF c j(1)] j
    by (simp add: translated_program_def dispatch_slots_def nth_append Let_def)
qed

section \<open>The translator's output\<close>

lemma read_text_other: "resolve fs path \<noteq> f \<Longrightarrow> read_text fs (d(f \<mapsto> x)) path = read_text fs d path"
  by (simp add: read_text_def)

lemma loadTemplate_other:
  assumes "\<And>name. resolve fs (template_path name) \<noteq> f \<and> resolve fs (template_scriptPath name) \<noteq> f"
  shows "loadTemplate (read_text fs (d(f \<mapsto> x))) = loadTemplate (read_text fs d)"
  by (rule ext) (simp add: loadTemplate_def read_text_other assms split: option.split)

text \<open>What is given to a stream after it was opened is the whole file.\<close>

lemma written_output:
  assumes "text_ok fs" "open_output fs path d = (out, d')"
  shows "put fs out text d' = (if writable fs path then d(resolve fs path \<mapsto> of_text fs text) else d)"
  using assms by (auto simp: open_output_def put_def read_text_def text_ok_def split: if_splits)

text \<open>A profile that was opened, and one that was saved and is opened again.\<close>

lemma profile_started:
  assumes "start_profile jl fs appendTo d = Some (p, d')"
  shows "writable fs profile_path" "\<exists>content. d' = d(resolve fs profile_path \<mapsto> content)"
  using assms by (auto simp: start_profile_def open_profile_def openFile_def Let_def split: option.splits if_splits)

lemma profile_reopened:
  assumes "writable fs profile_path" "d (resolve fs profile_path) = Some content" "load_profile jl content (new_ProfilingInfo True) = Some info"
  shows "start_profile jl fs True d = Some (info, d)"
  using assms by (simp add: start_profile_def open_profile_def openFile_def fun_upd_idem)

lemma ending_finished:
  "ending jl fs status p d = (Finished e, d') \<longleftrightarrow> reopens fs profile_path \<and> e = status \<and> d' = d(resolve fs profile_path \<mapsto> save_profile jl p)"
  by (auto simp: ending_def end_profile_def)

section \<open>The program that jumps\<close>

lemma jump_loads: "load jump_lib (new_ElfBinary (map (\<lambda>b. char_of (unat b)) (argv demo_command ! 1))) = Some (Success, jump_binary)"
proof -
  have name: "map (\<lambda>b. char_of (unat b)) (argv demo_command ! 1) = ''a''" by (simp add: demo_command_def char_of_def bit_0)
  have "read_words [0x93, 0x08, 0xD0, 0x05, 0xE7, 0, 0x80, 0x10, 0x73, 0, 0, 0] (Suc (Suc (Suc 0))) = Some [0x05D00893, 0x108000E7, 0x00000073]" by simp
  then have words: "section_words \<lparr>d_buf = Some [0x93, 0x08, 0xD0, 0x05, 0xE7, 0, 0x80, 0x10, 0x73, 0, 0, 0], d_size = 12\<rparr>
      = Some [0x05D00893, 0x108000E7, 0x00000073]"
    unfolding numeral_3_eq_3 [symmetric] by (simp add: section_words_def)
  show ?thesis
    unfolding name by (simp add: load_def jump_lib_def demo_lib_def new_ElfBinary_def decode_binary_def decode_section_def words
        segment_contains_def jump_binary_def demo_section_def SHF_ALLOC_def)
qed

lemma jump_code:
  "sections jump_binary = [demo_section ''.text'' 0x100 [0x05D00893, 0x108000E7, 0x00000073] 6]"
  "getTextStartAddress jump_binary = 0x100" "getTextWordCount jump_binary = 3"
  "decodeToContainer jump_binary = [decode 0x05D00893 0x100, decode 0x108000E7 0x104, decode 0x00000073 0x108]"
  by (simp_all add: jump_binary_def computeTextBounds_def new_ElfBinary_def demo_section_def new_ElfBinarySection_def
      resolveSectionType_def SHF_EXECINSTR_def SHF_ALLOC_def getEndAddress_def getByteSize_def getTextWordCount_def
      decodeToContainer_def getTypeSections_def)

lemma jalr_decoded: "decode 0x108000E7 a = \<lparr>itype = I_JALR, instruction = 0x108000E7, immediate = 0x108,
    address = a, rs1 = 0, rs2 = 8, rd = 1, handler = None\<rparr>"
proof -
  let ?s = "mk_spec I_JALR FMT_I 0b1100111 True 0 False 0 0 0"
  have "?s \<in> set all_specs" by (simp add: spec_tables)
  moreover have "spec_matches 0x108000E7 ?s" by (simp add: spec_matches_def getOpcode_def getFunct3_def)
  ultimately show ?thesis
    by (simp add: decode_eq_spec decode_spec_def I_FMT_imm_def getRS1_def getRS2_def getRD_def)
qed

lemma jump_contiguous: "contiguous jump_binary"
  by (simp add: contiguous_def jump_code less_Suc_eq all_conj_distrib)

lemma jump_runnable: "runnable jump_binary (guest_aux demo_command)"
  using contiguous_layout [OF jump_contiguous]
  by (simp add: runnable_def jump_code demo_section_def new_ElfBinarySection_def getLoadAddress_def getSize_eq
      demo_command_def guest_aux_def aux_bytes_def pointer_bytes_def guest_args_def string_bytes_def)

text \<open>Its three instructions, from the start that the emulator gives it.\<close>

lemma jump_run:
  assumes "emulator_setup True jump_lib demo_command w = Inr (m, insts, jump_binary)" "pc m = 0x100" "machine_ok m"
  shows "\<exists>m1 m2 e. iterate (predecoded_step h insts 0x100) 1 m = Running m1 \<and> pc m1 = 0x104
    \<and> fetch_instruction insts 0x100 0x104 = Some (decode 0x108000E7 0x104)
    \<and> iterate (predecoded_step h insts 0x100) 2 m = Running m2 \<and> pc m2 = 0x108
    \<and> (\<exists>m'. iterate (predecoded_step h insts 0x100) 3 m = Exited e m')"
proof -
  note fetch = fetch_placed [OF contiguous_layout [OF jump_contiguous] setup_machine(1) [OF assms(1)], unfolded jump_code]
  have f: "fetch_instruction insts 0x100 0x100 = Some (decode 0x05D00893 0x100)"
    "fetch_instruction insts 0x100 0x104 = Some (decode 0x108000E7 0x104)" "fetch_instruction insts 0x100 0x108 = Some (decode 0x73 0x108)"
    using fetch [of "decode 0x05D00893 0x100"] fetch [of "decode 0x108000E7 0x104"] fetch [of "decode 0x73 0x108"] by simp_all
  obtain m1 where m1: "predecoded_step h insts 0x100 m = Running m1" "pc m1 = 0x104" "reg m1 17 = 93" "reg m1 0 = 0"
    using assms(2,3) by (simp add: predecoded_step_def f load_then_def li_decoded runInstructionPredecoded_def predecoded_arms_def
        predecoded_groups finish_def machine_ok_def)
  obtain m2 where m2: "predecoded_step h insts 0x100 m1 = Running m2" "pc m2 = 0x108" "reg m2 17 = 93"
    using m1 by (simp add: predecoded_step_def f load_then_def jalr_decoded runInstructionPredecoded_def predecoded_arms_def
        predecoded_groups finish_def Let_def)
  obtain e m' where "predecoded_step h insts 0x100 m2 = Exited e m'"
    using m2 by (simp add: predecoded_step_def f load_then_def ecall_decoded runInstructionPredecoded_def predecoded_arms_def
        predecoded_groups handle_def handle_num_def sys_exit_def)
  then show ?thesis using m1 m2 f(2) by (simp add: numeral_2_eq_2 numeral_3_eq_3)
qed

text \<open>The disk with a profile can be used by both processes.\<close>

lemma demo_files_ok: "text_ok demo_files"
  by (simp add: text_ok_def demo_files_def)

lemma demo_reopens: "reopens demo_files path"
  by (simp add: demo_files_def)

lemma demo_starts:
  "start_profile tree_lib demo_files False profiled_disk = Some (new_ProfilingInfo False, profiled_disk)"
  "\<exists>info. start_profile tree_lib demo_files True profiled_disk = Some (info, profiled_disk)"
proof -
  have d: "profiled_disk (resolve demo_files profile_path) = Some (save_profile tree_lib demo_profile)" "writable demo_files profile_path"
    by (simp_all add: demo_files_def profiled_disk_def)
  then show "start_profile tree_lib demo_files False profiled_disk = Some (new_ProfilingInfo False, profiled_disk)"
    by (simp add: start_profile_def open_profile_def openFile_def fun_upd_idem)
  show "\<exists>info. start_profile tree_lib demo_files True profiled_disk = Some (info, profiled_disk)"
    using load_saved [OF tree_lib_ok demo_profile_ok, of "new_ProfilingInfo True"] profile_reopened [of demo_files profiled_disk, OF d(2,1)] by blast
qed

lemma demo_templates: "templates_present (loadTemplate (read_text demo_files profiled_disk))"
  by (simp add: templates_present_def template_names_def loadTemplate_def read_text_def template_path_def template_scriptPath_def profile_path_def
      profiled_disk_def demo_files_def)

section \<open>Properties\<close>

text \<open>C6: Profiles do what they are collected for.  Let the executable sections of a binary be adjacent, let a profiled run of the
  emulator exit, and let the guest on its way have
  executed an indirect jump (one that does not overwrite its base register) to an instruction of the binary.  Then the translator,
  started afterwards, can open the profile the emulator left, and with \<^verbatim>\<open>--use-profiling-data\<close> the dispatch table of the generated
  program holds a label for that destination: the jump does not end in the interpreter.\<close>

theorem profile_guided_dispatch:
  assumes "json_ok jl" and "contiguous bin" and "emulator_setup True lib aux w = Inr (m0, insts, bin)"
    and "emulator_process h True jl lib fs aux w n d = (Finished e, d1)"
    and "runInstructionsThreaded h insts (getTextStartAddress bin) k m0 = Running m"
    and "runInstructionsThreaded h insts (getTextStartAddress bin) (Suc k) m0 = Running m1"
    and "fetch_instruction insts (getTextStartAddress bin) (pc m) = Some inst" "itype inst = I_JALR" "rd inst \<noteq> rs1 inst"
    and "j < length (decodeToContainer bin)" "pc m1 = address (decodeToContainer bin ! j)" and "useProfilingData opts"
  shows "\<exists>info d2. start_profile jl fs True d1 = Some (info, d2)
    \<and> table (translated_program bin opts info) ! unat ((pc m1 - getTextStartAddress bin) div 4) = SlotLabel (pc m1)"
proof -
  let ?t = "getTextStartAddress bin"
  note start = setup_machine [OF assms(3)]
  note engine = vector_threaded [OF start(1)]
  obtain p0 d0 where opened: "start_profile jl fs False d = Some (p0, d0)"
    using assms(4) by (auto simp: emulator_process_def split: option.splits)
  then have "\<exists>m'. iterate (predecoded_step h insts ?t) n m0 = Exited e m'
      \<and> d1 = d0(resolve fs profile_path \<mapsto> save_profile jl (kept_profile m'))"
    using assms(3,4) by (auto simp: emulator_process_def emulator_main_def engine ending_finished split: outcome.splits)
  then obtain m' where m': "iterate (predecoded_step h insts ?t) n m0 = Exited e m'"
      "d1 (resolve fs profile_path) = Some (save_profile jl (kept_profile m'))"
    by auto
  have "k < n"
  proof (rule ccontr)
    assume "\<not> k < n"
    then have "k = n + (k - n)" by simp
    then show False using m'(1) assms(5) iterate_add [of "predecoded_step h insts ?t" n "k - n" m0] unfolding engine by simp
  qed
  then obtain p where p: "profile m' = Some p" "profile_ok p" "branch_count p (pc m) (pc m1) \<noteq> None"
    using jump_kept [OF assms(5,6) [unfolded engine] _ m'(1) assms(7-9)] start(2) new_profile_ok by auto
  obtain info where info: "load_profile jl (save_profile jl p) (new_ProfilingInfo True) = Some info" "same_counts (persisted p) p info"
    using load_saved [OF assms(1) p(2), of "new_ProfilingInfo True"] by auto
  then have "branch_count info (pc m) (pc m1) \<noteq> None" using p(3) by (simp add: same_counts_def)
  moreover have "start_profile jl fs True d1 = Some (info, d1)"
    using profile_reopened [of fs d1, OF profile_started(1) [OF opened] m'(2)] info(1) p(1) by (simp add: kept_profile_def)
  ultimately show ?thesis using recorded_label [OF assms(2,10,11) loaded_profile_ok [OF info(1)]] assms(12) by blast
qed

theorem profile_guided_dispatch_witness:
  "\<exists>e d1 info d2. emulator_process recording_host True tree_lib jump_lib demo_files demo_command [] 3 profiled_disk = (Finished e, d1)
    \<and> start_profile tree_lib demo_files True d1 = Some (info, d2)
    \<and> table (translated_program jump_binary (default_options\<lparr>useProfilingData := True\<rparr>) info) ! 2 = SlotLabel 0x108"
proof -
  obtain m insts where m: "emulator_setup True jump_lib demo_command ([] :: u8 list) = Inr (m, insts, jump_binary)" "pc m = 0x100" "machine_ok m"
    using setup_ok [OF jump_loads jump_runnable demo_runnable(2), of True "[]"] by (auto simp: getEntryAddress_def jump_lib_def demo_lib_def)
  note engine = vector_threaded [OF setup_machine(1) [OF m(1)], of recording_host "0x100"]
  obtain m1 m2 e m' where r: "iterate (predecoded_step recording_host insts 0x100) 1 m = Running m1" "pc m1 = 0x104"
    "fetch_instruction insts 0x100 0x104 = Some (decode 0x108000E7 0x104)"
    "iterate (predecoded_step recording_host insts 0x100) (Suc 1) m = Running m2" "pc m2 = 0x108"
    "iterate (predecoded_step recording_host insts 0x100) 3 m = Exited e m'"
    using jump_run [OF m, of recording_host] unfolding numeral_2_eq_2 One_nat_def by blast
  obtain d1 where p: "emulator_process recording_host True tree_lib jump_lib demo_files demo_command [] 3 profiled_disk = (Finished e, d1)"
    using m(1) r(6) by (simp add: emulator_process_def demo_starts emulator_main_def jump_code engine ending_finished demo_reopens)
  from profile_guided_dispatch [OF tree_lib_ok jump_contiguous m(1) p, of 1 m1 m2 "decode 0x108000E7 0x104" 2 "default_options\<lparr>useProfilingData := True\<rparr>"]
  show ?thesis using p r(1-5) by (simp add: jump_code engine jalr_decoded)
qed

text \<open>C31: What the translator leaves on the disk.  Let the binary load, the profile open and the templates be
  there, and let the output be no template.  The process returns 0; of all files only two may have changed: the output holds the whole text, and the
  file of the profile holds the profile, written back.  The profile is written last: an output path that names
  it is overwritten, and the generated program is lost.  The process returns 0 as well if the output cannot be opened (a directory, for
  instance, which is what the help text asks for), and then writes none: nobody calls \<^verbatim>\<open>isOpen\<close>.  If the profile cannot be
  opened again at the end, the process is terminated with the output written.\<close>

theorem translator_process_writes:
  assumes "parseArguments args default_options = (opts, input # outputs)" and "load lib (new_ElfBinary input) = Some (Success, bin)"
    and "text_ok fs" and "start_profile jl fs True d = Some (info, d0)" and "templates_present (loadTemplate (read_text fs d0))"
    and "out = (case outputs of [] \<Rightarrow> ''./sbt/translated/src.cpp'' | path # _ \<Rightarrow> path)"
    and "\<And>name. resolve fs (template_path name) \<noteq> resolve fs out \<and> resolve fs (template_scriptPath name) \<noteq> resolve fs out"
    and "written = (\<lambda>text d. if writable fs out then d(resolve fs out \<mapsto> of_text fs text) else d)"
  shows "\<exists>text. translation_text (loadTemplate (read_text fs d0)) lib bin opts info = Some text
    \<and> translator_process jl lib fs flushed args d =
       (if reopens fs profile_path then (Finished 0, [], (written text d)(resolve fs profile_path \<mapsto> save_profile jl info))
        else (Uncaught, [], written text d0))"
proof -
  obtain src where src: "translation_text (loadTemplate (read_text fs d0)) lib bin opts info = Some src"
    using translator_writes_output [OF assms(5)] by blast
  obtain stream d2 where opened: "open_output fs out d0 = (stream, d2)" by fastforce
  then have "loadTemplate (read_text fs d2) = loadTemplate (read_text fs d0)"
    using loadTemplate_other [OF assms(7)] by (auto simp: open_output_def split: if_splits)
  then have "translator_process jl lib fs flushed args d = (let (status, d3) = ending jl fs 0 info (written src d0) in (status, [], d3))"
    using assms(1,2,4) src opened written_output [OF assms(3) opened] by (simp add: translator_process_def assms(6) [symmetric] assms(8))
  moreover have "(written src d0)(resolve fs profile_path \<mapsto> x) = (written src d)(resolve fs profile_path \<mapsto> x)" for x
    using profile_started(2) [OF assms(4)] by (auto simp: assms(8) fun_eq_iff)
  ultimately show ?thesis using src by (simp add: ending_def end_profile_def)
qed

theorem translator_process_writes_witness:
  "\<exists>text d1. translator_process tree_lib demo_lib demo_files [] [''sbt'', ''--use-profiling-data'', ''a'', ''out.cpp''] profiled_disk = (Finished 0, [], d1)
     \<and> d1 ''out.cpp'' = Some (Inr text)"
proof -
  obtain info where i: "start_profile tree_lib demo_files True profiled_disk = Some (info, profiled_disk)"
    using demo_starts(2) by blast
  have l: "load demo_lib (new_ElfBinary ''a'') = Some (Success, demo_image)"
    using demo_loads(1) by (simp add: demo_command_def char_of_def bit_0)
  have "\<exists>text. translation_text (loadTemplate (read_text demo_files profiled_disk)) demo_lib demo_image (default_options\<lparr>useProfilingData := True\<rparr>) info = Some text
    \<and> translator_process tree_lib demo_lib demo_files [] [''sbt'', ''--use-profiling-data'', ''a'', ''out.cpp''] profiled_disk =
       (if reopens demo_files profile_path then (Finished 0, [], (profiled_disk(''out.cpp'' \<mapsto> Inr text))(profile_path \<mapsto> save_profile tree_lib info))
        else (Uncaught, [], profiled_disk(''out.cpp'' \<mapsto> Inr text)))"
    using translator_process_writes [OF _ l demo_files_ok i demo_templates refl, of "[''sbt'', ''--use-profiling-data'', ''a'', ''out.cpp'']"
        "default_options\<lparr>useProfilingData := True\<rparr>" "[''out.cpp'']" _ "[]", OF _ _ refl]
    by (simp add: parseArguments_def template_path_def template_scriptPath_def demo_files_def)
  then show ?thesis by (force simp: demo_files_def profile_path_def)
qed

text \<open>C35: The emulator destroys profiles.  Its profile is a global object that is saved when the process exits, also in the build
  that never records anything: whenever that build ends, even for want of an argument, the profile on
  disk is replaced by one without any counts.\<close>

theorem unprofiled_run_erases_profile:
  assumes "json_ok jl" and "emulator_process h False jl lib fs aux w n d = (Finished e, d1)"
  shows "\<exists>info d2. start_profile jl fs True d1 = Some (info, d2) \<and> recorded_targets info = {}
    \<and> (\<forall>t\<in>set counted_types. instructionCounts info t = 0) \<and> (\<forall>r<32. registerAccessCounts info r = 0)"
proof -
  let ?p = "new_ProfilingInfo False"
  have "kept_profile m' = ?p" if ended: "emulator_main h False lib aux w n = Inr (Exited e' m')" for e' m'
  proof -
    obtain m0 insts bin where start: "emulator_setup False lib aux w = Inr (m0, insts, bin)"
      using ended by (auto simp: emulator_main_def split: sum.splits)
    then have "iterate (predecoded_step h insts (getTextStartAddress bin)) n m0 = Exited e' m'"
      using ended vector_threaded [OF setup_machine(1) [OF start], of h] by (simp add: emulator_main_def)
    then show ?thesis
      using unprofiled.run [of m0 h insts "getTextStartAddress bin" n] setup_machine(2) [OF start] by (simp add: kept_profile_def)
  qed
  moreover obtain d0 where opened: "start_profile jl fs False d = Some (?p, d0)"
    using assms(2) by (auto simp: emulator_process_def start_profile_def open_profile_def Let_def split: option.splits)
  ultimately have d1: "d1 (resolve fs profile_path) = Some (save_profile jl ?p)"
    using assms(2) by (auto simp: emulator_process_def ending_finished split: outcome.splits sum.splits emulator_error.splits)
  obtain info where info: "load_profile jl (save_profile jl ?p) (new_ProfilingInfo True) = Some info" "same_counts (persisted ?p) ?p info"
    using load_saved [OF assms(1) new_profile_ok, of False "new_ProfilingInfo True"] by auto
  then have none: "branch_count info b a = None" for a b by (simp add: same_counts_def branch_count_def new_ProfilingInfo_def)
  have "recorded_targets info = {}" using none recorded_targets_iff [OF loaded_profile_ok [OF info(1)]] by auto
  then show ?thesis
    using profile_reopened [of fs d1, OF profile_started(1) [OF opened] d1 info(1)] info(2) by (auto simp: same_counts_def persisted_def new_ProfilingInfo_def)
qed

theorem unprofiled_run_erases_profile_witness:
  "\<exists>d1. emulator_process recording_host False tree_lib demo_lib demo_files \<lparr>argc = 1, argv = [[0x65]], envp = [], auxv = []\<rparr> [] 0 profiled_disk
      = (Finished 1, d1) \<and> (\<exists>info d2. start_profile tree_lib demo_files True d1 = Some (info, d2) \<and> recorded_targets info = {})"
proof -
  obtain d1 where "emulator_process recording_host False tree_lib demo_lib demo_files \<lparr>argc = 1, argv = [[0x65]], envp = [], auxv = []\<rparr> [] 0 profiled_disk
      = (Finished 1, d1)"
    by (simp add: emulator_process_def demo_starts emulator_main_def emulator_setup_def ending_finished demo_reopens)
  from unprofiled_run_erases_profile [OF tree_lib_ok this] this show ?thesis by blast
qed

end
