(* ===== verification/SyscallMap.thy ===== *)
theory SyscallMap
  imports Elf
begin

text \<open>
  The tables of system call numbers in \<^verbatim>\<open>lib/runtime/syscallMap.h\<close> and the script that lists the system
  calls of a binary with them, \<^verbatim>\<open>scripts/syscalls/list_syscalls.cpp\<close>.  The numbers of the host
  are macros of its kernel headers and a parameter here, by name.
\<close>

section \<open>Numbers of the host\<close>

definition NUM_SYSCALLS :: int where "NUM_SYSCALLS = 462"

text \<open>The cases of the switch; \<open>None\<close> is \<^verbatim>\<open>return -1\<close>.  The last group is compiled for 32-bit hosts only.\<close>

definition map_cases_0 :: "(int \<times> string option) list" where
  "map_cases_0 =
    [(0, Some ''io_setup''), (1, Some ''io_destroy''), (2, Some ''io_submit''), (3, Some ''io_cancel''),
     (5, Some ''setxattr''), (6, Some ''lsetxattr''), (7, Some ''fsetxattr''), (8, Some ''getxattr''),
     (9, Some ''lgetxattr''), (10, Some ''fgetxattr''), (11, Some ''listxattr''), (12, Some ''llistxattr''),
     (13, Some ''flistxattr''), (14, Some ''removexattr''), (15, Some ''lremovexattr''), (16, Some ''fremovexattr''),
     (17, Some ''getcwd''), (18, Some ''lookup_dcookie''), (19, Some ''eventfd2''), (20, Some ''epoll_create1''),
     (21, Some ''epoll_ctl''), (22, Some ''epoll_pwait''), (23, Some ''dup''), (24, Some ''dup3''),
     (26, Some ''inotify_init1''), (27, Some ''inotify_add_watch''), (28, Some ''inotify_rm_watch''),
     (29, Some ''ioctl''), (30, Some ''ioprio_set''), (31, Some ''ioprio_get''), (32, Some ''flock''),
     (33, Some ''mknodat''), (34, Some ''mkdirat''), (35, Some ''unlinkat''), (36, Some ''symlinkat''),
     (37, Some ''linkat''), (39, Some ''umount2''), (40, Some ''mount''), (41, Some ''pivot_root''),
     (42, Some ''nfsservctl''), (47, Some ''fallocate''), (48, Some ''faccessat''), (49, Some ''chdir''),
     (50, Some ''fchdir''), (51, Some ''chroot''), (52, Some ''fchmod''), (53, Some ''fchmodat''),
     (54, Some ''fchownat''), (55, Some ''fchown''), (56, Some ''openat''), (57, Some ''close''),
     (58, Some ''vhangup''), (59, Some ''pipe2''), (60, Some ''quotactl''), (62, Some ''lseek''),
     (63, Some ''read''), (64, Some ''write''), (65, Some ''readv''), (66, Some ''writev''), (69, Some ''preadv''),
     (70, Some ''pwritev''), (74, Some ''signalfd4''), (75, Some ''vmsplice''), (76, Some ''splice''),
     (77, Some ''tee''), (78, Some ''readlinkat''), (81, Some ''sync''), (82, Some ''fsync''),
     (83, Some ''fdatasync''), (84, Some ''sync_file_range''), (85, Some ''timerfd_create''), (89, Some ''acct''),
     (90, Some ''capget''), (91, Some ''capset''), (92, Some ''personality''), (93, Some ''exit''),
     (94, Some ''exit_group''), (95, Some ''waitid''), (96, Some ''set_tid_address''), (97, Some ''unshare''),
     (99, Some ''set_robust_list''), (100, Some ''get_robust_list''), (102, Some ''getitimer''),
     (103, Some ''setitimer''), (104, Some ''kexec_load''), (105, Some ''init_module''),
     (106, Some ''delete_module''), (107, Some ''timer_create''), (109, Some ''timer_getoverrun''),
     (111, Some ''timer_delete''), (116, Some ''syslog''), (117, Some ''ptrace''), (118, Some ''sched_setparam''),
     (119, Some ''sched_setscheduler''), (120, Some ''sched_getscheduler''), (121, Some ''sched_getparam''),
     (122, Some ''sched_setaffinity''), (123, Some ''sched_getaffinity''), (124, Some ''sched_yield''),
     (125, Some ''sched_get_priority_max''), (126, Some ''sched_get_priority_min''), (128, Some ''restart_syscall''),
     (129, Some ''kill''), (130, Some ''tkill''), (131, Some ''tgkill''), (132, Some ''sigaltstack''),
     (133, Some ''rt_sigsuspend''), (134, Some ''rt_sigaction''), (135, Some ''rt_sigprocmask''),
     (136, Some ''rt_sigpending''), (138, Some ''rt_sigqueueinfo''), (139, Some ''rt_sigreturn''),
     (140, Some ''setpriority''), (141, Some ''getpriority''), (142, Some ''reboot''), (143, Some ''setregid''),
     (144, Some ''setgid''), (145, Some ''setreuid''), (146, Some ''setuid''), (147, Some ''setresuid''),
     (148, Some ''getresuid''), (149, Some ''setresgid''), (150, Some ''getresgid''), (151, Some ''setfsuid''),
     (152, Some ''setfsgid''), (153, Some ''times''), (154, Some ''setpgid''), (155, Some ''getpgid''),
     (156, Some ''getsid''), (157, Some ''setsid''), (158, Some ''getgroups''), (159, Some ''setgroups''),
     (160, Some ''uname''), (161, Some ''sethostname''), (162, Some ''setdomainname''), (165, Some ''getrusage''),
     (166, Some ''umask''), (167, Some ''prctl''), (168, Some ''getcpu''), (172, Some ''getpid''),
     (173, Some ''getppid''), (174, Some ''getuid''), (175, Some ''geteuid''), (176, Some ''getgid''),
     (177, Some ''getegid''), (178, Some ''gettid'')]"

definition map_cases_1 :: "(int \<times> string option) list" where
  "map_cases_1 =
    [(179, Some ''sysinfo''), (180, Some ''mq_open''), (181, Some ''mq_unlink''), (184, Some ''mq_notify''),
     (185, Some ''mq_getsetattr''), (186, Some ''msgget''), (187, Some ''msgctl''), (188, Some ''msgrcv''),
     (189, Some ''msgsnd''), (190, Some ''semget''), (191, Some ''semctl''), (193, Some ''semop''),
     (194, Some ''shmget''), (195, Some ''shmctl''), (196, Some ''shmat''), (197, Some ''shmdt''),
     (198, Some ''socket''), (199, Some ''socketpair''), (200, Some ''bind''), (201, Some ''listen''),
     (202, Some ''accept''), (203, Some ''connect''), (204, Some ''getsockname''), (205, Some ''getpeername''),
     (206, Some ''sendto''), (207, Some ''recvfrom''), (208, Some ''setsockopt''), (209, Some ''getsockopt''),
     (210, Some ''shutdown''), (211, Some ''sendmsg''), (212, Some ''recvmsg''), (213, Some ''readahead''),
     (214, Some ''brk''), (215, Some ''munmap''), (216, Some ''mremap''), (217, Some ''add_key''),
     (218, Some ''request_key''), (219, Some ''keyctl''), (220, Some ''clone''), (221, Some ''execve''),
     (222, Some ''mmap''), (224, Some ''swapon''), (225, Some ''swapoff''), (226, Some ''mprotect''),
     (227, Some ''msync''), (228, Some ''mlock''), (229, Some ''munlock''), (230, Some ''mlockall''),
     (231, Some ''munlockall''), (232, Some ''mincore''), (233, Some ''madvise''), (234, Some ''remap_file_pages''),
     (235, Some ''mbind''), (236, Some ''get_mempolicy''), (237, Some ''set_mempolicy''),
     (238, Some ''migrate_pages''), (239, Some ''move_pages''), (240, Some ''rt_tgsigqueueinfo''),
     (241, Some ''perf_event_open''), (242, Some ''accept4''), (258, None), (259, None),
     (262, Some ''fanotify_init''), (263, Some ''fanotify_mark''), (264, Some ''name_to_handle_at''),
     (265, Some ''open_by_handle_at''), (267, Some ''syncfs''), (268, Some ''setns''), (269, Some ''sendmmsg''),
     (270, Some ''process_vm_readv''), (271, Some ''process_vm_writev''), (272, Some ''kcmp''),
     (273, Some ''finit_module''), (274, Some ''sched_setattr''), (275, Some ''sched_getattr''),
     (276, Some ''renameat2''), (277, Some ''seccomp''), (278, Some ''getrandom''), (279, Some ''memfd_create''),
     (280, Some ''bpf''), (281, Some ''execveat''), (282, Some ''userfaultfd''), (283, Some ''membarrier''),
     (284, Some ''mlock2''), (285, Some ''copy_file_range''), (286, Some ''preadv2''), (287, Some ''pwritev2''),
     (288, Some ''pkey_mprotect''), (289, Some ''pkey_alloc''), (290, Some ''pkey_free''), (291, Some ''statx''),
     (293, Some ''rseq''), (294, Some ''kexec_file_load''), (424, Some ''pidfd_send_signal''),
     (425, Some ''io_uring_setup''), (426, Some ''io_uring_enter''), (427, Some ''io_uring_register''),
     (428, Some ''open_tree''), (429, Some ''move_mount''), (430, Some ''fsopen''), (431, Some ''fsconfig''),
     (432, Some ''fsmount''), (433, Some ''fspick''), (434, Some ''pidfd_open''), (435, Some ''clone3''),
     (436, Some ''close_range''), (437, Some ''openat2''), (438, Some ''pidfd_getfd''), (439, Some ''faccessat2''),
     (440, Some ''process_madvise''), (441, Some ''epoll_pwait2''), (442, Some ''mount_setattr''),
     (443, Some ''quotactl_fd''), (444, Some ''landlock_create_ruleset''), (445, Some ''landlock_add_rule''),
     (446, Some ''landlock_restrict_self''), (447, Some ''memfd_secret''), (448, Some ''process_mrelease''),
     (449, Some ''futex_waitv''), (450, Some ''set_mempolicy_home_node''), (451, Some ''cachestat''),
     (452, Some ''fchmodat2''), (453, Some ''map_shadow_stack''), (454, Some ''futex_wake''),
     (455, Some ''futex_wait''), (456, Some ''futex_requeue''), (457, Some ''statmount''), (458, Some ''listmount''),
     (459, Some ''lsm_get_self_attr''), (460, Some ''lsm_set_self_attr''), (461, Some ''lsm_list_modules''),
     (462, Some ''mseal'')]"

definition map_cases_narrow :: "(int \<times> string option) list" where
  "map_cases_narrow =
    [(25, Some ''fcntl64''), (43, Some ''statfs64''), (44, Some ''fstatfs64''), (45, Some ''truncate64''),
     (46, Some ''ftruncate64''), (61, Some ''getdents64''), (67, Some ''pread64''), (68, Some ''pwrite64''),
     (71, Some ''sendfile64''), (223, Some ''fadvise64_64''), (261, Some ''prlimit64''),
     (403, Some ''clock_gettime64''), (404, Some ''clock_settime64''), (405, Some ''clock_adjtime64''),
     (406, Some ''clock_getres_time64''), (407, Some ''clock_nanosleep_time64''), (408, Some ''timer_gettime64''),
     (409, Some ''timer_settime64''), (410, Some ''timerfd_gettime64''), (411, Some ''timerfd_settime64''),
     (412, Some ''utimensat_time64''), (413, Some ''pselect6_time64''), (414, Some ''ppoll_time64''),
     (416, Some ''io_pgetevents_time64''), (417, Some ''recvmmsg_time64''), (418, Some ''mq_timedsend_time64''),
     (419, Some ''mq_timedreceive_time64''), (420, Some ''semtimedop_time64''),
     (421, Some ''rt_sigtimedwait_time64''), (422, Some ''futex_time64''),
     (423, Some ''sched_rr_get_interval_time64'')]"

definition mapSyscall :: "(string \<Rightarrow> int) \<Rightarrow> bool \<Rightarrow> int \<Rightarrow> int" where
  "mapSyscall SYS lp64 syscall =
     (if NUM_SYSCALLS \<le> syscall then - 1
      else case map_of (map_cases_0 @ map_cases_1 @ (if lp64 then [] else map_cases_narrow)) syscall of
        Some (Some name) \<Rightarrow> SYS name
      | _ \<Rightarrow> - 1)"

section \<open>Names\<close>

definition name_cases_0 :: "(int \<times> string) list" where
  "name_cases_0 =
    [(0, ''io_setup''), (1, ''io_destroy''), (2, ''io_submit''), (3, ''io_cancel''), (5, ''setxattr''),
     (6, ''lsetxattr''), (7, ''fsetxattr''), (8, ''getxattr''), (9, ''lgetxattr''), (10, ''fgetxattr''),
     (11, ''listxattr''), (12, ''llistxattr''), (13, ''flistxattr''), (14, ''removexattr''), (15, ''lremovexattr''),
     (16, ''fremovexattr''), (17, ''getcwd''), (18, ''lookup_dcookie''), (19, ''eventfd2''), (20, ''epoll_create1''),
     (21, ''epoll_ctl''), (22, ''epoll_pwait''), (23, ''dup''), (24, ''dup3''), (25, ''fcntl64''),
     (26, ''inotify_init1''), (27, ''inotify_add_watch''), (28, ''inotify_rm_watch''), (29, ''ioctl''),
     (30, ''ioprio_set''), (31, ''ioprio_get''), (32, ''flock''), (33, ''mknodat''), (34, ''mkdirat''),
     (35, ''unlinkat''), (36, ''symlinkat''), (37, ''linkat''), (39, ''umount2''), (40, ''mount''),
     (41, ''pivot_root''), (42, ''nfsservctl''), (43, ''statfs64''), (44, ''fstatfs64''), (45, ''truncate64''),
     (46, ''ftruncate64''), (47, ''fallocate''), (48, ''faccessat''), (49, ''chdir''), (50, ''fchdir''),
     (51, ''chroot''), (52, ''fchmod''), (53, ''fchmodat''), (54, ''fchownat''), (55, ''fchown''), (56, ''openat''),
     (57, ''close''), (58, ''vhangup''), (59, ''pipe2''), (60, ''quotactl''), (61, ''getdents64''), (62, ''llseek''),
     (63, ''read''), (64, ''write''), (65, ''readv''), (66, ''writev''), (67, ''pread64''), (68, ''pwrite64''),
     (69, ''preadv''), (70, ''pwritev''), (71, ''sendfile64''), (74, ''signalfd4''), (75, ''vmsplice''),
     (76, ''splice''), (77, ''tee''), (78, ''readlinkat''), (81, ''sync''), (82, ''fsync''), (83, ''fdatasync''),
     (84, ''sync_file_range''), (85, ''timerfd_create''), (89, ''acct''), (90, ''capget''), (91, ''capset''),
     (92, ''personality''), (93, ''exit''), (94, ''exit_group''), (95, ''waitid''), (96, ''set_tid_address''),
     (97, ''unshare''), (99, ''set_robust_list''), (100, ''get_robust_list''), (102, ''getitimer''),
     (103, ''setitimer''), (104, ''kexec_load''), (105, ''init_module''), (106, ''delete_module''),
     (107, ''timer_create''), (109, ''timer_getoverrun''), (111, ''timer_delete''), (116, ''syslog''),
     (117, ''ptrace''), (118, ''sched_setparam''), (119, ''sched_setscheduler''), (120, ''sched_getscheduler''),
     (121, ''sched_getparam''), (122, ''sched_setaffinity''), (123, ''sched_getaffinity''), (124, ''sched_yield''),
     (125, ''sched_get_priority_max''), (126, ''sched_get_priority_min''), (128, ''restart_syscall''),
     (129, ''kill''), (130, ''tkill''), (131, ''tgkill''), (132, ''sigaltstack''), (133, ''rt_sigsuspend''),
     (134, ''rt_sigaction''), (135, ''rt_sigprocmask''), (136, ''rt_sigpending''), (138, ''rt_sigqueueinfo''),
     (139, ''rt_sigreturn''), (140, ''setpriority''), (141, ''getpriority''), (142, ''reboot''), (143, ''setregid''),
     (144, ''setgid''), (145, ''setreuid''), (146, ''setuid''), (147, ''setresuid''), (148, ''getresuid''),
     (149, ''setresgid''), (150, ''getresgid''), (151, ''setfsuid''), (152, ''setfsgid''), (153, ''times''),
     (154, ''setpgid''), (155, ''getpgid''), (156, ''getsid''), (157, ''setsid''), (158, ''getgroups'')]"

definition name_cases_1 :: "(int \<times> string) list" where
  "name_cases_1 =
    [(159, ''setgroups''), (160, ''uname''), (161, ''sethostname''), (162, ''setdomainname''), (165, ''getrusage''),
     (166, ''umask''), (167, ''prctl''), (168, ''getcpu''), (172, ''getpid''), (173, ''getppid''), (174, ''getuid''),
     (175, ''geteuid''), (176, ''getgid''), (177, ''getegid''), (178, ''gettid''), (179, ''sysinfo''),
     (180, ''mq_open''), (181, ''mq_unlink''), (184, ''mq_notify''), (185, ''mq_getsetattr''), (186, ''msgget''),
     (187, ''msgctl''), (188, ''msgrcv''), (189, ''msgsnd''), (190, ''semget''), (191, ''semctl''), (193, ''semop''),
     (194, ''shmget''), (195, ''shmctl''), (196, ''shmat''), (197, ''shmdt''), (198, ''socket''),
     (199, ''socketpair''), (200, ''bind''), (201, ''listen''), (202, ''accept''), (203, ''connect''),
     (204, ''getsockname''), (205, ''getpeername''), (206, ''sendto''), (207, ''recvfrom''), (208, ''setsockopt''),
     (209, ''getsockopt''), (210, ''shutdown''), (211, ''sendmsg''), (212, ''recvmsg''), (213, ''readahead''),
     (214, ''brk''), (215, ''munmap''), (216, ''mremap''), (217, ''add_key''), (218, ''request_key''),
     (219, ''keyctl''), (220, ''clone''), (221, ''execve''), (222, ''mmap''), (223, ''fadvise64_64''),
     (224, ''swapon''), (225, ''swapoff''), (226, ''mprotect''), (227, ''msync''), (228, ''mlock''),
     (229, ''munlock''), (230, ''mlockall''), (231, ''munlockall''), (232, ''mincore''), (233, ''madvise''),
     (234, ''remap_file_pages''), (235, ''mbind''), (236, ''get_mempolicy''), (237, ''set_mempolicy''),
     (238, ''migrate_pages''), (239, ''move_pages''), (240, ''rt_tgsigqueueinfo''), (241, ''perf_event_open''),
     (242, ''accept4''), (258, ''riscv_hwprobe''), (259, ''riscv_flush_icache''), (261, ''prlimit64''),
     (262, ''fanotify_init''), (263, ''fanotify_mark''), (264, ''name_to_handle_at''), (265, ''open_by_handle_at''),
     (267, ''syncfs''), (268, ''setns''), (269, ''sendmmsg''), (270, ''process_vm_readv''),
     (271, ''process_vm_writev''), (272, ''kcmp''), (273, ''finit_module''), (274, ''sched_setattr''),
     (275, ''sched_getattr''), (276, ''renameat2''), (277, ''seccomp''), (278, ''getrandom''),
     (279, ''memfd_create''), (280, ''bpf''), (281, ''execveat''), (282, ''userfaultfd''), (283, ''membarrier''),
     (284, ''mlock2''), (285, ''copy_file_range''), (286, ''preadv2''), (287, ''pwritev2''),
     (288, ''pkey_mprotect''), (289, ''pkey_alloc''), (290, ''pkey_free''), (291, ''statx''), (293, ''rseq''),
     (294, ''kexec_file_load''), (403, ''clock_gettime64''), (404, ''clock_settime64''), (405, ''clock_adjtime64''),
     (406, ''clock_getres_time64''), (407, ''clock_nanosleep_time64''), (408, ''timer_gettime64''),
     (409, ''timer_settime64''), (410, ''timerfd_gettime64''), (411, ''timerfd_settime64''),
     (412, ''utimensat_time64''), (413, ''pselect6_time64''), (414, ''ppoll_time64''),
     (416, ''io_pgetevents_time64''), (417, ''recvmmsg_time64''), (418, ''mq_timedsend_time64''),
     (419, ''mq_timedreceive_time64''), (420, ''semtimedop_time64''), (421, ''rt_sigtimedwait_time64''),
     (422, ''futex_time64''), (423, ''sched_rr_get_interval_time64''), (424, ''pidfd_send_signal''),
     (425, ''io_uring_setup''), (426, ''io_uring_enter''), (427, ''io_uring_register''), (428, ''open_tree''),
     (429, ''move_mount''), (430, ''fsopen''), (431, ''fsconfig''), (432, ''fsmount''), (433, ''fspick'')]"

definition name_cases_2 :: "(int \<times> string) list" where
  "name_cases_2 =
    [(434, ''pidfd_open''), (435, ''clone3''), (436, ''close_range''), (437, ''openat2''), (438, ''pidfd_getfd''),
     (439, ''faccessat2''), (440, ''process_madvise''), (441, ''epoll_pwait2''), (442, ''mount_setattr''),
     (443, ''quotactl_fd''), (444, ''landlock_create_ruleset''), (445, ''landlock_add_rule''),
     (446, ''landlock_restrict_self''), (447, ''memfd_secret''), (448, ''process_mrelease''), (449, ''futex_waitv''),
     (450, ''set_mempolicy_home_node''), (451, ''cachestat''), (452, ''fchmodat2''), (453, ''map_shadow_stack''),
     (454, ''futex_wake''), (455, ''futex_wait''), (456, ''futex_requeue''), (457, ''statmount''),
     (458, ''listmount''), (459, ''lsm_get_self_attr''), (460, ''lsm_set_self_attr''), (461, ''lsm_list_modules''),
     (462, ''mseal'')]"

definition syscallToString :: "int \<Rightarrow> string" where
  "syscallToString syscall =
     (if NUM_SYSCALLS \<le> syscall then ''UNKNOWN_SYSCALL''
      else case map_of (name_cases_0 @ name_cases_1 @ name_cases_2) syscall of
        Some name \<Rightarrow> name
      | None \<Rightarrow> ''UNKNOWN_SYSCALL'')"

definition getNumSyscalls :: int where "getNumSyscalls = NUM_SYSCALLS"

section \<open>Listing the calls of a binary\<close>

text \<open>The lines printed, as address, number and name; \<open>last\<close> is the number last loaded into \<^verbatim>\<open>a7\<close>.\<close>

definition loads_number :: "Instruction \<Rightarrow> bool" where
  "loads_number inst \<longleftrightarrow> itype inst = I_ADDI \<and> rd inst = 17 \<and> rs1 inst = 0"

fun list_calls :: "int \<Rightarrow> Instruction list \<Rightarrow> (u32 \<times> int \<times> string) list" where
  "list_calls last_syscall [] = []"
| "list_calls last_syscall (inst # insts) =
     (let last_syscall' = (if loads_number inst then sint (immediate inst) else last_syscall)
      in (if itype inst = I_ECALL then [(address inst, last_syscall', syscallToString last_syscall')] else [])
         @ list_calls last_syscall' insts)"

datatype list_result = BadUsage | NotLoaded | Listed "(u32 \<times> int \<times> string) list"

definition list_syscalls :: "libelf \<Rightarrow> string list \<Rightarrow> list_result" where
  "list_syscalls lib args =
     (if length args \<noteq> 2 then BadUsage
      else case load lib (new_ElfBinary (args ! 1)) of
        Some (Success, bin) \<Rightarrow> Listed (list_calls 0 (decodeToContainer bin))
      | _ \<Rightarrow> NotLoaded)"

section \<open>Reference\<close>

text \<open>Both tables as one: what a number should map to on a 32-bit host, by the name table.\<close>

definition expected_host_name :: "int \<Rightarrow> string option" where
  "expected_host_name n =
     (if syscallToString n \<in> {''UNKNOWN_SYSCALL'', ''riscv_hwprobe'', ''riscv_flush_icache''} then None
      else if n = 62 then Some ''lseek'' else Some (syscallToString n))"

text \<open>The number most recently loaded into \<^verbatim>\<open>a7\<close> before the instruction at a position.\<close>

definition number_before :: "Instruction list \<Rightarrow> nat \<Rightarrow> int" where
  "number_before insts i =
     (case rev (filter loads_number (take i insts)) of [] \<Rightarrow> 0 | inst # _ \<Rightarrow> sint (immediate inst))"

text \<open>Merging association lists with ascending keys.\<close>

fun ascending :: "int list \<Rightarrow> bool" where
  "ascending (x # y # ys) \<longleftrightarrow> x < y \<and> ascending (y # ys)"
| "ascending xs \<longleftrightarrow> True"

fun merge :: "(int \<times> 'a) list \<Rightarrow> (int \<times> 'a) list \<Rightarrow> (int \<times> 'a) list" where
  "merge [] ys = ys"
| "merge xs [] = xs"
| "merge (x # xs) (y # ys) = (if fst x < fst y then x # merge xs (y # ys) else y # merge (x # xs) ys)"

section \<open>Correctness\<close>

lemma set_merge: "set (merge xs ys) = set xs \<union> set ys"
  by (induction xs ys rule: merge.induct) auto

lemma ascending_distinct: "ascending xs \<Longrightarrow> sorted xs \<and> distinct xs"
  by (induction xs rule: ascending.induct) auto

lemma merged_tables:
  "merge (map_cases_0 @ map_cases_1) map_cases_narrow =
     map (\<lambda>(n, name). (n, if name \<in> {''riscv_hwprobe'', ''riscv_flush_icache''} then None
        else if n = 62 then Some ''lseek'' else Some name)) (name_cases_0 @ name_cases_1 @ name_cases_2)"
  by code_simp

lemma names_ascending: "ascending (map fst (name_cases_0 @ name_cases_1 @ name_cases_2))"
  by code_simp

lemma length_merge: "length (merge xs ys) = length xs + length ys"
  by (induction xs ys rule: merge.induct) auto

lemma map_of_merge:
  assumes "distinct (map fst (merge xs ys))"
  shows "map_of (xs @ ys) = map_of (merge xs ys)"
proof -
  have "card (set (map fst (xs @ ys))) = length (map fst (xs @ ys))"
    using distinct_card [OF assms] by (simp add: set_merge length_merge image_Un)
  then have "distinct (map fst (xs @ ys))" by (rule card_distinct)
  then show ?thesis using assms map_of_inject_set [of "xs @ ys" "merge xs ys"] by (simp add: set_merge)
qed

lemma map_of_map_values: "map_of (map (\<lambda>(k, v). (k, f k v)) xs) n = map_option (f n) (map_of xs n)"
  by (induction xs) auto

lemma map_table:
  "map_of (map_cases_0 @ map_cases_1 @ map_cases_narrow) n =
     map_option (\<lambda>name. if name \<in> {''riscv_hwprobe'', ''riscv_flush_icache''} then None
        else if n = 62 then Some ''lseek'' else Some name) (map_of (name_cases_0 @ name_cases_1 @ name_cases_2) n)"
proof -
  have "map fst (merge (map_cases_0 @ map_cases_1) map_cases_narrow) = map fst (name_cases_0 @ name_cases_1 @ name_cases_2)"
    unfolding merged_tables by (simp add: comp_def split_def)
  then have "distinct (map fst (merge (map_cases_0 @ map_cases_1) map_cases_narrow))"
    using ascending_distinct [OF names_ascending] by simp
  from map_of_merge [OF this] show ?thesis unfolding merged_tables map_of_map_values by simp
qed

lemma known_names: "map_of (name_cases_0 @ name_cases_1 @ name_cases_2) n \<noteq> Some ''UNKNOWN_SYSCALL''"
proof -
  have "list_all (\<lambda>name. name \<noteq> ''UNKNOWN_SYSCALL'') (map snd (name_cases_0 @ name_cases_1 @ name_cases_2))" by code_simp
  moreover have "name \<in> set (map snd cases)" if "map_of cases n = Some name" for cases :: "(int \<times> string) list" and name
    using map_of_SomeD [OF that] by (metis imageI list.set_map snd_conv)
  ultimately show ?thesis unfolding list_all_iff by blast
qed

lemma list_calls_positions:
  "list_calls n insts = map (\<lambda>i. let call = (case rev (filter loads_number (take i insts)) of [] \<Rightarrow> n | inst # _ \<Rightarrow> sint (immediate inst))
      in (address (insts ! i), call, syscallToString call)) (filter (\<lambda>i. itype (insts ! i) = I_ECALL) [0..<length insts])"
proof (induction n insts rule: list_calls.induct)
  case (2 n inst insts)
  let ?n = "if loads_number inst then sint (immediate inst) else n"
  let ?call = "\<lambda>n insts i. case rev (filter loads_number (take i insts)) of [] \<Rightarrow> n | inst # _ \<Rightarrow> sint (immediate inst)"
  have step: "?call n (inst # insts) (Suc i) = ?call ?n insts i" for i by (auto split: list.splits)
  have "[0..<length (inst # insts)] = 0 # map Suc [0..<length insts]" by (simp add: upt_conv_Cons map_Suc_upt del: upt_Suc)
  moreover have "itype inst = I_ECALL \<Longrightarrow> \<not> loads_number inst" by (simp add: loads_number_def)
  ultimately show ?case
    using 2 [OF refl] step
    by (cases "loads_number inst"; cases "itype inst = I_ECALL") (simp_all add: Let_def filter_map comp_def del: upt_Suc)
qed simp

section \<open>Properties\<close>

text \<open>C33: The two tables describe the same system calls.  On a 32-bit host every number is mapped to the
  host's number for the call the name table names, and numbers it does not know to \<open>- 1\<close>; so are the two calls that
  only RISC-V has.  The single call with two names is \<^verbatim>\<open>lseek\<close>, which the name table calls \<^verbatim>\<open>llseek\<close>.\<close>

theorem syscall_tables_agree:
  "mapSyscall SYS False n = (case expected_host_name n of Some name \<Rightarrow> SYS name | None \<Rightarrow> - 1)"
proof (cases "NUM_SYSCALLS \<le> n")
  case True
  then show ?thesis by (simp add: mapSyscall_def expected_host_name_def syscallToString_def)
next
  case False
  define t where "t = map_of (name_cases_0 @ name_cases_1 @ name_cases_2) n"
  have "mapSyscall SYS False n = (case map_option (\<lambda>name. if name \<in> {''riscv_hwprobe'', ''riscv_flush_icache''}
      then None else if n = 62 then Some ''lseek'' else Some name) t of Some (Some name) \<Rightarrow> SYS name | _ \<Rightarrow> - 1)"
    using False by (simp only: mapSyscall_def if_False map_table t_def)
  moreover have "syscallToString n = (case t of Some name \<Rightarrow> name | None \<Rightarrow> ''UNKNOWN_SYSCALL'')"
    using False by (simp only: syscallToString_def if_False t_def)
  moreover have "t \<noteq> Some ''UNKNOWN_SYSCALL''"
    unfolding t_def by (rule known_names)
  ultimately show ?thesis
    by (cases t) (simp_all add: expected_host_name_def)
qed

text \<open>The script lists, in order, exactly the system call instructions, each with the number most recently loaded
  into \<^verbatim>\<open>a7\<close> before it, or 0.\<close>

theorem list_calls_exact:
  "list_calls 0 insts = map (\<lambda>i. (address (insts ! i), number_before insts i, syscallToString (number_before insts i)))
     (filter (\<lambda>i. itype (insts ! i) = I_ECALL) [0..<length insts])"
  by (simp add: list_calls_positions number_before_def Let_def)

text \<open>The last case of both tables is never reached: the number is rejected before.\<close>

theorem mseal_unreachable: "mapSyscall SYS lp64 462 = - 1 \<and> syscallToString 462 = ''UNKNOWN_SYSCALL''
    \<and> map_of (name_cases_0 @ name_cases_1 @ name_cases_2) 462 = Some ''mseal''"
proof -
  have "map_of (name_cases_0 @ name_cases_1 @ name_cases_2) 462 = Some ''mseal''" by code_simp
  then show ?thesis by (simp only: mapSyscall_def syscallToString_def NUM_SYSCALLS_def order_refl if_True simp_thms)
qed

end
