(* ===== verification/Spec2Isabelle.thy ===== *)
theory Spec2Isabelle
  imports ISA Programs SyscallMap
begin

text \<open>
  A verification library for the RISC-V emulator and static binary translator in \<^verbatim>\<open>src/\<close>.

  \<^bold>\<open>The program.\<close>  Two programs share one library.  The emulator (\<^verbatim>\<open>emulator/\<close>) loads a 32-bit RISC-V executable and interprets
  it.  The translator (\<^verbatim>\<open>sbt/\<close>) turns the executable into a C++ program that does the same when it is compiled.  Both
  use \<^verbatim>\<open>lib/\<close>: the instruction tables and the decoder, the ELF loader, the guest's memory, the system calls and
  the profile.  A generated program links the same memory, system calls and interpreter; it interprets whatever
  the translator did not recognise as a jump target.

  \<^bold>\<open>Theories and sources.\<close>

  \<^item> \<open>RV_Prelude\<close>: machine words, C++ operators on them, the outcomes of execution, \<open>iterate\<close> and \<open>reaches\<close>, and the
    interfaces that several components implement, as locales: \<open>stepper\<close> (a step function with an invariant), \<open>lockstep\<close>
    (two step functions that agree), \<open>unseen_by_step\<close> (a part of the state that a step does not look at) and \<open>op_system\<close> (requests
    that keep an invariant).
  \<^item> \<open>Instructions\<close>, \<open>Decoder\<close>: \<^verbatim>\<open>lib/decoding/Instructions.h\<close>, \<^verbatim>\<open>Decoder.cpp\<close>.  Enumerations are datatypes, the tables are
    lists of records in the order of the source, \<open>decode\<close> searches them as the source does.  The encodings of the RISC-V manual stand beside
    them as tables of their own (\<open>manual_word\<close>), taken from nothing in the source.
  \<^item> \<open>Memory\<close>: \<^verbatim>\<open>lib/runtime/Memory.cpp\<close>.  The byte array is a function with explicit bounds: an access outside is
    \<open>None\<close>.  Reads, writes, heap, the list of mapped areas, and \<open>loadAux\<close>.  \<open>Stack\<close> describes the memory that \<open>loadAux\<close> leaves.
  \<^item> \<open>Profiling\<close>, \<open>Text_Format\<close>, \<open>ProfilingStore\<close>: \<^verbatim>\<open>lib/ProfilingInfo.cpp\<close>.  Counters and recording; addresses as text;
    loading and saving over a JSON library that is a parameter.
  \<^item> \<open>Machine\<close>, \<open>Syscalls\<close>: \<^verbatim>\<open>lib/runtime/Context.h\<close>, \<^verbatim>\<open>registers.h\<close>, \<^verbatim>\<open>syscall.h\<close>, \<^verbatim>\<open>syscall.cpp\<close>.  The record \<open>machine\<close> is the context
    together with the state of the host, the exit callbacks, the printed diagnostics and the active profile.  Handlers
    call the host through the record \<open>host\<close>, of which nothing is assumed but what a property states.  Mapping replaces whole pages of the guest's
    memory, as the kernel does.
  \<^item> \<open>Interpreter\<close>, \<open>Engines\<close>, \<open>ISA\<close>: \<^verbatim>\<open>emulator/Interpreter.cpp\<close>.  All four engines, arm by arm: the chain of conditions, the nested
    switch, predecoded instructions, threaded code.  \<open>ISA\<close> states the instruction set on integers, independently of the engines.
  \<^item> \<open>Elf\<close>, \<open>Emulator\<close>: \<^verbatim>\<open>lib/elf/\<close>, \<^verbatim>\<open>emulator/main.cpp\<close>.  libelf is a parameter, the record \<open>libelf\<close>.
  \<^item> \<open>Cpp\<close>, \<open>Cpp_Facts\<close>: the fragment of C++ that is emitted, with types, conversions, undefined behaviour and text.
  \<^item> \<open>Emitter\<close>, \<open>InstructionEmitter\<close>, \<open>BasicBlocks\<close>, \<open>RuntimeEmitter\<close>: \<^verbatim>\<open>sbt/Options.cpp\<close>, \<^verbatim>\<open>sbt/codegen/\<close>, \<^verbatim>\<open>sbt/analysis/\<close>, \<^verbatim>\<open>sbt/main.cpp\<close>.
    Emitted statements are kept as syntax beside their text.
  \<^item> \<open>Translated\<close>, \<open>Translation\<close>, \<open>GeneratedProgram\<close>, \<open>GeneratedMain\<close>, \<open>Templates\<close>: the meaning of the emitted statements, of
    \<^verbatim>\<open>runTranslated\<close> with its dispatch table, loop and fallback (\<^verbatim>\<open>sbt/templates/\<close>), and of the generated \<^verbatim>\<open>main\<close>.  Pinned registers are
    host registers; the call that prints a time keeps those a callee has to save.
  \<^item> \<open>Programs\<close>: the emulator and the translator as processes over the files they read and write (\<^verbatim>\<open>emulator/main.cpp\<close>,
    \<^verbatim>\<open>sbt/main.cpp\<close>, \<^verbatim>\<open>loadTemplate\<close>, \<^verbatim>\<open>printHelp\<close>, constructor and destructor of the profile).  Which file a path names and which can be
    opened is a parameter, the record \<open>file_system\<close>; the profile is a file like the others.
  \<^item> \<open>SyscallMap\<close>: \<^verbatim>\<open>lib/runtime/syscallMap.h\<close> and \<^verbatim>\<open>scripts/syscalls/list_syscalls.cpp\<close>.

  \<^bold>\<open>What is shown.\<close>

  \<^item> Decoding: every word is decoded to the one table entry that matches it, the word the RISC-V manual assigns to an instruction and its
    operands is decoded to that instruction and those operands, and register numbers and immediates are in range.
  \<^item> Interpretation: the four engines compute the same (\<open>lockstep\<close> interpretations in \<open>Engines\<close>), up to what they record of undecodable words
    in a profile (\<open>without_profile\<close>, \<open>logs_agree\<close>), namely what the instruction set
    says (\<open>ISA\<close>), and keep the invariant of the machine in every reachable state (\<open>stepper\<close> interpretations).
  \<^item> Memory: typed accesses are independent of each other (\<open>byte_memory\<close>), mapped areas never overlap under any sequence
    of requests (\<open>op_system\<close>) for at least one byte each, the initial stack holds what the source lays out, word by word.
  \<^item> System calls: the frame every call keeps (\<open>system_service\<close>), the results of the calls, and their errors.
  \<^item> Loading: sections, text bounds, and the state in which the emulator and the generated program start.
  \<^item> Translation: the code of each instruction has the effect of the interpreter (\<open>Translation\<close>), faults included except those of loads
    into \<^verbatim>\<open>x0\<close>, which are not emitted (\<open>discarded_load\<close>), whatever registers are pinned or tracked; the generated program simulates the guest (\<open>forward_simulation\<close>) and exits when the guest exits; its
    labels are defined; the translator terminates.
  \<^item> Profiles: recording counts, a saved profile is loaded back, and what a profiled run of the emulator jumped to is a
    label of the program the translator then generates (\<open>profile_property\<close>); the tables of system calls agree.
  \<^item> Builds: all choices of the emulator's engine agree with each other.
  \<^item> Defects: where the code does not do what it should, the theorem says what it does instead.  Remainder of the smallest
    number by \<open>- 1\<close>, \<^verbatim>\<open>auipc\<close> with large offsets, \<^verbatim>\<open>jalr\<close> with equal registers, data among code, gaps between
    executable sections, profiles halved by the translator and erased by the emulator, registers lost when indirect jumps
    are timed, an output path that names the profile, empty mappings that overlap, sections of odd size, and others.

  \<^bold>\<open>Bounds and fuel.\<close>  A run is \<open>iterate step n\<close> for any \<open>n\<close>: a loop that may not end is never given a result.  Simulation
  theorems give the number of target steps existentially.  Filling a template is bounded by the length of the template, and
  theory \<open>Templates\<close> proves the bound sufficient for all values the translator inserts.  Pointer arrays of the guest
  are read with the number of words of the memory as fuel, which \<open>Syscalls\<close> proves sufficient.

  \<^bold>\<open>Conventions.\<close>  A \<^verbatim>\<open>uint32_t\<close> is a 32 bit word with wrapping arithmetic; an access to memory that the program does not
  own is the outcome \<open>OutOfBounds\<close>, other undefined behaviour is \<open>Undefined\<close>, a failed assertion is \<open>Aborted\<close>.  An
  \<^verbatim>\<open>unordered_map\<close> is an association list in some order, and theorems hold for every order.

  \<^bold>\<open>Not modelled.\<close>  Console output other than the engines' diagnostics (progress messages of the loader, the fallback's and the
  translator's messages other than its help text), since nothing depends on it; the time stamp counter that \<^verbatim>\<open>--profile-indirect\<close>
  reads in generated code and the cycles it prints, which are host state; permissions of files beyond whether a path can
  be opened; that pages are inaccessible once they are unmapped, and that a transfer to or from memory beyond the guest's array is cut short
  by the kernel instead of being out of bounds; the C++ compiler that builds the generated program, of which the fragment in \<open>Cpp\<close> is the specification; test programs, benchmarks and build files.
  The instructions \<^verbatim>\<open>ebreak\<close> and \<^verbatim>\<open>fence\<close>, on which the engines and the translator disagree, are excluded from the
  simulation by the predicate \<open>agreeing\<close>, as are the defects listed above.

  \<^bold>\<open>Plan.\<close>  All components with logic of their own are modelled.  What could follow: the guest's own crt0 against the initial stack,
  and self-modifying code, for which the predecoding engines and the translator are not correct by design.
\<close>

end
